(* ===== verification/Prelude.thy ===== *)
theory Prelude
  imports Main "HOL-Library.Word" "HOL-Library.AList" "HOL-Library.Sublist"
    "HOL-Library.Char_ord" "HOL-Library.List_Lexorder" "HOL-Library.Product_Lexorder"
begin

text \<open>
  Shared vocabulary of the development: Python exceptions as values, byte strings,
  insertion-ordered dictionaries, and the pieces of Python's \<open>str\<close>, \<open>bytes\<close>
  and \<open>os.path\<close> the client uses.

  A Python \<open>bytes\<close> object is a list of 8-bit words. A Python \<open>str\<close> is modelled by
  its UTF-8 encoding, one \<open>char\<close> per byte, so that literals, dictionary keys and the
  byte-wise collation of SQLite read as they do in the source and \<open>s.encode("utf-8")\<close>
  is the byte-for-byte reading of the same list.
\<close>

section \<open>Types\<close>

type_synonym bytes = "8 word list"

text \<open>The exceptions the client raises or catches, with their message.\<close>

datatype exn =
    ValueError string
  | KeyError string
  | TypeError string
  | AttributeError string
  | StructError string
  | CryptoError string
  | NaclTypeError string
  | NaclValueError string
  | BadSignatureError
  | OSError string
  | FileNotFoundError string
  | DaemonError string
  | RuntimeError string
  | SqliteError string
  | EOFError string
  | IndexError string
  | SystemExit int

datatype 'a res = Ok 'a | Err exn

fun bind_res :: "'a res \<Rightarrow> ('a \<Rightarrow> 'b res) \<Rightarrow> 'b res" where
  "bind_res (Ok x) f = f x"
| "bind_res (Err e) f = Err e"

lemma bind_res_Ok:
  assumes "bind_res r f = Ok y"
  obtains x where "r = Ok x" "f x = Ok y"
  using assms by (cases r) auto

fun is_ok :: "'a res \<Rightarrow> bool" where
  "is_ok (Ok _) = True"
| "is_ok (Err _) = False"

text \<open>
  The \<open>except\<close> clauses of the source, as predicates. \<open>FileNotFoundError\<close> is an
  \<open>OSError\<close>; PyNaCl's \<open>CryptoError\<close> is a direct subclass of \<open>Exception\<close>, its
  \<open>BadSignatureError\<close>, \<open>TypeError\<close> and \<open>ValueError\<close> are subclasses of \<open>CryptoError\<close>, the
  last also of Python's \<open>ValueError\<close>.
\<close>

fun is_ValueError :: "exn \<Rightarrow> bool" where
  "is_ValueError (ValueError _) = True"
| "is_ValueError (NaclValueError _) = True"
| "is_ValueError _ = False"

fun is_KeyError :: "exn \<Rightarrow> bool" where
  "is_KeyError (KeyError _) = True"
| "is_KeyError _ = False"

fun is_CryptoError :: "exn \<Rightarrow> bool" where
  "is_CryptoError (CryptoError _) = True"
| "is_CryptoError (NaclTypeError _) = True"
| "is_CryptoError (NaclValueError _) = True"
| "is_CryptoError BadSignatureError = True"
| "is_CryptoError _ = False"

fun is_OSError :: "exn \<Rightarrow> bool" where
  "is_OSError (OSError _) = True"
| "is_OSError (FileNotFoundError _) = True"
| "is_OSError _ = False"

fun is_DaemonError :: "exn \<Rightarrow> bool" where
  "is_DaemonError (DaemonError _) = True"
| "is_DaemonError _ = False"

fun exn_str :: "exn \<Rightarrow> string" where
  "exn_str (ValueError m) = m"
| "exn_str (KeyError m) = m"
| "exn_str (TypeError m) = m"
| "exn_str (AttributeError m) = m"
| "exn_str (StructError m) = m"
| "exn_str (CryptoError m) = m"
| "exn_str (NaclTypeError m) = m"
| "exn_str (NaclValueError m) = m"
| "exn_str BadSignatureError = ''Signature was forged or corrupt''"
| "exn_str (OSError m) = m"
| "exn_str (FileNotFoundError m) = m"
| "exn_str (DaemonError m) = m"
| "exn_str (RuntimeError m) = m"
| "exn_str (SqliteError m) = m"
| "exn_str (EOFError m) = m"
| "exn_str (IndexError m) = m"
| "exn_str (SystemExit _) = ''''"

text \<open>A comprehension whose body may raise: the first exception wins.\<close>

fun traverse_res :: "('a \<Rightarrow> 'b res) \<Rightarrow> 'a list \<Rightarrow> 'b list res" where
  "traverse_res f [] = Ok []"
| "traverse_res f (x # xs) = bind_res (f x) (\<lambda>y. bind_res (traverse_res f xs) (\<lambda>ys. Ok (y # ys)))"

lemma traverse_res_list_all2: "traverse_res f xs = Ok ys \<longleftrightarrow> list_all2 (\<lambda>x y. f x = Ok y) xs ys"
proof (induction xs arbitrary: ys)
  case (Cons x xs)
  show ?case
  proof
    assume "traverse_res f (x # xs) = Ok ys"
    then show "list_all2 (\<lambda>x y. f x = Ok y) (x # xs) ys" using Cons by (auto elim!: bind_res_Ok)
  next
    assume "list_all2 (\<lambda>x y. f x = Ok y) (x # xs) ys"
    then obtain z zs where "ys = z # zs" "f x = Ok z" "traverse_res f xs = Ok zs"
      using Cons by (auto simp: list_all2_Cons1)
    then show "traverse_res f (x # xs) = Ok ys" by simp
  qed
qed auto

lemma traverse_res_total: "\<forall>x \<in> set xs. \<exists>y. f x = Ok y \<Longrightarrow> \<exists>ys. traverse_res f xs = Ok ys"
  by (induction xs) auto

lemma list_all2_map_eq: "list_all2 P xs ys \<Longrightarrow> (\<And>x y. P x y \<Longrightarrow> f y = g x) \<Longrightarrow> map f ys = map g xs"
  by (induction rule: list_all2_induct) auto

lemma list_all2_mem: "list_all2 P xs ys \<Longrightarrow> x \<in> set xs \<Longrightarrow> \<exists>y \<in> set ys. P x y"
  by (induction rule: list_all2_induct) auto

lemma traverse_res_append_Err:
  "traverse_res f xs = Ok ys \<Longrightarrow> f x = Err e \<Longrightarrow> traverse_res f (xs @ x # zs) = Err e"
  by (induction xs arbitrary: ys) (auto elim!: bind_res_Ok)

section \<open>Actions\<close>

text \<open>
  Stateful code that may raise: the changes made before an exception stay, so an action
  returns its result together with the state.
\<close>

type_synonym ('s, 'a) act = "'s \<Rightarrow> 'a res \<times> 's"

definition bind_act :: "('s, 'a) act \<Rightarrow> ('a \<Rightarrow> ('s, 'b) act) \<Rightarrow> ('s, 'b) act" where
  "bind_act m f s = (case m s of (Ok x, s1) \<Rightarrow> f x s1 | (Err e, s1) \<Rightarrow> (Err e, s1))"

definition ret_act :: "'a \<Rightarrow> ('s, 'a) act" where
  "ret_act x s = (Ok x, s)"

definition lift_res :: "'a res \<Rightarrow> ('s, 'a) act" where
  "lift_res r s = (r, s)"

lemma bind_act_step: "m s = (Ok x, s1) \<Longrightarrow> bind_act m f s = f x s1"
  by (simp add: bind_act_def)

lemma bind_ret_act [simp]: "bind_act (ret_act x) f = f x"
  by (simp add: bind_act_def ret_act_def fun_eq_iff)

lemma bind_lift_act [simp]: "bind_act (lift_res (Ok x)) f = f x" "bind_act (lift_res (Err e)) f = lift_res (Err e)"
  by (simp_all add: bind_act_def lift_res_def fun_eq_iff)

lemma bind_act_Ok:
  assumes "bind_act m f s = (Ok y, s2)"
  obtains x s1 where "m s = (Ok x, s1)" "f x s1 = (Ok y, s2)"
  using assms by (auto simp: bind_act_def split: prod.splits res.splits)

section \<open>Text and bytes\<close>

definition byte_char :: "8 word \<Rightarrow> char" where
  "byte_char b = char_of (unat b)"

definition char_byte :: "char \<Rightarrow> 8 word" where
  "char_byte c = of_nat (of_char c)"

text \<open>\<open>s.encode("utf-8")\<close>, and the inverse re-reading of bytes as text.\<close>

definition encode_utf8 :: "string \<Rightarrow> bytes" where
  "encode_utf8 s = map char_byte s"

definition bytes_text :: "bytes \<Rightarrow> string" where
  "bytes_text bs = map byte_char bs"

lemma unat_byte_less: "unat (b :: 8 word) < 256"
  using unsigned_less [of b] by simp

lemma byte_char_byte [simp]: "byte_char (char_byte c) = c"
proof -
  have "of_char c < (256 :: nat)" by simp
  then show ?thesis
    by (simp add: byte_char_def char_byte_def unat_of_nat)
qed

lemma char_byte_char [simp]: "char_byte (byte_char b) = b"
proof -
  have "unat b < 256" by (rule unat_byte_less)
  then have "of_char (char_of (unat b) :: char) = (unat b :: nat)" by simp
  then show ?thesis by (simp add: byte_char_def char_byte_def)
qed

lemma bytes_text_encode [simp]: "bytes_text (encode_utf8 s) = s"
  by (simp add: bytes_text_def encode_utf8_def comp_def)

lemma encode_bytes_text [simp]: "encode_utf8 (bytes_text bs) = bs"
  by (simp add: bytes_text_def encode_utf8_def comp_def)

lemma encode_utf8_inj: "encode_utf8 s = encode_utf8 t \<longleftrightarrow> s = t"
  by (metis bytes_text_encode)

lemma length_encode_utf8 [simp]: "length (encode_utf8 s) = length s"
  by (simp add: encode_utf8_def)

lemma encode_utf8_append: "encode_utf8 (s @ t) = encode_utf8 s @ encode_utf8 t"
  by (simp add: encode_utf8_def)

section \<open>Dictionaries\<close>

text \<open>
  A Python dict keeps insertion order: \<open>d[k] = v\<close> replaces the value in place or appends.
  This is \<open>AList.update\<close>; \<open>del d[k]\<close> is \<open>AList.delete\<close>; \<open>d.get(k)\<close> is \<open>map_of d k\<close>.
\<close>

type_synonym ('k, 'v) dict = "('k \<times> 'v) list"

abbreviation dict_get :: "('k, 'v) dict \<Rightarrow> 'k \<Rightarrow> 'v option" where
  "dict_get d k \<equiv> map_of d k"

abbreviation dict_set :: "'k \<Rightarrow> 'v \<Rightarrow> ('k, 'v) dict \<Rightarrow> ('k, 'v) dict" where
  "dict_set k v d \<equiv> AList.update k v d"

abbreviation dict_del :: "'k \<Rightarrow> ('k, 'v) dict \<Rightarrow> ('k, 'v) dict" where
  "dict_del k d \<equiv> AList.delete k d"

abbreviation wf_dict :: "('k, 'v) dict \<Rightarrow> bool" where
  "wf_dict d \<equiv> distinct (map fst d)"

lemma dict_get_set: "dict_get (dict_set k v d) k' = (if k' = k then Some v else dict_get d k')"
  by (simp add: update_conv')

lemma dict_get_del: "dict_get (dict_del k d) k' = (if k' = k then None else dict_get d k')"
  by (simp add: delete_conv')

lemma dict_set_fresh: "k \<notin> fst ` set d \<Longrightarrow> dict_set k v d = d @ [(k, v)]"
  by (induction d) auto

text \<open>
  A keyed table with an upsert, a delete and a lookup: what every SQLite table with a
  primary key, and every Python dict, promises its clients.
\<close>

locale keyed_table =
  fixes get :: "'t \<Rightarrow> 'k \<Rightarrow> 'v option"
    and put :: "'k \<Rightarrow> 'v \<Rightarrow> 't \<Rightarrow> 't"
    and del :: "'k \<Rightarrow> 't \<Rightarrow> 't"
    and wf :: "'t \<Rightarrow> bool"
  assumes get_put: "get (put k v t) k' = (if k' = k then Some v else get t k')"
    and get_del: "get (del k t) k' = (if k' = k then None else get t k')"
    and wf_put: "wf t \<Longrightarrow> wf (put k v t)"
    and wf_del: "wf t \<Longrightarrow> wf (del k t)"
begin

lemma put_put_get: "get (put k v (put k v' t)) = get (put k v t)"
  by (rule ext) (simp add: get_put)

lemma del_put_get: "get t k = None \<Longrightarrow> get (del k (put k v t)) = get t"
  by (rule ext) (simp add: get_put get_del)

lemma put_other: "k \<noteq> k' \<Longrightarrow> get (put k v t) k' = get t k'"
  by (simp add: get_put)

lemma wf_fold_put: "wf t \<Longrightarrow> wf (fold (\<lambda>(k, v). put k v) kvs t)"
  by (induction kvs arbitrary: t) (auto simp: wf_put)

end

interpretation dict: keyed_table map_of AList.update AList.delete "\<lambda>d. distinct (map fst d)"
  by unfold_locales (auto simp: update_conv' delete_conv' distinct_update distinct_delete)

section \<open>Codecs\<close>

text \<open>
  An encoder with a decoder that recovers every valid value. Injectivity on the valid
  values is the client's lemma.
\<close>

locale codec =
  fixes enc :: "'a \<Rightarrow> 'b"
    and dec :: "'b \<Rightarrow> 'a res"
    and valid :: "'a \<Rightarrow> bool"
  assumes dec_enc: "valid x \<Longrightarrow> dec (enc x) = Ok x"
begin

lemma enc_inj: "valid x \<Longrightarrow> valid y \<Longrightarrow> enc x = enc y \<longleftrightarrow> x = y"
  by (metis dec_enc res.inject(1))

lemma dec_enc_bind: "valid x \<Longrightarrow> bind_res (dec (enc x)) f = f x"
  by (simp add: dec_enc)

end

lemma map_fst_insort: "map fst (insort_key fst x xs) = insort (fst x) (map fst xs)"
  by (induction xs) auto

lemma traverse_res_map:
  assumes "\<And>x. x \<in> set xs \<Longrightarrow> \<exists>y. f x = Ok y \<and> g y = h x"
  shows "\<exists>ys. traverse_res f xs = Ok ys \<and> map g ys = map h xs"
  using assms by (induction xs) fastforce+

lemma those_map: "(\<And>x. x \<in> set xs \<Longrightarrow> f x = Some (g x)) \<Longrightarrow> those (map f xs) = Some (map g xs)"
  by (induction xs) auto

lemma list_all_dict_del: "list_all P t \<Longrightarrow> list_all P (dict_del k t)"
  by (auto simp: AList.delete_eq list_all_iff)

section \<open>Machines\<close>

text \<open>
  An invariant of a step relation holds in every state reached from one in which it holds. A
  machine that is driven by events is one whose steps are the events.
\<close>

locale step_machine =
  fixes step :: "'s \<Rightarrow> 's \<Rightarrow> bool" and ok :: "'s \<Rightarrow> bool"
  assumes step_ok: "step s t \<Longrightarrow> ok s \<Longrightarrow> ok t"
begin

lemma reach_ok: "step\<^sup>*\<^sup>* s t \<Longrightarrow> ok s \<Longrightarrow> ok t"
  by (induction rule: rtranclp_induct) (auto intro: step_ok)

end

locale event_machine =
  fixes event :: "'ev \<Rightarrow> 's \<Rightarrow> 's" and ok :: "'s \<Rightarrow> bool"
  assumes event_ok: "ok s \<Longrightarrow> ok (event ev s)"

sublocale event_machine \<subseteq> events: step_machine "\<lambda>s t. \<exists>ev. t = event ev s" ok
  by unfold_locales (auto intro: event_ok)

context event_machine
begin

lemma fold_reaches: "(\<lambda>s t. \<exists>ev. t = event ev s)\<^sup>*\<^sup>* s (fold event evs s)"
proof (induction evs arbitrary: s)
  case (Cons ev evs)
  have "(\<lambda>s t. \<exists>ev. t = event ev s) s (event ev s)" by blast
  then show ?case using Cons.IH [of "event ev s"] by (simp add: converse_rtranclp_into_rtranclp)
qed simp

lemma fold_ok: "ok s \<Longrightarrow> ok (fold event evs s)"
  by (rule events.reach_ok [OF fold_reaches])

end

end
