(* ===== verification/Base58.thy ===== *)
theory Base58
  imports Prelude
begin

text \<open>
  \<open>client/aimless/base58.py\<close>: the checksum-free base58 transform used for the keys of an
  invite. The encoder's \<open>while n\<close> loop, the two leading-zero scans and the decoder's
  per-character loop are modelled as they are written, over Python's unbounded integers;
  the standard library's \<open>int.from_bytes\<close>, \<open>int.to_bytes\<close> and \<open>int.bit_length\<close>
  are defined first. The theory shows that decoding inverts encoding on every byte string,
  that decoding fails exactly on characters outside the alphabet, and how long an encoded
  32-byte key can be.
\<close>

section \<open>Big-endian integers\<close>

definition int_from_bytes :: "bytes \<Rightarrow> nat" where
  "int_from_bytes bs = foldl (\<lambda>n b. n * 256 + unat b) 0 bs"

fun int_to_bytes :: "nat \<Rightarrow> nat \<Rightarrow> bytes" where
  "int_to_bytes n 0 = []"
| "int_to_bytes n (Suc len) = int_to_bytes (n div 256) len @ [of_nat n]"

fun bit_length :: "nat \<Rightarrow> nat" where
  "bit_length n = (if n = 0 then 0 else Suc (bit_length (n div 2)))"

declare bit_length.simps [simp del]

section \<open>Model of the module\<close>

definition b58_alphabet :: string where
  "b58_alphabet = ''123456789ABCDEFGHJKLMNPQRSTUVWXYZabcdefghijkmnopqrstuvwxyz''"

definition b58_index :: "char \<Rightarrow> nat option" where
  "b58_index = map_of (zip b58_alphabet [0..<length b58_alphabet])"

text \<open>\<open>while n: n, r = divmod(n, 58); out.append(_ALPHABET[r])\<close>\<close>

fun b58_loop :: "nat \<Rightarrow> string \<Rightarrow> string" where
  "b58_loop n out =
     (if n = 0 then out else b58_loop (n div 58) (out @ [b58_alphabet ! (n mod 58)]))"

declare b58_loop.simps [simp del]

text \<open>\<open>for x in xs: if x == z: pad += 1 else: break\<close>\<close>

fun count_pad :: "'a \<Rightarrow> 'a list \<Rightarrow> nat" where
  "count_pad z [] = 0"
| "count_pad z (x # xs) = (if x = z then Suc (count_pad z xs) else 0)"

definition b58encode :: "bytes \<Rightarrow> string" where
  "b58encode data =
     (let n = int_from_bytes data; out = b58_loop n []; pad = count_pad 0 data
      in replicate pad (CHR ''1'') @ rev out)"

fun b58_value :: "nat \<Rightarrow> string \<Rightarrow> nat res" where
  "b58_value n [] = Ok n"
| "b58_value n (ch # text) =
     (case b58_index ch of
        None \<Rightarrow> Err (ValueError (''invalid base58 character '' @ [ch]))
      | Some i \<Rightarrow> b58_value (n * 58 + i) text)"

definition b58decode :: "string \<Rightarrow> bytes res" where
  "b58decode text =
     bind_res (b58_value 0 text) (\<lambda>n.
       let body = (if n \<noteq> 0 then int_to_bytes n ((bit_length n + 7) div 8) else []);
           pad = count_pad (CHR ''1'') text
       in Ok (replicate pad 0 @ body))"

section \<open>Integers and bytes\<close>

lemma foldl_bytes:
  "foldl (\<lambda>n b. n * 256 + unat b) a bs =
     a * 256 ^ length bs + foldl (\<lambda>n (b :: 8 word). n * 256 + unat b) 0 bs"
  by (induction bs rule: rev_induct) (auto simp: algebra_simps)

lemma int_from_bytes_Nil [simp]: "int_from_bytes [] = 0"
  by (simp add: int_from_bytes_def)

lemma int_from_bytes_snoc: "int_from_bytes (bs @ [b]) = int_from_bytes bs * 256 + unat b"
  by (simp add: int_from_bytes_def)

lemma int_from_bytes_Cons:
  "int_from_bytes (b # bs) = unat b * 256 ^ length bs + int_from_bytes bs"
  unfolding int_from_bytes_def using foldl_bytes [of "unat b" bs] by simp

lemma int_from_bytes_less: "int_from_bytes bs < 256 ^ length bs"
proof (induction bs rule: rev_induct)
  case (snoc b bs)
  then show ?case
    using unat_byte_less [of b] by (simp add: int_from_bytes_snoc)
qed simp

lemma int_from_bytes_ge:
  assumes "bs \<noteq> []" and "hd bs \<noteq> 0"
  shows "256 ^ (length bs - 1) \<le> int_from_bytes bs"
proof (cases bs)
  case (Cons b cs)
  with assms have "1 \<le> unat b" by (simp add: Suc_leI unat_gt_0)
  then have "256 ^ length cs \<le> unat b * 256 ^ length cs" by simp
  with Cons show ?thesis by (simp add: int_from_bytes_Cons trans_le_add1)
qed (use assms in simp)

lemma int_from_bytes_pos: "bs \<noteq> [] \<Longrightarrow> hd bs \<noteq> 0 \<Longrightarrow> 0 < int_from_bytes bs"
  using int_from_bytes_ge [of bs] by (metis less_le_trans zero_less_numeral zero_less_power)

lemma int_to_from_bytes: "int_to_bytes (int_from_bytes bs) (length bs) = bs"
proof (induction bs rule: rev_induct)
  case (snoc b bs)
  have "(int_from_bytes bs * 256 + unat b) div 256 = int_from_bytes bs"
    using unat_byte_less [of b] by simp
  moreover have "(of_nat (int_from_bytes bs * 256 + unat b) :: 8 word) = b"
  proof -
    have z: "(256 :: 8 word) = 0" by simp
    have "(of_nat (int_from_bytes bs * 256 + unat b) :: 8 word)
        = of_nat (int_from_bytes bs) * 256 + b" by simp
    then show ?thesis by (simp only: z mult_zero_right add_0)
  qed
  ultimately show ?case using snoc by (simp add: int_from_bytes_snoc)
qed simp

lemma bit_length_bounds: "0 < n \<Longrightarrow> 2 ^ (bit_length n - 1) \<le> n \<and> n < 2 ^ bit_length n"
proof (induction n rule: bit_length.induct)
  case (1 n)
  show ?case
  proof (cases "n div 2 = 0")
    case True
    with 1 have "n = 1" by simp
    then show ?thesis by (simp add: bit_length.simps)
  next
    case False
    with 1 have ih: "2 ^ (bit_length (n div 2) - 1) \<le> n div 2"
      "n div 2 < 2 ^ bit_length (n div 2)" by auto
    have "0 < bit_length (n div 2)" using False by (simp add: bit_length.simps)
    then obtain k where k: "bit_length (n div 2) = Suc k" by (cases "bit_length (n div 2)") auto
    have "bit_length n = Suc (Suc k)" using 1 k by (simp add: bit_length.simps [of n])
    with ih k show ?thesis by auto
  qed
qed

lemma bit_length_bytes:
  assumes "bs \<noteq> []" and "hd bs \<noteq> 0"
  shows "(bit_length (int_from_bytes bs) + 7) div 8 = length bs"
proof -
  let ?n = "int_from_bytes bs" and ?L = "length bs"
  have ge: "256 ^ (?L - 1) \<le> ?n" by (rule int_from_bytes_ge [OF assms])
  have pos: "0 < ?n" by (rule int_from_bytes_pos [OF assms])
  have pw: "(256 :: nat) ^ k = 2 ^ (8 * k)" for k by (simp add: power_mult)
  have "2 ^ (bit_length ?n - 1) < (2 :: nat) ^ (8 * ?L)"
    using bit_length_bounds [OF pos] int_from_bytes_less [of bs] unfolding pw by linarith
  then have "bit_length ?n - 1 < 8 * ?L" by simp
  moreover have "(2 :: nat) ^ (8 * (?L - 1)) < 2 ^ bit_length ?n"
    using bit_length_bounds [OF pos] ge unfolding pw by linarith
  then have "8 * (?L - 1) < bit_length ?n" by simp
  moreover have "0 < ?L" using assms by simp
  ultimately show ?thesis by linarith
qed

section \<open>The alphabet\<close>

lemma length_b58_alphabet [simp]: "length b58_alphabet = 58"
  by (simp add: b58_alphabet_def)

lemma distinct_b58_alphabet: "distinct b58_alphabet"
  by (simp add: b58_alphabet_def)

lemma b58_index_nth: "i < 58 \<Longrightarrow> b58_index (b58_alphabet ! i) = Some i"
proof -
  assume i: "i < 58"
  then have "(b58_alphabet ! i, i) \<in> set (zip b58_alphabet [0..<58])"
    by (auto simp: set_zip intro!: exI [of _ i])
  moreover have "distinct (map fst (zip b58_alphabet [0..<58]))"
    by (simp add: distinct_b58_alphabet)
  ultimately show ?thesis by (simp add: b58_index_def)
qed

lemma b58_index_None: "b58_index c = None \<longleftrightarrow> c \<notin> set b58_alphabet"
proof -
  have "fst ` set (zip b58_alphabet [0..<58]) = set (map fst (zip b58_alphabet [0..<58]))"
    by (rule set_map [symmetric])
  then show ?thesis by (simp add: b58_index_def map_of_eq_None_iff)
qed

lemma b58_index_one: "b58_index (CHR ''1'') = Some 0"
  using b58_index_nth [of 0] by (simp add: b58_alphabet_def)

lemma b58_nth_one: "i < 58 \<Longrightarrow> b58_alphabet ! i = CHR ''1'' \<longleftrightarrow> i = 0"
  using b58_index_nth [of i] b58_index_one by (auto simp: b58_alphabet_def)

section \<open>Digits\<close>

lemma b58_value_append:
  "b58_value n (s @ t) = bind_res (b58_value n s) (\<lambda>m. b58_value m t)"
  by (induction s arbitrary: n) (auto split: option.splits)

lemma b58_loop_acc: "b58_loop n out = out @ b58_loop n []"
proof (induction n arbitrary: out rule: less_induct)
  case (less n)
  show ?case
  proof (cases "n = 0")
    case False
    then have "n div 58 < n" by simp
    note ih = less.IH [OF this]
    show ?thesis
      using False ih [of "out @ [b58_alphabet ! (n mod 58)]"] ih [of "[b58_alphabet ! (n mod 58)]"]
      by (simp add: b58_loop.simps [of n])
  qed (simp add: b58_loop.simps)
qed

lemma b58_loop_0 [simp]: "b58_loop 0 out = out"
  by (simp add: b58_loop.simps)

lemma b58_loop_step:
  "n \<noteq> 0 \<Longrightarrow> b58_loop n [] = b58_alphabet ! (n mod 58) # b58_loop (n div 58) []"
  by (subst b58_loop.simps) (simp add: b58_loop_acc [of _ "[_]"])

lemma b58_value_loop: "b58_value 0 (rev (b58_loop n [])) = Ok n"
proof (induction n rule: less_induct)
  case (less n)
  show ?case
  proof (cases "n = 0")
    case False
    then have "n div 58 < n" by simp
    with less.IH False show ?thesis
      by (simp add: b58_loop_step b58_value_append b58_index_nth)
  qed simp
qed

lemma b58_loop_last: "n \<noteq> 0 \<Longrightarrow> b58_loop n [] \<noteq> [] \<and> last (b58_loop n []) \<noteq> CHR ''1''"
proof (induction n rule: less_induct)
  case (less n)
  show ?case
  proof (cases "n div 58 = 0")
    case True
    with less.prems have "n < 58" by (simp add: div_eq_0_iff)
    with less.prems True show ?thesis by (simp add: b58_loop_step b58_nth_one)
  next
    case False
    moreover have "n div 58 < n" using less.prems by simp
    ultimately show ?thesis using less by (simp add: b58_loop_step)
  qed
qed

lemma length_b58_loop: "n < 58 ^ k \<Longrightarrow> length (b58_loop n []) \<le> k"
proof (induction k arbitrary: n)
  case (Suc k)
  show ?case
  proof (cases "n = 0")
    case False
    from Suc.prems have "n div 58 < 58 ^ k" by (simp add: less_mult_imp_div_less mult.commute)
    with Suc.IH False show ?thesis by (simp add: b58_loop_step)
  qed simp
qed simp

lemma count_pad_replicate:
  "(xs \<noteq> [] \<Longrightarrow> hd xs \<noteq> z) \<Longrightarrow> count_pad z (replicate k z @ xs) = k"
  by (induction k) (cases xs; auto)+

lemma count_pad_split:
  "\<exists>body. xs = replicate (count_pad z xs) z @ body \<and> (body \<noteq> [] \<longrightarrow> hd body \<noteq> z)"
  by (induction xs) auto

lemma int_from_bytes_pad: "int_from_bytes (replicate k 0 @ bs) = int_from_bytes bs"
  by (induction k) (simp_all add: int_from_bytes_Cons)

lemma b58_value_pad: "b58_value 0 (replicate k (CHR ''1'') @ s) = b58_value 0 s"
  by (induction k) (simp_all add: b58_index_one)

section \<open>Round trip\<close>

text \<open>The encoding of a byte string split at its first non-zero byte.\<close>

lemma b58encode_split:
  assumes "data = replicate k 0 @ body" and "body \<noteq> [] \<longrightarrow> hd body \<noteq> 0"
  shows "b58encode data =
    replicate k (CHR ''1'') @ rev (b58_loop (int_from_bytes body) [])"
  using assms by (simp add: b58encode_def Let_def int_from_bytes_pad count_pad_replicate)

lemma b58_roundtrip: "b58decode (b58encode data) = Ok data"
proof -
  obtain k body where data: "data = replicate k 0 @ body"
    and hd: "body \<noteq> [] \<longrightarrow> hd body \<noteq> 0"
    using count_pad_split [of data 0] by blast
  let ?n = "int_from_bytes body"
  note enc = b58encode_split [OF data hd]
  have val: "b58_value 0 (b58encode data) = Ok ?n"
    by (simp add: enc b58_value_pad b58_value_loop)
  have nz: "?n = 0 \<longleftrightarrow> body = []"
    using hd int_from_bytes_pos [of body] by (cases "body = []") auto
  have pad: "count_pad (CHR ''1'') (b58encode data) = k"
    unfolding enc
    by (rule count_pad_replicate)
      (use b58_loop_last [of ?n] in \<open>cases "?n = 0"; auto simp: hd_rev\<close>)
  show ?thesis
  proof (cases "body = []")
    case True
    with val pad data show ?thesis by (simp add: b58decode_def)
  next
    case False
    with val pad data nz hd show ?thesis
      by (simp add: b58decode_def bit_length_bytes int_to_from_bytes)
  qed
qed

lemma b58_value_is_ok: "is_ok (b58_value n s) \<longleftrightarrow> set s \<subseteq> set b58_alphabet"
  by (induction s arbitrary: n) (auto split: option.splits simp: b58_index_None, metis b58_index_None option.distinct(1))

lemma is_ok_bind_Ok: "(\<And>x. is_ok (f x)) \<Longrightarrow> is_ok (bind_res r f) = is_ok r"
  by (cases r) auto

lemma b58decode_is_ok: "is_ok (b58decode text) \<longleftrightarrow> set text \<subseteq> set b58_alphabet"
  by (simp add: b58decode_def is_ok_bind_Ok Let_def b58_value_is_ok)

lemma length_b58encode_key:
  assumes "length data = 32"
  shows "length (b58encode data) < 64"
proof -
  obtain k body where data: "data = replicate k 0 @ body"
    and hd: "body \<noteq> [] \<longrightarrow> hd body \<noteq> 0"
    using count_pad_split [of data 0] by blast
  let ?n = "int_from_bytes body" and ?L = "length body"
  have len: "length (b58encode data) = k + length (b58_loop ?n [])"
    by (simp add: b58encode_split [OF data hd])
  have kL: "k + ?L = 32" using assms data by simp
  show ?thesis
  proof (cases "k = 0")
    case True
    have "?n < 256 ^ 32" using int_from_bytes_less [of body] kL True by simp
    also have "(256 :: nat) ^ 32 < 58 ^ 55" by simp
    finally have "length (b58_loop ?n []) \<le> 55" by (rule length_b58_loop)
    with len True show ?thesis by simp
  next
    case False
    have "(256 :: nat) ^ ?L \<le> (58 ^ 2) ^ ?L" by (rule power_mono) simp_all
    then have "(256 :: nat) ^ ?L \<le> 58 ^ (2 * ?L)" by (simp add: power_mult)
    with int_from_bytes_less [of body] have "?n < 58 ^ (2 * ?L)" by linarith
    then have "length (b58_loop ?n []) \<le> 2 * ?L" by (rule length_b58_loop)
    with len kL False show ?thesis by simp
  qed
qed

interpretation b58: codec b58encode b58decode "\<lambda>_. True"
  by unfold_locales (simp add: b58_roundtrip)

section \<open>Properties\<close>

text \<open>
  C24: decoding the encoding of any byte string returns it, leading zero bytes included; a text
  decodes exactly when all its characters are in the alphabet.
\<close>

theorem base58_roundtrip:
  "b58decode (b58encode data) = Ok data \<and> (is_ok (b58decode s) \<longleftrightarrow> set s \<subseteq> set b58_alphabet)"
  by (simp add: b58_roundtrip b58decode_is_ok)

end
