(* ===== verification/PyText.thy ===== *)
theory PyText
  imports Prelude
begin

text \<open>
  The text primitives of Python's standard library that the client calls: hexadecimal
  and decimal conversion, \<open>strip\<close>, \<open>split\<close>, \<open>join\<close>, \<open>startswith\<close>, and the
  purely textual part of \<open>os.path\<close>.
\<close>

section \<open>Hexadecimal\<close>

definition hex_digits :: string where
  "hex_digits = ''0123456789abcdef''"

definition hex_digit :: "nat \<Rightarrow> char" where
  "hex_digit n = hex_digits ! n"

definition hex_val :: "char \<Rightarrow> nat option" where
  "hex_val c = map_of (zip ''0123456789abcdefABCDEF'' [0,1,2,3,4,5,6,7,8,9,10,11,12,13,14,15,10,11,12,13,14,15]) c"

text \<open>\<open>bytes.hex()\<close>\<close>

definition bytes_hex :: "bytes \<Rightarrow> string" where
  "bytes_hex bs = concat (map (\<lambda>b. [hex_digit (unat b div 16), hex_digit (unat b mod 16)]) bs)"

definition is_ascii_space :: "char \<Rightarrow> bool" where
  "is_ascii_space c \<longleftrightarrow> c \<in> {CHR '' '', CHR 0x09, CHR 0x0A, CHR 0x0B, CHR 0x0C, CHR 0x0D}"

text \<open>\<open>bytes.fromhex\<close>: pairs of digits, ASCII white space allowed between pairs.\<close>

fun fromhex :: "string \<Rightarrow> bytes res" where
  "fromhex [] = Ok []"
| "fromhex [c] =
     (if is_ascii_space c then Ok [] else Err (ValueError ''non-hexadecimal number found in fromhex() arg''))"
| "fromhex (c # d # r) =
     (if is_ascii_space c then fromhex (d # r)
      else case (hex_val c, hex_val d) of
        (Some h, Some l) \<Rightarrow> bind_res (fromhex r) (\<lambda>bs. Ok (of_nat (16 * h + l) # bs))
      | _ \<Rightarrow> Err (ValueError ''non-hexadecimal number found in fromhex() arg''))"

lemma hex_val_digit: "n < 16 \<Longrightarrow> hex_val (hex_digit n) = Some n"
proof -
  have "\<forall>n \<in> set [0..<16]. hex_val (hex_digit n) = Some n"
    by (simp add: hex_val_def hex_digit_def hex_digits_def upt_rec)
  then show "n < 16 \<Longrightarrow> ?thesis" by simp
qed

lemma hex_digit_range: "n < 16 \<Longrightarrow> hex_digit n \<in> set hex_digits"
  unfolding hex_digit_def by (rule nth_mem) (simp add: hex_digits_def)

lemma hex_digit_not_space: "n < 16 \<Longrightarrow> \<not> is_ascii_space (hex_digit n)"
  using hex_digit_range [of n] by (auto simp: hex_digits_def is_ascii_space_def)

lemma hex_word: "of_nat (16 * (unat b div 16) + unat b mod 16) = (b :: 8 word)"
  by (simp only: mult_div_mod_eq) simp

lemma unat_nibbles: "unat (b :: 8 word) div 16 < 16" "unat (b :: 8 word) mod 16 < 16"
  using unsigned_less [of b] by (auto intro: less_mult_imp_div_less)

lemma fromhex_hex: "fromhex (bytes_hex bs) = Ok bs"
proof (induction bs)
  case (Cons b bs)
  have "fromhex (bytes_hex (b # bs)) = fromhex (hex_digit (unat b div 16) # hex_digit (unat b mod 16) # bytes_hex bs)"
    by (simp add: bytes_hex_def)
  also have "\<dots> = Ok (of_nat (16 * (unat b div 16) + unat b mod 16) # bs)"
    using Cons unat_nibbles [of b] by (simp add: hex_digit_not_space hex_val_digit del: of_nat_add of_nat_mult)
  finally show ?case by (simp only: hex_word)
qed (simp add: bytes_hex_def)

interpretation hex: codec bytes_hex fromhex "\<lambda>_. True"
  by unfold_locales (simp add: fromhex_hex)

lemma length_bytes_hex [simp]: "length (bytes_hex bs) = 2 * length bs"
  by (induction bs) (simp_all add: bytes_hex_def)

lemma bytes_hex_chars: "set (bytes_hex bs) \<subseteq> set hex_digits"
  using unat_nibbles by (fastforce simp: bytes_hex_def intro: hex_digit_range)

lemma length_fromhex: "fromhex s = Ok bs \<Longrightarrow> 2 * length bs \<le> length s"
proof (induction s arbitrary: bs rule: fromhex.induct)
  case (3 c d r)
  show ?case
  proof (cases "is_ascii_space c")
    case True
    with 3 show ?thesis by force
  next
    case False
    with "3.prems" obtain h l cs where "hex_val c = Some h" "hex_val d = Some l"
      "fromhex r = Ok cs" "bs = of_nat (16 * h + l) # cs"
      by (cases "fromhex r") (auto split: option.splits)
    with "3.IH"(2) [OF False] show ?thesis by simp
  qed
qed (auto split: if_splits)

section \<open>Decimal\<close>

fun nat_digits :: "nat \<Rightarrow> string" where
  "nat_digits n = (if n < 10 then [hex_digit n] else nat_digits (n div 10) @ [hex_digit (n mod 10)])"

declare nat_digits.simps [simp del]

text \<open>\<open>str(n)\<close> of a Python integer.\<close>

definition int_str :: "int \<Rightarrow> string" where
  "int_str i = (if i < 0 then CHR ''-'' # nat_digits (nat (- i)) else nat_digits (nat i))"

definition decimal_digits :: string where
  "decimal_digits = ''0123456789''"

fun digits_val :: "nat \<Rightarrow> string \<Rightarrow> nat" where
  "digits_val n [] = n"
| "digits_val n (c # cs) = digits_val (10 * n + the (hex_val c)) cs"

lemma hex_digit_decimal: "n < 10 \<Longrightarrow> hex_digit n \<in> set decimal_digits"
proof -
  have "\<forall>n \<in> set [0..<10]. hex_digit n \<in> set decimal_digits"
    by (simp add: hex_digit_def hex_digits_def decimal_digits_def upt_rec)
  then show "n < 10 \<Longrightarrow> ?thesis" by simp
qed

lemma nat_digits_chars: "set (nat_digits n) \<subseteq> set decimal_digits"
proof (induction n rule: nat_digits.induct)
  case (1 n)
  then show ?case
    by (subst nat_digits.simps) (auto simp: hex_digit_decimal)
qed

lemma nat_digits_nonempty [simp]: "nat_digits n \<noteq> []"
  by (subst nat_digits.simps) simp

lemma digits_val_append: "digits_val n (s @ t) = digits_val (digits_val n s) t"
  by (induction s arbitrary: n) auto

lemma digits_val_nat: "digits_val 0 (nat_digits n) = n"
proof (induction n rule: nat_digits.induct)
  case (1 n)
  then show ?case
    by (subst nat_digits.simps) (auto simp: digits_val_append hex_val_digit)
qed

lemma nat_digits_inj: "nat_digits m = nat_digits n \<longleftrightarrow> m = n"
  by (metis digits_val_nat)

lemma int_str_chars: "set (int_str i) \<subseteq> insert (CHR ''-'') (set decimal_digits)"
  using nat_digits_chars by (auto simp: int_str_def)

lemma minus_not_digit: "CHR ''-'' \<notin> set (nat_digits n)"
  using nat_digits_chars [of n] by (auto simp: decimal_digits_def)

lemma int_str_inj: "int_str i = int_str j \<longleftrightarrow> i = j"
proof
  assume eq: "int_str i = int_str j"
  have "nat_digits n \<noteq> CHR ''-'' # s" for n s
    using minus_not_digit [of n] by auto
  with eq show "i = j"
    by (auto simp: int_str_def nat_digits_inj split: if_splits) metis+
qed simp

lemma int_str_nonempty [simp]: "int_str i \<noteq> []"
  by (simp add: int_str_def)

section \<open>Splitting and joining\<close>

fun py_split :: "char \<Rightarrow> string \<Rightarrow> string list" where
  "py_split c [] = [[]]"
| "py_split c (x # xs) =
     (if x = c then [] # py_split c xs
      else case py_split c xs of [] \<Rightarrow> [[x]] | p # ps \<Rightarrow> (x # p) # ps)"

fun py_join :: "string \<Rightarrow> string list \<Rightarrow> string" where
  "py_join sep [] = []"
| "py_join sep [s] = s"
| "py_join sep (s # t # ss) = s @ sep @ py_join sep (t # ss)"

lemma py_split_nonempty [simp]: "py_split c s \<noteq> []"
  by (induction s) (auto split: list.splits)

lemma py_split_plain: "c \<notin> set s \<Longrightarrow> py_split c s = [s]"
  by (induction s) auto

lemma py_split_append: "c \<notin> set s \<Longrightarrow> py_split c (s @ c # t) = s # py_split c t"
  by (induction s) auto

lemma length_py_split: "length (py_split c s) = Suc (count_list s c)"
proof (induction s)
  case (Cons x s)
  then show ?case by (cases "py_split c s") auto
qed simp

section \<open>Stripping\<close>

text \<open>The white-space characters of \<open>str.strip()\<close>, as UTF-8 sequences.\<close>

definition py_spaces :: "string list" where
  "py_spaces =
     [[CHR '' ''], [CHR 0x09], [CHR 0x0A], [CHR 0x0B], [CHR 0x0C], [CHR 0x0D],
      [CHR 0x1C], [CHR 0x1D], [CHR 0x1E], [CHR 0x1F],
      [CHR 0xC2, CHR 0x85], [CHR 0xC2, CHR 0xA0], [CHR 0xE1, CHR 0x9A, CHR 0x80],
      [CHR 0xE2, CHR 0x80, CHR 0x80], [CHR 0xE2, CHR 0x80, CHR 0x81],
      [CHR 0xE2, CHR 0x80, CHR 0x82], [CHR 0xE2, CHR 0x80, CHR 0x83],
      [CHR 0xE2, CHR 0x80, CHR 0x84], [CHR 0xE2, CHR 0x80, CHR 0x85],
      [CHR 0xE2, CHR 0x80, CHR 0x86], [CHR 0xE2, CHR 0x80, CHR 0x87],
      [CHR 0xE2, CHR 0x80, CHR 0x88], [CHR 0xE2, CHR 0x80, CHR 0x89],
      [CHR 0xE2, CHR 0x80, CHR 0x8A], [CHR 0xE2, CHR 0x80, CHR 0xA8],
      [CHR 0xE2, CHR 0x80, CHR 0xA9], [CHR 0xE2, CHR 0x80, CHR 0xAF],
      [CHR 0xE2, CHR 0x81, CHR 0x9F], [CHR 0xE3, CHR 0x80, CHR 0x80]]"

definition strip_one :: "string list \<Rightarrow> string \<Rightarrow> string option" where
  "strip_one ws s =
     (case find (\<lambda>w. w \<noteq> [] \<and> prefix w s) ws of None \<Rightarrow> None | Some w \<Rightarrow> Some (drop (length w) s))"

lemma strip_one_shorter: "strip_one ws s = Some t \<Longrightarrow> length t < length s"
  by (auto simp: strip_one_def find_Some_iff prefix_def split: option.splits)

function lstrip_by :: "string list \<Rightarrow> string \<Rightarrow> string" where
  "lstrip_by ws s = (case strip_one ws s of None \<Rightarrow> s | Some t \<Rightarrow> lstrip_by ws t)"
  by pat_completeness auto
termination
  by (relation "measure (\<lambda>(ws, s). length s)") (auto dest: strip_one_shorter)

declare lstrip_by.simps [simp del]

definition py_lstrip :: "string \<Rightarrow> string" where
  "py_lstrip s = lstrip_by py_spaces s"

definition py_rstrip :: "string \<Rightarrow> string" where
  "py_rstrip s = rev (lstrip_by (map rev py_spaces) (rev s))"

definition py_strip :: "string \<Rightarrow> string" where
  "py_strip s = py_rstrip (py_lstrip s)"

lemma length_lstrip_by: "length (lstrip_by ws s) \<le> length s"
proof (induction ws s rule: lstrip_by.induct)
  case (1 ws s)
  show ?case
  proof (cases "strip_one ws s")
    case (Some t)
    with "1.IH" [OF Some] strip_one_shorter [OF Some] show ?thesis
      by (simp add: lstrip_by.simps [of ws s])
  qed (simp add: lstrip_by.simps)
qed

lemma lstrip_by_fixed: "lstrip_by ws s = s \<longleftrightarrow> strip_one ws s = None"
proof (cases "strip_one ws s")
  case (Some t)
  then have "lstrip_by ws s = lstrip_by ws t" by (simp add: lstrip_by.simps [of ws s])
  with length_lstrip_by [of ws t] strip_one_shorter [OF Some] Some show ?thesis by auto
qed (simp add: lstrip_by.simps)

lemma strip_one_None: "strip_one ws s = None \<longleftrightarrow> (\<forall>w \<in> set ws. w \<noteq> [] \<longrightarrow> \<not> prefix w s)"
  by (simp add: strip_one_def find_None_iff split: option.split) (auto simp: find_Some_iff)

lemma py_lstrip_Cons: "(\<And>w. w \<in> set py_spaces \<Longrightarrow> hd w \<noteq> c) \<Longrightarrow> py_lstrip (c # s) = c # s"
  unfolding py_lstrip_def lstrip_by_fixed strip_one_None
  by (metis list.sel(1) neq_Nil_conv prefix_Cons)

text \<open>
  A text in front of a non-empty suffix that \<open>rstrip\<close> leaves alone is left alone,
  provided no white-space character straddles the boundary, which the ASCII character
  in front of the suffix rules out.
\<close>

lemma ascii_boundary:
  assumes w: "w \<in> set py_spaces" and pre: "prefix (rev w) (rev s @ c # t)"
    and c: "c = CHR '':''"
  shows "prefix (rev w) (rev s)"
proof (rule ccontr)
  assume "\<not> prefix (rev w) (rev s)"
  with pre obtain zs where "rev w = rev s @ c # zs"
    by (auto simp: prefix_append prefix_Cons)
  then have "c \<in> set (rev w)" by simp
  with w c show False by (auto simp: py_spaces_def)
qed

lemma py_rstrip_append:
  assumes "py_rstrip s = s"
  shows "py_rstrip (t @ CHR '':'' # s) = t @ CHR '':'' # s"
proof -
  from assms have "lstrip_by (map rev py_spaces) (rev s) = rev s"
    by (metis py_rstrip_def rev_rev_ident)
  then have no: "\<forall>w \<in> set py_spaces. w \<noteq> [] \<longrightarrow> \<not> prefix (rev w) (rev s)"
    by (simp add: lstrip_by_fixed strip_one_None)
  have "lstrip_by (map rev py_spaces) (rev (t @ CHR '':'' # s)) = rev (t @ CHR '':'' # s)"
    unfolding lstrip_by_fixed strip_one_None
  proof (intro ballI impI notI)
    fix v assume v: "v \<in> set (map rev py_spaces)" "v \<noteq> []"
      and pre: "prefix v (rev (t @ CHR '':'' # s))"
    then obtain w where w: "w \<in> set py_spaces" "v = rev w" "w \<noteq> []" by auto
    with pre ascii_boundary [of w s "CHR '':''" "rev t"] have "prefix (rev w) (rev s)" by simp
    with no w show False by blast
  qed
  then show ?thesis by (simp add: py_rstrip_def)
qed

lemma strip_none: "(\<And>w. w \<in> set ws \<Longrightarrow> w \<noteq> [] \<Longrightarrow> hd w \<notin> set s) \<Longrightarrow> lstrip_by ws s = s"
  unfolding lstrip_by_fixed strip_one_None by (metis append_is_Nil_conv hd_append2 hd_in_set prefix_def)

lemma spaces_no_digit:
  assumes "w \<in> set py_spaces" "c \<in> set w"
  shows "c \<notin> set decimal_digits"
proof -
  have "list_all (\<lambda>w. list_all (\<lambda>c. c \<notin> set decimal_digits) w) py_spaces" by code_simp
  with assms show ?thesis by (auto simp: list_all_iff)
qed

lemma py_strip_digits: "set s \<subseteq> set decimal_digits \<Longrightarrow> py_strip s = s"
proof -
  assume s: "set s \<subseteq> set decimal_digits"
  then have "py_lstrip s = s"
    unfolding py_lstrip_def by (intro strip_none) (metis spaces_no_digit hd_in_set subsetD)
  moreover have "lstrip_by (map rev py_spaces) (rev s) = rev s"
  proof (rule strip_none)
    fix w assume "w \<in> set (map rev py_spaces)" "w \<noteq> []"
    then obtain v where "v \<in> set py_spaces" "hd w \<in> set v" by (metis hd_in_set imageE list.set_map set_rev)
    with s show "hd w \<notin> set (rev s)" using spaces_no_digit [of v "hd w"] by auto
  qed
  ultimately show ?thesis by (simp add: py_strip_def py_rstrip_def)
qed

section \<open>Paths\<close>

text \<open>\<open>os.path.join\<close> of two components: an absolute second component discards the first.\<close>

definition path_join :: "string \<Rightarrow> string \<Rightarrow> string" where
  "path_join a b =
     (if b \<noteq> [] \<and> hd b = CHR ''/'' then b
      else if a = [] \<or> last a = CHR ''/'' then a @ b
      else a @ CHR ''/'' # b)"

definition path_basename :: "string \<Rightarrow> string" where
  "path_basename p = last (py_split (CHR ''/'') p)"

lemma path_join_relative:
  "a \<noteq> [] \<Longrightarrow> last a \<noteq> CHR ''/'' \<Longrightarrow> b = [] \<or> hd b \<noteq> CHR ''/'' \<Longrightarrow> path_join a b = a @ CHR ''/'' # b"
  by (auto simp: path_join_def)

lemma path_join_absolute: "b \<noteq> [] \<Longrightarrow> hd b = CHR ''/'' \<Longrightarrow> path_join a b = b"
  by (simp add: path_join_def)

end
