(* ===== verification/Base64.thy ===== *)
theory Base64
  imports PyText
begin

text \<open>
  Python's \<open>base64.b64encode(data).decode()\<close> and \<open>base64.b64decode(text)\<close>, which wrap
  every binary field of the wire format and of the client's files. The decoder is the
  non-strict scanner of the standard library: it skips characters outside the alphabet,
  stops at a complete padding and raises when the data ends in the middle of a group.
\<close>

section \<open>Model\<close>

definition b64_alphabet :: string where
  "b64_alphabet = ''ABCDEFGHIJKLMNOPQRSTUVWXYZabcdefghijklmnopqrstuvwxyz0123456789+/''"

definition b64_char :: "nat \<Rightarrow> char" where
  "b64_char n = b64_alphabet ! n"

definition b64_val :: "char \<Rightarrow> nat option" where
  "b64_val = map_of (zip b64_alphabet [0..<length b64_alphabet])"

fun b64encode :: "bytes \<Rightarrow> string" where
  "b64encode [] = []"
| "b64encode [a] =
     [b64_char (unat a div 4), b64_char (unat a mod 4 * 16), CHR ''='', CHR ''='']"
| "b64encode [a, b] =
     [b64_char (unat a div 4), b64_char (unat a mod 4 * 16 + unat b div 16),
      b64_char (unat b mod 16 * 4), CHR ''='']"
| "b64encode (a # b # c # r) =
     [b64_char (unat a div 4), b64_char (unat a mod 4 * 16 + unat b div 16),
      b64_char (unat b mod 16 * 4 + unat c div 64), b64_char (unat c mod 64)] @ b64encode r"

text \<open>
  The scanner: position in the group of four, left-over bits, pads seen, output so far.
\<close>

fun b64_scan :: "nat \<Rightarrow> nat \<Rightarrow> nat \<Rightarrow> bytes \<Rightarrow> string \<Rightarrow> bytes res" where
  "b64_scan q l p acc [] =
     (if q = 0 then Ok acc else Err (ValueError ''Incorrect padding''))"
| "b64_scan q l p acc (ch # s) =
     (if ch = CHR ''='' then
        (if 2 \<le> q then
           (if 4 \<le> q + Suc p then Ok acc else b64_scan q l (Suc p) acc s)
         else b64_scan q l p acc s)
      else case b64_val ch of
        None \<Rightarrow> b64_scan q l p acc s
      | Some v \<Rightarrow>
          (if q = 0 then b64_scan 1 v 0 acc s
           else if q = 1 then b64_scan 2 (v mod 16) 0 (acc @ [of_nat (l * 4 + v div 16)]) s
           else if q = 2 then b64_scan 3 (v mod 4) 0 (acc @ [of_nat (l * 16 + v div 4)]) s
           else b64_scan 0 0 0 (acc @ [of_nat (l * 64 + v)]) s))"

definition b64decode :: "string \<Rightarrow> bytes res" where
  "b64decode s =
     (if list_all (\<lambda>c. of_char c < (128 :: nat)) s then b64_scan 0 0 0 [] s
      else Err (ValueError ''string argument should contain only ASCII characters''))"

section \<open>Round trip\<close>

lemma length_b64_alphabet [simp]: "length b64_alphabet = 64"
  by (simp add: b64_alphabet_def)

lemma b64_val_char: "n < 64 \<Longrightarrow> b64_val (b64_char n) = Some n"
proof -
  assume n: "n < 64"
  then have "(b64_char n, n) \<in> set (zip b64_alphabet [0..<64])"
    by (auto simp: set_zip b64_char_def intro!: exI [of _ n])
  moreover have "distinct b64_alphabet" by (simp add: b64_alphabet_def)
  then have "distinct (map fst (zip b64_alphabet [0..<64]))" by simp
  ultimately show ?thesis by (simp add: b64_val_def)
qed

lemma b64_char_mem: "n < 64 \<Longrightarrow> b64_char n \<in> set b64_alphabet"
  by (simp add: b64_char_def)

lemma b64_char_not_pad: "n < 64 \<Longrightarrow> b64_char n \<noteq> CHR ''=''"
  using b64_char_mem [of n] by (auto simp: b64_alphabet_def)

lemma b64_char_ascii: "n < 64 \<Longrightarrow> of_char (b64_char n) < (128 :: nat)"
proof -
  have "list_all (\<lambda>c. of_char c < (128 :: nat)) b64_alphabet"
    by (simp add: b64_alphabet_def)
  then show "n < 64 \<Longrightarrow> ?thesis" using b64_char_mem by (auto simp: list_all_iff)
qed

lemma sextets:
  fixes a b c :: "8 word"
  shows "unat a div 4 < 64" "unat a mod 4 * 16 < 64" "unat a mod 4 * 16 + unat b div 16 < 64"
    "unat b mod 16 * 4 < 64" "unat b mod 16 * 4 + unat c div 64 < 64" "unat c mod 64 < 64"
  using unat_byte_less [of a] unat_byte_less [of b] unat_byte_less [of c] by simp_all

lemma sextet_parts:
  fixes b :: "8 word"
  shows "unat b div 16 div 16 = 0" "unat b div 16 mod 16 = unat b div 16"
    "unat b div 64 div 4 = 0" "unat b div 64 mod 4 = unat b div 64"
  using unat_byte_less [of b] by simp_all

lemma b64_scan_encode: "b64_scan 0 l p acc (b64encode bs) = Ok (acc @ bs)"
  by (induction bs arbitrary: l p acc rule: b64encode.induct)
    (simp_all add: b64_val_char b64_char_not_pad sextets sextet_parts del: of_nat_add of_nat_mult)

lemma b64encode_ascii: "list_all (\<lambda>c. of_char c < (128 :: nat)) (b64encode bs)"
  by (induction bs rule: b64encode.induct) (simp_all add: b64_char_ascii sextets)

lemma b64decode_encode: "b64decode (b64encode bs) = Ok bs"
  by (simp add: b64decode_def b64encode_ascii b64_scan_encode)

interpretation b64: codec b64encode b64decode "\<lambda>_. True"
  by unfold_locales (simp add: b64decode_encode)

text \<open>A decoding failure is always a \<open>ValueError\<close> (\<open>binascii.Error\<close> is a subclass).\<close>

lemma b64_scan_error: "b64_scan q l p acc s = Err e \<Longrightarrow> is_ValueError e"
  by (induction q l p acc s rule: b64_scan.induct) (auto split: if_splits option.splits)

lemma b64decode_error: "b64decode s = Err e \<Longrightarrow> is_ValueError e"
  by (auto simp: b64decode_def split: if_splits dest: b64_scan_error)

end
