(* ===== verification/Json.thy ===== *)
theory Json
  imports PyText
begin

text \<open>
  The part of Python's \<open>json\<close> module the client uses: \<open>json.dumps\<close> (with the default
  separators, and with \<open>indent=2\<close>; \<open>sort_keys\<close>; \<open>ensure_ascii\<close> escapes) and
  \<open>json.loads\<close>. A float literal is kept as its text: the client never writes one, but
  a peer may send one.

  The main result is the round trip: \<open>loads\<close> recovers every value that \<open>dumps\<close>
  prints, in both layouts, provided dictionary keys are distinct and texts are well-formed
  Unicode.
\<close>

section \<open>Unicode\<close>

text \<open>One code point as UTF-8, and the code points of a UTF-8 text.\<close>

definition utf8_cp :: "nat \<Rightarrow> string" where
  "utf8_cp n =
     (if n < 128 then [char_of n]
      else if n < 2048 then [char_of (192 + n div 64), char_of (128 + n mod 64)]
      else if n < 65536 then
        [char_of (224 + n div 4096), char_of (128 + n div 64 mod 64), char_of (128 + n mod 64)]
      else
        [char_of (240 + n div 262144), char_of (128 + n div 4096 mod 64),
         char_of (128 + n div 64 mod 64), char_of (128 + n mod 64)])"

fun utf8_cps :: "string \<Rightarrow> nat list" where
  "utf8_cps [] = []"
| "utf8_cps (a # r) =
     (if of_char a < (128 :: nat) then of_char a # utf8_cps r
      else if of_char a < (224 :: nat) then
        (case r of
           b # r' \<Rightarrow> ((of_char a - 192) * 64 + (of_char b - 128)) # utf8_cps r'
         | _ \<Rightarrow> [])
      else if of_char a < (240 :: nat) then
        (case r of
           b # c # r' \<Rightarrow>
             ((of_char a - 224) * 4096 + (of_char b - 128) * 64 + (of_char c - 128)) # utf8_cps r'
         | _ \<Rightarrow> [])
      else
        (case r of
           b # c # d # r' \<Rightarrow>
             ((of_char a - 240) * 262144 + (of_char b - 128) * 4096
               + (of_char c - 128) * 64 + (of_char d - 128)) # utf8_cps r'
         | _ \<Rightarrow> []))"

definition valid_cp :: "nat \<Rightarrow> bool" where
  "valid_cp n \<longleftrightarrow> n < 1114112 \<and> \<not> (55296 \<le> n \<and> n < 57344)"

text \<open>Well-formed text: the canonical encoding of Unicode scalar values.\<close>

definition valid_str :: "string \<Rightarrow> bool" where
  "valid_str s \<longleftrightarrow> list_all valid_cp (utf8_cps s) \<and> concat (map utf8_cp (utf8_cps s)) = s"

text \<open>\<open>bytes.decode("utf-8")\<close>: a \<open>UnicodeDecodeError\<close> is a \<open>ValueError\<close>.\<close>

definition decode_utf8 :: "bytes \<Rightarrow> string res" where
  "decode_utf8 bs =
     (if valid_str (bytes_text bs) then Ok (bytes_text bs)
      else Err (ValueError ''utf-8 codec can't decode bytes''))"

lemma decode_encode_utf8: "valid_str s \<Longrightarrow> decode_utf8 (encode_utf8 s) = Ok s"
  by (simp add: decode_utf8_def)

interpretation utf8: codec encode_utf8 decode_utf8 valid_str
  by unfold_locales (rule decode_encode_utf8)

section \<open>Values\<close>

datatype json =
    JNull
  | JBool bool
  | JInt int
  | JFloat string
  | JStr string
  | JArr "json list"
  | JObj "(string \<times> json) list"

lemma size_json_pair [termination_simp]:
  "(k, v) \<in> set kvs \<Longrightarrow> size v < Suc (size_list (size_prod (\<lambda>_. 0) size) kvs)"
  by (induction kvs) auto

section \<open>Printing\<close>

definition hex4 :: "nat \<Rightarrow> string" where
  "hex4 n = [hex_digit (n div 4096 mod 16), hex_digit (n div 256 mod 16),
             hex_digit (n div 16 mod 16), hex_digit (n mod 16)]"

definition json_u :: "nat \<Rightarrow> string" where
  "json_u n = CHR 0x5C # CHR ''u'' # hex4 n"

definition json_escape_cp :: "nat \<Rightarrow> string" where
  "json_escape_cp n =
     (if n = 34 then [CHR 0x5C, CHR 0x22]
      else if n = 92 then [CHR 0x5C, CHR 0x5C]
      else if n = 10 then [CHR 0x5C, CHR ''n'']
      else if n = 13 then [CHR 0x5C, CHR ''r'']
      else if n = 9 then [CHR 0x5C, CHR ''t'']
      else if n = 12 then [CHR 0x5C, CHR ''f'']
      else if n = 8 then [CHR 0x5C, CHR ''b'']
      else if 32 \<le> n \<and> n < 127 then [char_of n]
      else if n < 65536 then json_u n
      else json_u (55296 + (n - 65536) div 1024) @ json_u (56320 + (n - 65536) mod 1024))"

definition json_str :: "string \<Rightarrow> string" where
  "json_str s = CHR 0x22 # concat (map json_escape_cp (utf8_cps s)) @ [CHR 0x22]"

text \<open>Layout: with \<open>indent=2\<close> every item is on a line of its own.\<close>

definition json_nl :: "bool \<Rightarrow> nat \<Rightarrow> string" where
  "json_nl ind lvl = (if ind then CHR 0x0A # replicate (2 * lvl) (CHR '' '') else [])"

definition json_sep :: "bool \<Rightarrow> nat \<Rightarrow> string" where
  "json_sep ind lvl = CHR '','' # (if ind then json_nl ind lvl else '' '')"

fun json_print :: "bool \<Rightarrow> nat \<Rightarrow> json \<Rightarrow> string" where
  "json_print ind lvl JNull = ''null''"
| "json_print ind lvl (JBool b) = (if b then ''true'' else ''false'')"
| "json_print ind lvl (JInt i) = int_str i"
| "json_print ind lvl (JFloat s) = s"
| "json_print ind lvl (JStr s) = json_str s"
| "json_print ind lvl (JArr xs) =
     (if xs = [] then ''[]''
      else CHR ''['' # json_nl ind (Suc lvl)
        @ py_join (json_sep ind (Suc lvl)) (map (json_print ind (Suc lvl)) xs)
        @ json_nl ind lvl @ '']'')"
| "json_print ind lvl (JObj kvs) =
     (if kvs = [] then ''{}''
      else CHR ''{'' # json_nl ind (Suc lvl)
        @ py_join (json_sep ind (Suc lvl))
            (map (\<lambda>(k, v). json_str k @ '': '' @ json_print ind (Suc lvl) v) kvs)
        @ json_nl ind lvl @ ''}'')"

definition json_dumps :: "json \<Rightarrow> string" where
  "json_dumps v = json_print False 0 v"

definition json_dumps_indent :: "json \<Rightarrow> string" where
  "json_dumps_indent v = json_print True 0 v"

text \<open>\<open>sort_keys=True\<close> sorts the keys of every dictionary.\<close>

fun json_sort :: "json \<Rightarrow> json" where
  "json_sort (JArr xs) = JArr (map json_sort xs)"
| "json_sort (JObj kvs) = JObj (sort_key fst (map (\<lambda>(k, v). (k, json_sort v)) kvs))"
| "json_sort v = v"

definition json_dumps_sorted :: "json \<Rightarrow> string" where
  "json_dumps_sorted v = json_dumps (json_sort v)"

section \<open>Parsing\<close>

definition is_json_ws :: "char \<Rightarrow> bool" where
  "is_json_ws c \<longleftrightarrow> c \<in> {CHR '' '', CHR 0x09, CHR 0x0A, CHR 0x0D}"

definition skip_ws :: "string \<Rightarrow> string" where
  "skip_ws s = dropWhile is_json_ws s"

fun hex4_val :: "string \<Rightarrow> nat option" where
  "hex4_val (a # b # c # d # _) =
     (case (hex_val a, hex_val b, hex_val c, hex_val d) of
        (Some w, Some x, Some y, Some z) \<Rightarrow> Some (w * 4096 + x * 256 + y * 16 + z)
      | _ \<Rightarrow> None)"
| "hex4_val _ = None"

definition json_unescape :: "char \<Rightarrow> char option" where
  "json_unescape e = map_of
     [(CHR 0x22, CHR 0x22), (CHR 0x5C, CHR 0x5C), (CHR ''/'', CHR ''/''), (CHR ''b'', CHR 0x08),
      (CHR ''f'', CHR 0x0C), (CHR ''n'', CHR 0x0A), (CHR ''r'', CHR 0x0D), (CHR ''t'', CHR 0x09)] e"

function json_string :: "string \<Rightarrow> string \<Rightarrow> (string \<times> string) option" where
  "json_string acc s =
     (case s of
        [] \<Rightarrow> None
      | c # r \<Rightarrow>
          if c = CHR 0x22 then Some (acc, r)
          else if c = CHR 0x5C then
            (case r of
               [] \<Rightarrow> None
             | e # t \<Rightarrow>
                 if e = CHR ''u'' then
                   (case hex4_val t of
                      None \<Rightarrow> None
                    | Some n \<Rightarrow>
                        if 55296 \<le> n \<and> n < 56320 \<and> take 2 (drop 4 t) = [CHR 0x5C, CHR ''u''] then
                          (case hex4_val (drop 6 t) of
                             None \<Rightarrow> None
                           | Some m \<Rightarrow>
                               if 56320 \<le> m \<and> m < 57344 then
                                 json_string
                                   (acc @ utf8_cp (65536 + (n - 55296) * 1024 + (m - 56320)))
                                   (drop 10 t)
                               else json_string (acc @ utf8_cp n) (drop 4 t))
                        else json_string (acc @ utf8_cp n) (drop 4 t))
                 else
                   (case json_unescape e of
                      None \<Rightarrow> None
                    | Some u \<Rightarrow> json_string (acc @ [u]) t))
          else if of_char c < (32 :: nat) then None
          else json_string (acc @ [c]) r)"
  by pat_completeness auto
termination
  by (relation "measure (\<lambda>(acc, s). length s)") auto

declare json_string.simps [simp del]

definition is_digit :: "char \<Rightarrow> bool" where
  "is_digit c \<longleftrightarrow> c \<in> set decimal_digits"

text \<open>
  \<open>(-?(?:0|[1-9][0-9]*))(\.[0-9]+)?([eE][-+]?[0-9]+)?\<close>: the integer part, then an optional
  fraction and exponent.
\<close>

definition json_frac :: "string \<Rightarrow> string" where
  "json_frac s =
     (case s of
        c # r \<Rightarrow> if c = CHR ''.'' \<and> takeWhile is_digit r \<noteq> [] then c # takeWhile is_digit r else []
      | [] \<Rightarrow> [])"

definition json_exp :: "string \<Rightarrow> string" where
  "json_exp s =
     (case s of
        c # r \<Rightarrow>
          if c = CHR ''e'' \<or> c = CHR ''E'' then
            (let sg = (case r of d # _ \<Rightarrow> if d = CHR ''+'' \<or> d = CHR ''-'' then [d] else [] | [] \<Rightarrow> []);
                 ds = takeWhile is_digit (drop (length sg) r)
             in if ds \<noteq> [] then c # sg @ ds else [])
          else []
      | [] \<Rightarrow> [])"

definition json_int_part :: "string \<Rightarrow> string" where
  "json_int_part s =
     (case takeWhile is_digit s of
        [] \<Rightarrow> []
      | d # ds \<Rightarrow> if d = CHR ''0'' then [d] else d # ds)"

definition json_number :: "string \<Rightarrow> (json \<times> string) option" where
  "json_number s =
     (let neg = (s \<noteq> [] \<and> hd s = CHR ''-'');
          body = (if neg then tl s else s);
          ip = json_int_part body;
          r1 = drop (length ip) body;
          fr = json_frac r1;
          r2 = drop (length fr) r1;
          ex = json_exp r2;
          r3 = drop (length ex) r2
      in if ip = [] then None
         else if fr = [] \<and> ex = [] then
           Some (JInt (if neg then - int (digits_val 0 ip) else int (digits_val 0 ip)), r3)
         else Some (JFloat ((if neg then ''-'' else []) @ ip @ fr @ ex), r3))"

text \<open>Array items and object members, over the parser for one value.\<close>

fun json_elems ::
  "(string \<Rightarrow> (json \<times> string) option) \<Rightarrow> nat \<Rightarrow> string \<Rightarrow> (json list \<times> string) option" where
  "json_elems p 0 s = None"
| "json_elems p (Suc k) s =
     (case p s of
        None \<Rightarrow> None
      | Some (v, r) \<Rightarrow>
          (case skip_ws r of
             [] \<Rightarrow> None
           | c # t \<Rightarrow>
               if c = CHR '']'' then Some ([v], t)
               else if c = CHR '','' then
                 map_option (\<lambda>(vs, u). (v # vs, u)) (json_elems p k (skip_ws t))
               else None))"

fun json_members ::
  "(string \<Rightarrow> (json \<times> string) option) \<Rightarrow> nat \<Rightarrow> string \<Rightarrow> ((string \<times> json) list \<times> string) option"
where
  "json_members p 0 s = None"
| "json_members p (Suc k) s =
     (case s of
        [] \<Rightarrow> None
      | q # r \<Rightarrow>
          if q \<noteq> CHR 0x22 then None
          else case json_string [] r of
            None \<Rightarrow> None
          | Some (key, r1) \<Rightarrow>
              (case skip_ws r1 of
                 [] \<Rightarrow> None
               | c # r2 \<Rightarrow>
                   if c \<noteq> CHR '':'' then None
                   else case p (skip_ws r2) of
                     None \<Rightarrow> None
                   | Some (v, r3) \<Rightarrow>
                       (case skip_ws r3 of
                          [] \<Rightarrow> None
                        | d # t \<Rightarrow>
                            if d = CHR ''}'' then Some ([(key, v)], t)
                            else if d = CHR '','' then
                              map_option (\<lambda>(kvs, u). ((key, v) # kvs, u))
                                (json_members p k (skip_ws t))
                            else None)))"

text \<open>A repeated key keeps its first position and its last value, as \<open>dict(pairs)\<close> does.\<close>

definition dict_of_pairs :: "(string \<times> json) list \<Rightarrow> (string \<times> json) list" where
  "dict_of_pairs kvs = fold (\<lambda>(k, v). AList.update k v) kvs []"

fun json_value :: "nat \<Rightarrow> string \<Rightarrow> (json \<times> string) option" where
  "json_value 0 s = None"
| "json_value (Suc n) s =
     (case s of
        [] \<Rightarrow> None
      | c # r \<Rightarrow>
          if c = CHR 0x22 then map_option (\<lambda>(t, u). (JStr t, u)) (json_string [] r)
          else if c = CHR ''{'' then
            (case skip_ws r of
               [] \<Rightarrow> None
             | d # u \<Rightarrow>
                 if d = CHR ''}'' then Some (JObj [], u)
                 else map_option (\<lambda>(kvs, w). (JObj (dict_of_pairs kvs), w))
                        (json_members (json_value n) (length s) (d # u)))
          else if c = CHR ''['' then
            (case skip_ws r of
               [] \<Rightarrow> None
             | d # u \<Rightarrow>
                 if d = CHR '']'' then Some (JArr [], u)
                 else map_option (\<lambda>(vs, w). (JArr vs, w))
                        (json_elems (json_value n) (length s) (d # u)))
          else if prefix ''null'' s then Some (JNull, drop 4 s)
          else if prefix ''true'' s then Some (JBool True, drop 4 s)
          else if prefix ''false'' s then Some (JBool False, drop 5 s)
          else case json_number s of
            Some res \<Rightarrow> Some res
          | None \<Rightarrow>
              if prefix ''NaN'' s then Some (JFloat ''NaN'', drop 3 s)
              else if prefix ''Infinity'' s then Some (JFloat ''Infinity'', drop 8 s)
              else if prefix ''-Infinity'' s then Some (JFloat ''-Infinity'', drop 9 s)
              else None)"

text \<open>\<open>json.loads(text)\<close>; a \<open>JSONDecodeError\<close> is a \<open>ValueError\<close>.\<close>

definition json_loads :: "string \<Rightarrow> json res" where
  "json_loads s =
     (case json_value (Suc (length s)) (skip_ws s) of
        None \<Rightarrow> Err (ValueError ''Expecting value'')
      | Some (v, r) \<Rightarrow> if skip_ws r = [] then Ok v else Err (ValueError ''Extra data''))"

text \<open>\<open>json.loads(data)\<close> of a byte string decodes UTF-8 first.\<close>

definition json_loads_bytes :: "bytes \<Rightarrow> json res" where
  "json_loads_bytes bs = bind_res (decode_utf8 bs) json_loads"

text \<open>The values the client prints.\<close>

fun valid_json :: "json \<Rightarrow> bool" where
  "valid_json (JStr s) = valid_str s"
| "valid_json (JArr xs) = list_all valid_json xs"
| "valid_json (JObj kvs) =
     (distinct (map fst kvs) \<and> list_all (\<lambda>(k, v). valid_str k \<and> valid_json v) kvs)"
| "valid_json (JFloat _) = False"
| "valid_json _ = True"

section \<open>Access\<close>

text \<open>\<open>v.get(k)\<close>, \<open>k in v\<close> and \<open>v[k]\<close>; on a value that is not a dict the first raises.\<close>

fun json_get :: "json \<Rightarrow> string \<Rightarrow> json option res" where
  "json_get (JObj kvs) k = Ok (map_of kvs k)"
| "json_get v k = Err (AttributeError ''object has no attribute get'')"

fun json_item :: "json \<Rightarrow> string \<Rightarrow> json res" where
  "json_item (JObj kvs) k = (case map_of kvs k of None \<Rightarrow> Err (KeyError k) | Some v \<Rightarrow> Ok v)"
| "json_item v k = Err (TypeError ''indices must be integers'')"

fun json_truthy :: "json \<Rightarrow> bool" where
  "json_truthy JNull = False"
| "json_truthy (JBool b) = b"
| "json_truthy (JInt i) = (i \<noteq> 0)"
| "json_truthy (JFloat s) =
     (\<exists>c \<in> set (takeWhile (\<lambda>c. c \<noteq> CHR ''e'' \<and> c \<noteq> CHR ''E'') s).
        c \<notin> {CHR ''0'', CHR ''-'', CHR ''.''})"
| "json_truthy (JStr s) = (s \<noteq> [])"
| "json_truthy (JArr xs) = (xs \<noteq> [])"
| "json_truthy (JObj kvs) = (kvs \<noteq> [])"

section \<open>Unicode round trip\<close>

lemma div_radix: "n div (k * m) * (k * m) + n div k mod m * k = n div k * (k :: nat)"
proof -
  have "n div (k * m) * m + n div k mod m = n div k"
    by (simp add: div_mult2_eq)
  then have "(n div (k * m) * m + n div k mod m) * k = n div k * k" by simp
  then show ?thesis by (simp add: algebra_simps)
qed

lemma utf8_cps_cp: "n < 1114112 \<Longrightarrow> utf8_cps (utf8_cp n @ r) = n # utf8_cps r"
proof -
  assume n: "n < 1114112"
  consider "n < 128" | "128 \<le> n" "n < 2048" | "2048 \<le> n" "n < 65536" | "65536 \<le> n"
    by linarith
  then show ?thesis
  proof cases
    case 1
    then show ?thesis by (simp add: utf8_cp_def)
  next
    case 2
    then have "n div 64 < 32" by simp
    with 2 show ?thesis by (simp add: utf8_cp_def \<open>n div 64 < 32\<close>)
  next
    case 3
    then have d: "n div 4096 < 16" by simp
    have "n div 4096 * 4096 + n div 64 mod 64 * 64 = n div 64 * 64"
      using div_radix [of n 64 64] by simp
    then have "n div 4096 * 4096 + n div 64 mod 64 * 64 + n mod 64 = n"
      by (simp only: div_mult_mod_eq)
    with 3 d show ?thesis by (simp add: utf8_cp_def d)
  next
    case 4
    with n have d: "n div 262144 < 16" by simp
    have "n div 262144 * 262144 + n div 4096 mod 64 * 4096 = n div 4096 * 4096"
      "n div 4096 * 4096 + n div 64 mod 64 * 64 = n div 64 * 64"
      using div_radix [of n 4096 64] div_radix [of n 64 64] by simp_all
    then have "n div 262144 * 262144 + n div 4096 mod 64 * 4096 + n div 64 mod 64 * 64 + n mod 64 = n"
      by (simp only: div_mult_mod_eq)
    with 4 d show ?thesis by (simp add: utf8_cp_def d)
  qed
qed

lemma utf8_cps_concat: "list_all valid_cp cps \<Longrightarrow> utf8_cps (concat (map utf8_cp cps)) = cps"
  by (induction cps) (auto simp: valid_cp_def utf8_cps_cp)

lemma valid_str_cps:
  "valid_str s \<longleftrightarrow> (\<exists>cps. list_all valid_cp cps \<and> s = concat (map utf8_cp cps))"
  by (auto simp: valid_str_def utf8_cps_concat intro: exI [of _ "utf8_cps s"])

lemma valid_str_append: "valid_str s \<Longrightarrow> valid_str t \<Longrightarrow> valid_str (s @ t)"
  unfolding valid_str_cps by (metis concat_append list_all_append map_append)

lemma valid_str_ascii: "list_all (\<lambda>c. of_char c < (128 :: nat)) s \<Longrightarrow> valid_str s"
proof (induction s)
  case (Cons c s)
  then have "valid_str s" by simp
  moreover from Cons.prems have "[c] = utf8_cp (of_char c)" "valid_cp (of_char c)"
    by (simp_all add: utf8_cp_def valid_cp_def)
  then have "valid_str [c]"
    unfolding valid_str_cps by (intro exI [of _ "[of_char c]"]) simp
  ultimately have "valid_str ([c] @ s)" by (rule valid_str_append [rotated])
  then show ?case by simp
qed (simp add: valid_str_def)

section \<open>Strings\<close>

lemma hex4_val_hex4: "n < 65536 \<Longrightarrow> hex4_val (hex4 n @ r) = Some n"
proof -
  assume n: "n < 65536"
  then have m: "n div 4096 mod 16 = n div 4096" by simp
  moreover have "n div 4096 * 4096 + n div 256 mod 16 * 256 = n div 256 * 256"
    "n div 256 * 256 + n div 16 mod 16 * 16 = n div 16 * 16"
    using div_radix [of n 256 16] div_radix [of n 16 16] by simp_all
  ultimately have eq: "n div 4096 * 4096 + n div 256 mod 16 * 256 + n div 16 mod 16 * 16
      + n mod 16 = n"
    by (simp only: div_mult_mod_eq)
  have "n div 4096 < 16" using n by simp
  then show ?thesis by (simp add: hex4_def hex_val_digit m eq)
qed

lemma length_hex4 [simp]: "length (hex4 n) = 4"
  by (simp add: hex4_def)

lemma json_string_u:
  assumes "n < 65536" and "\<not> (55296 \<le> n \<and> n < 56320)"
  shows "json_string acc (json_u n @ r) = json_string (acc @ utf8_cp n) r"
  using assms by (subst json_string.simps) (auto simp: json_u_def hex4_val_hex4)

lemma json_string_pair:
  assumes "65536 \<le> n" and "n < 1114112"
  shows "json_string acc
      (json_u (55296 + (n - 65536) div 1024) @ json_u (56320 + (n - 65536) mod 1024) @ r)
    = json_string (acc @ utf8_cp n) r"
proof -
  let ?h = "55296 + (n - 65536) div 1024" and ?l = "56320 + (n - 65536) mod 1024"
  have h: "?h < 56320" and l: "?l < 57344" using assms by auto
  have "(n - 65536) div 1024 * 1024 + (n - 65536) mod 1024 = n - 65536" by simp
  then have n: "65536 + (?h - 55296) * 1024 + (?l - 56320) = n" using assms by simp
  have "hex4_val (hex4 ?h @ json_u ?l @ r) = Some ?h" "hex4_val (hex4 ?l @ r) = Some ?l"
    using h l by (simp_all add: hex4_val_hex4 del: add_mult_distrib)
  with h l n show ?thesis
    by (subst json_string.simps) (simp add: json_u_def)
qed

lemma json_string_plain:
  assumes "c \<noteq> CHR 0x22" and "c \<noteq> CHR 0x5C" and "32 \<le> (of_char c :: nat)"
  shows "json_string acc (c # r) = json_string (acc @ [c]) r"
  using assms by (subst json_string.simps) simp

lemma json_string_esc:
  assumes "json_unescape e = Some u" and "e \<noteq> CHR ''u''"
  shows "json_string acc (CHR 0x5C # e # r) = json_string (acc @ [u]) r"
  using assms by (subst json_string.simps) simp

lemma json_string_cp:
  assumes "valid_cp n"
  shows "json_string acc (json_escape_cp n @ r) = json_string (acc @ utf8_cp n) r"
proof -
  consider "n \<in> {34, 92, 10, 13, 9, 12, 8}" | "32 \<le> n" "n < 127" "n \<noteq> 34" "n \<noteq> 92"
    | "n < 65536" "\<not> (32 \<le> n \<and> n < 127)" "n \<notin> {10, 13, 9, 12, 8}" | "65536 \<le> n"
    by (cases "n < 65536"; cases "32 \<le> n \<and> n < 127"; force)
  then show ?thesis
  proof cases
    case 1
    have c: "char_of (34 :: nat) = CHR 0x22" "char_of (92 :: nat) = CHR 0x5C"
      "char_of (10 :: nat) = CHR 0x0A" "char_of (13 :: nat) = CHR 0x0D"
      "char_of (9 :: nat) = CHR 0x09" "char_of (12 :: nat) = CHR 0x0C"
      "char_of (8 :: nat) = CHR 0x08"
      by (simp_all flip: of_char_eq_iff [where 'a = nat])
    from 1 show ?thesis
      by (elim insertE emptyE)
        (simp_all add: json_escape_cp_def json_string_esc json_unescape_def utf8_cp_def c)
  next
    case 2
    then have "char_of n \<noteq> CHR 0x22" "char_of n \<noteq> CHR 0x5C"
      by (auto simp flip: of_char_eq_iff [where 'a = nat])
    with 2 show ?thesis
      by (simp add: json_escape_cp_def utf8_cp_def json_string_plain)
  next
    case 3
    then have "json_escape_cp n = json_u n" by (auto simp: json_escape_cp_def)
    moreover have "\<not> (55296 \<le> n \<and> n < 56320)" using assms by (auto simp: valid_cp_def)
    ultimately show ?thesis using json_string_u [OF 3(1), of acc r] by simp
  next
    case 4
    with assms show ?thesis
      by (simp add: json_escape_cp_def json_string_pair valid_cp_def)
  qed
qed

lemma json_string_cps:
  "list_all valid_cp cps \<Longrightarrow>
   json_string acc (concat (map json_escape_cp cps) @ CHR 0x22 # r)
     = Some (acc @ concat (map utf8_cp cps), r)"
proof (induction cps arbitrary: acc)
  case Nil
  then show ?case by (subst json_string.simps) simp
qed (simp add: json_string_cp)

lemma json_string_str:
  assumes "valid_str s"
  shows "\<exists>body. json_str s = CHR 0x22 # body \<and> (\<forall>r. json_string [] (body @ r) = Some (s, r))"
  using assms by (auto simp: json_str_def valid_str_def json_string_cps)

section \<open>Numbers\<close>

definition ends_value :: "string \<Rightarrow> bool" where
  "ends_value r \<longleftrightarrow> r = [] \<or> hd r \<in> {CHR '','', CHR '']'', CHR ''}'', CHR 0x0A}"

lemma takeWhile_digits:
  assumes "set ds \<subseteq> set decimal_digits" and "ends_value r"
  shows "takeWhile is_digit (ds @ r) = ds"
proof -
  have "takeWhile is_digit r = []"
    using assms(2) by (cases r) (auto simp: ends_value_def is_digit_def decimal_digits_def)
  then show ?thesis using assms(1) by (simp add: takeWhile_append is_digit_def subset_iff)
qed

lemma nat_digits_zero: "hd (nat_digits n) = CHR ''0'' \<Longrightarrow> nat_digits n = ''0''"
proof (induction n rule: nat_digits.induct)
  case (1 n)
  have zero: "k < 10 \<Longrightarrow> hex_digit k = CHR ''0'' \<Longrightarrow> k = 0" for k
    using hex_val_digit [of k] by (simp add: hex_val_def)
  have z: "nat_digits 0 = ''0''"
    by (subst nat_digits.simps) (simp add: hex_digit_def hex_digits_def)
  show ?case
  proof (cases "n < 10")
    case True
    with 1 zero [of n] z show ?thesis by (simp add: nat_digits.simps [of n])
  next
    case False
    with 1 have "nat_digits (n div 10) = ''0''" by (simp add: nat_digits.simps [of n])
    then have "n div 10 = 0" by (metis z nat_digits_inj)
    with False show ?thesis by simp
  qed
qed

lemma json_int_part_digits: "ends_value r \<Longrightarrow> json_int_part (nat_digits n @ r) = nat_digits n"
  using nat_digits_zero [of n]
  by (auto simp: json_int_part_def takeWhile_digits nat_digits_chars split: list.splits)

lemma ends_value_no_tail: "ends_value r \<Longrightarrow> json_frac r = [] \<and> json_exp r = []"
  by (cases r) (auto simp: ends_value_def json_frac_def json_exp_def)

lemma json_number_int: "ends_value r \<Longrightarrow> json_number (int_str i @ r) = Some (JInt i, r)"
proof -
  assume r: "ends_value r"
  have hd: "hd (nat_digits n @ r) \<noteq> CHR ''-''" for n
    using minus_not_digit [of n] by (cases "nat_digits n") auto
  show ?thesis
    using r hd by (auto simp: json_number_def int_str_def json_int_part_digits Let_def
        ends_value_no_tail digits_val_nat)
qed

section \<open>Values\<close>

lemma skip_ws_nl: "skip_ws (json_nl ind lvl @ s) = skip_ws s"
proof -
  have "dropWhile is_json_ws (replicate k (CHR '' '') @ s) = dropWhile is_json_ws s" for k
    by (induction k) (auto simp: is_json_ws_def)
  then show ?thesis by (simp add: skip_ws_def json_nl_def is_json_ws_def)
qed

lemma skip_ws_sep: "skip_ws (tl (json_sep ind lvl) @ s) = skip_ws s"
  using skip_ws_nl [of ind lvl s] by (auto simp: json_sep_def skip_ws_def is_json_ws_def)

lemma skip_ws_start: "s \<noteq> [] \<Longrightarrow> \<not> is_json_ws (hd s) \<Longrightarrow> skip_ws (s @ r) = s @ r"
  by (cases s) (simp_all add: skip_ws_def)

text \<open>The first character of a printed value is never white space, a bracket that closes or a comma.\<close>

definition value_start :: "char \<Rightarrow> bool" where
  "value_start c \<longleftrightarrow> \<not> is_json_ws c \<and> c \<notin> {CHR '','', CHR '']'', CHR ''}''}"

lemma digit_facts: "c \<in> set decimal_digits \<Longrightarrow>
    value_start c \<and> c \<noteq> CHR 0x22 \<and> c \<noteq> CHR ''{'' \<and> c \<noteq> CHR ''['' \<and> c \<noteq> CHR ''n'' \<and>
    c \<noteq> CHR ''t'' \<and> c \<noteq> CHR ''f''"
  by (auto simp: decimal_digits_def value_start_def is_json_ws_def)

lemma int_str_start:
  "\<exists>c s. int_str i = c # s \<and> value_start c \<and> c \<noteq> CHR 0x22 \<and> c \<noteq> CHR ''{'' \<and> c \<noteq> CHR ''['' \<and>
     c \<noteq> CHR ''n'' \<and> c \<noteq> CHR ''t'' \<and> c \<noteq> CHR ''f''"
proof (cases "i < 0")
  case True
  then show ?thesis by (simp add: int_str_def value_start_def is_json_ws_def)
next
  case False
  obtain c s where "nat_digits (nat i) = c # s" by (cases "nat_digits (nat i)") auto
  moreover from this have "c \<in> set decimal_digits" using nat_digits_chars [of "nat i"] by auto
  ultimately show ?thesis using False digit_facts [of c] by (simp add: int_str_def)
qed

lemma json_print_start:
  assumes "valid_json v"
  shows "\<exists>c s. json_print ind lvl v = c # s \<and> value_start c"
proof (cases v)
  case (JInt i)
  then show ?thesis using int_str_start [of i] by auto
qed (use assms in \<open>auto simp: value_start_def is_json_ws_def json_str_def\<close>)

lemma skip_ws_print:
  assumes "valid_json v"
  shows "skip_ws (json_print ind lvl v @ r) = json_print ind lvl v @ r"
  using json_print_start [OF assms, of ind lvl] by (auto simp: skip_ws_def value_start_def)

lemma ends_value_nl:
  "ends_value (json_nl ind lvl @ CHR '']'' # r)" "ends_value (json_nl ind lvl @ CHR ''}'' # r)"
  "ends_value (json_sep ind lvl @ s)"
  by (simp_all add: ends_value_def json_nl_def json_sep_def)

lemma json_sep_split: "json_sep ind lvl = CHR '','' # tl (json_sep ind lvl)"
  by (simp add: json_sep_def)

lemma json_elems_print:
  assumes "xs \<noteq> []" and "length xs \<le> k"
    and "\<And>x r. x \<in> set xs \<Longrightarrow> ends_value r \<Longrightarrow> p (json_print ind lvl x @ r) = Some (x, r)"
    and "list_all valid_json xs"
  shows "json_elems p k (py_join (json_sep ind lvl) (map (json_print ind lvl) xs)
      @ json_nl ind m @ CHR '']'' # r) = Some (xs, r)"
  using assms
proof (induction xs arbitrary: k)
  case (Cons x xs)
  obtain j where k: "k = Suc j" using Cons.prems(2) by (cases k) auto
  show ?case
  proof (cases xs)
    case Nil
    have "p (json_print ind lvl x @ json_nl ind m @ CHR '']'' # r)
        = Some (x, json_nl ind m @ CHR '']'' # r)"
      using Cons.prems(3) by (simp add: ends_value_nl)
    then show ?thesis
      by (simp add: k Nil skip_ws_nl) (simp add: skip_ws_def is_json_ws_def)
  next
    case (Cons y ys)
    let ?rest = "py_join (json_sep ind lvl) (map (json_print ind lvl) xs) @ json_nl ind m @ CHR '']'' # r"
    have p: "p (json_print ind lvl x @ json_sep ind lvl @ ?rest) = Some (x, json_sep ind lvl @ ?rest)"
      using Cons.prems(3) by (simp add: ends_value_nl)
    have ws: "skip_ws (json_sep ind lvl @ ?rest) = CHR '','' # tl (json_sep ind lvl) @ ?rest"
      by (subst (1 2) json_sep_split) (simp add: skip_ws_def is_json_ws_def)
    have "valid_json y" using Cons.prems(4) Cons by simp
    then have start: "skip_ws ?rest = ?rest"
      using json_print_start [of y ind lvl] Cons
      by (cases ys) (auto simp: skip_ws_def value_start_def)
    have ih: "json_elems p j ?rest = Some (xs, r)"
      by (rule Cons.IH) (use Cons.prems Cons k in auto)
    show ?thesis
      using p ws ih by (simp add: k Cons skip_ws_sep start [unfolded Cons, simplified])
  qed
qed simp

lemma json_members_print:
  assumes "kvs \<noteq> []" and "length kvs \<le> k"
    and "\<And>y v r. (y, v) \<in> set kvs \<Longrightarrow> ends_value r \<Longrightarrow> p (json_print ind lvl v @ r) = Some (v, r)"
    and "list_all (\<lambda>(y, v). valid_str y \<and> valid_json v) kvs"
  shows "json_members p k (py_join (json_sep ind lvl)
        (map (\<lambda>(y, v). json_str y @ '': '' @ json_print ind lvl v) kvs)
      @ json_nl ind m @ CHR ''}'' # r) = Some (kvs, r)"
  using assms
proof (induction kvs arbitrary: k)
  case (Cons x xs)
  obtain j where k: "k = Suc j" using Cons.prems(2) by (cases k) auto
  obtain y v where x: "x = (y, v)" by (cases x)
  with Cons.prems have y: "valid_str y" and v: "valid_json v" by auto
  obtain body where body: "json_str y = CHR 0x22 # body"
    "\<And>u. json_string [] (body @ u) = Some (y, u)"
    using json_string_str [OF y] by blast
  have colon: "skip_ws (CHR '':'' # u) = CHR '':'' # u" "skip_ws (CHR '' '' # u) = skip_ws u" for u
    by (simp_all add: skip_ws_def is_json_ws_def)
  have pv: "p (json_print ind lvl v @ u) = Some (v, u)" if "ends_value u" for u
    using Cons.prems(3) [of y v u] x that by simp
  show ?case
  proof (cases xs)
    case Nil
    have brace: "skip_ws (json_nl ind m @ CHR ''}'' # r) = CHR ''}'' # r"
      by (simp add: skip_ws_nl) (simp add: skip_ws_def is_json_ws_def)
    show ?thesis
      by (simp add: k Nil x body colon skip_ws_print [OF v] pv ends_value_nl brace)
  next
    case (Cons z zs)
    define rest where "rest = py_join (json_sep ind lvl)
        (map (\<lambda>(y, v). json_str y @ '': '' @ json_print ind lvl v) xs) @ json_nl ind m @ CHR ''}'' # r"
    have ws: "skip_ws (json_sep ind lvl @ rest) = CHR '','' # tl (json_sep ind lvl) @ rest"
      by (subst (1 2) json_sep_split) (simp add: skip_ws_def is_json_ws_def)
    have start: "skip_ws rest = rest"
      using Cons unfolding rest_def
      by (cases z; cases zs) (auto simp: skip_ws_def json_str_def is_json_ws_def)
    have ih: "json_members p j rest = Some (xs, r)"
      unfolding rest_def by (rule Cons.IH) (use Cons.prems Cons k in auto)
    have split: "py_join (json_sep ind lvl)
        (map (\<lambda>(y, v). json_str y @ '': '' @ json_print ind lvl v) (x # xs)) @ json_nl ind m @ CHR ''}'' # r
        = CHR 0x22 # body @ '': '' @ json_print ind lvl v @ json_sep ind lvl @ rest"
      using Cons body(1) by (simp add: x rest_def)
    have "json_members p (Suc j) (CHR 0x22 # body @ '': '' @ json_print ind lvl v @ json_sep ind lvl @ rest)
        = Some ((y, v) # xs, r)"
      by (simp add: body colon skip_ws_print [OF v] pv ends_value_nl ws skip_ws_sep start ih)
    then show ?thesis by (simp only: split k x [symmetric])
  qed
qed simp

declare json_elems.simps [simp del] json_members.simps [simp del]

lemma dict_of_pairs_distinct: "distinct (map fst kvs) \<Longrightarrow> dict_of_pairs kvs = kvs"
proof -
  have "distinct (map fst (acc @ kvs)) \<Longrightarrow> fold (\<lambda>(k, v). AList.update k v) kvs acc = acc @ kvs" for acc
  proof (induction kvs arbitrary: acc)
    case (Cons kv kvs)
    then have "AList.update (fst kv) (snd kv) acc = acc @ [kv]"
      by (simp add: dict_set_fresh)
    then show ?case using Cons by (simp add: case_prod_beta)
  qed simp
  from this [of "[]"] show "distinct (map fst kvs) \<Longrightarrow> ?thesis"
    by (simp add: dict_of_pairs_def)
qed

lemma length_py_join:
  "(\<And>s. s \<in> set ss \<Longrightarrow> s \<noteq> []) \<Longrightarrow> length ss \<le> length (py_join sep ss)"
proof (induction sep ss rule: py_join.induct)
  case (2 sep s)
  then show ?case by (cases s) auto
next
  case (3 sep s t ss)
  then have "length (t # ss) \<le> length (py_join sep (t # ss))" by auto
  moreover from 3 have "1 \<le> length s" by (cases s) auto
  moreover have "length (py_join sep (s # t # ss)) = length s + length sep + length (py_join sep (t # ss))"
    by simp
  ultimately show ?case by (simp only: list.size)
qed simp

lemma length_py_join_mem: "s \<in> set ss \<Longrightarrow> length s \<le> length (py_join sep ss)"
  by (induction sep ss rule: py_join.induct) auto

lemma json_print_not_closing:
  "valid_json v \<Longrightarrow> \<exists>c s. json_print ind lvl v @ r = c # s \<and> c \<noteq> CHR '']''"
  using json_print_start [of v ind lvl] by (auto simp: value_start_def)

lemma json_value_print:
  "valid_json v \<Longrightarrow> ends_value r \<Longrightarrow> length (json_print ind lvl v) \<le> n \<Longrightarrow>
   json_value n (json_print ind lvl v @ r) = Some (v, r)"
proof (induction v arbitrary: r lvl n)
  case (JStr s)
  obtain body where "json_str s = CHR 0x22 # body"
    "\<And>u. json_string [] (body @ u) = Some (s, u)"
    using json_string_str [of s] JStr.prems(1) by auto
  with JStr.prems show ?case by (cases n) auto
next
  case (JInt i)
  obtain c s where c: "int_str i = c # s" "c \<noteq> CHR 0x22" "c \<noteq> CHR ''{''" "c \<noteq> CHR ''[''"
    "c \<noteq> CHR ''n''" "c \<noteq> CHR ''t''" "c \<noteq> CHR ''f''" using int_str_start [of i] by blast
  have "json_number (c # s @ r) = Some (JInt i, r)"
    using json_number_int [OF JInt.prems(2), of i] c(1) by simp
  with c JInt.prems show ?case by (cases n) (auto simp: prefix_def)
next
  case (JArr xs)
  show ?case
  proof (cases "xs = []")
    case True
    with JArr.prems show ?thesis by (cases n) (auto simp: skip_ws_def is_json_ws_def)
  next
    case False
    let ?items = "py_join (json_sep ind (Suc lvl)) (map (json_print ind (Suc lvl)) xs)"
    let ?tail = "json_nl ind lvl @ CHR '']'' # r"
    have valid: "list_all valid_json xs" using JArr.prems(1) by simp
    from JArr.prems False obtain m where n: "n = Suc m" and len: "length ?items \<le> m"
      by (cases n) auto
    obtain y ys where xs: "xs = y # ys" using False by (cases xs) auto
    then have y: "valid_json y" using valid by simp
    have ws: "skip_ws (?items @ ?tail) = ?items @ ?tail"
      using json_print_start [OF y, of ind "Suc lvl"] xs
      by (cases ys) (auto simp: skip_ws_def value_start_def)
    obtain c s where c: "?items @ ?tail = c # s" "c \<noteq> CHR '']''"
      using json_print_start [OF y, of ind "Suc lvl"] xs by (cases ys) (auto simp: value_start_def)
    let ?s = "CHR ''['' # json_nl ind (Suc lvl) @ ?items @ ?tail"
    have nonempty: "json_print ind (Suc lvl) x \<noteq> []" if "x \<in> set xs" for x
      using json_print_start [of x ind "Suc lvl"] valid that by (auto simp: list_all_iff)
    have "json_elems (json_value m) (length ?s) (?items @ ?tail) = Some (xs, r)"
    proof (rule json_elems_print)
      have "length (map (json_print ind (Suc lvl)) xs) \<le> length ?items"
        by (rule length_py_join) (use nonempty in auto)
      then show "length xs \<le> length ?s" by simp
      show "json_value m (json_print ind (Suc lvl) x @ u) = Some (x, u)"
        if "x \<in> set xs" "ends_value u" for x u
        using JArr.IH [OF that(1) _ that(2)] valid that
          length_py_join_mem [of "json_print ind (Suc lvl) x" "map (json_print ind (Suc lvl)) xs" "json_sep ind (Suc lvl)"] len
        by (simp add: list_all_iff)
    qed (use False valid in auto)
    then have "json_elems (json_value m) (length (CHR ''['' # json_nl ind (Suc lvl) @ c # s)) (c # s)
        = Some (xs, r)" unfolding c .
    moreover have "skip_ws (c # s) = c # s" using ws unfolding c .
    moreover have "json_print ind lvl (JArr xs) @ r = CHR ''['' # json_nl ind (Suc lvl) @ c # s"
      using False c(1) by simp
    ultimately show ?thesis using n c(2) by (simp add: skip_ws_nl)
  qed
next
  case (JObj kvs)
  show ?case
  proof (cases "kvs = []")
    case True
    with JObj.prems show ?thesis by (cases n) (auto simp: skip_ws_def is_json_ws_def)
  next
    case False
    let ?pr = "\<lambda>(y, v). json_str y @ '': '' @ json_print ind (Suc lvl) v"
    let ?items = "py_join (json_sep ind (Suc lvl)) (map ?pr kvs)"
    let ?tail = "json_nl ind lvl @ CHR ''}'' # r"
    have valid: "list_all (\<lambda>(y, v). valid_str y \<and> valid_json v) kvs" and dist: "distinct (map fst kvs)"
      using JObj.prems(1) by simp_all
    from JObj.prems False obtain m where n: "n = Suc m" and len: "length ?items \<le> m"
      by (cases n) auto
    obtain y v ys where kvs: "kvs = (y, v) # ys" using False by (cases kvs) auto
    obtain s where c: "?items @ ?tail = CHR 0x22 # s"
      using kvs by (cases ys) (auto simp: json_str_def)
    then have ws: "skip_ws (?items @ ?tail) = ?items @ ?tail" by (simp add: skip_ws_def is_json_ws_def)
    let ?s = "CHR ''{'' # json_nl ind (Suc lvl) @ ?items @ ?tail"
    have "json_members (json_value m) (length ?s) (?items @ ?tail) = Some (kvs, r)"
    proof (rule json_members_print)
      have "length (map ?pr kvs) \<le> length ?items"
        by (rule length_py_join) (auto simp: json_str_def)
      then show "length kvs \<le> length ?s" by simp
      show "json_value m (json_print ind (Suc lvl) x @ u) = Some (x, u)"
        if "(k, x) \<in> set kvs" "ends_value u" for k x u
        using JObj.IH [OF that(1) _ _ that(2)] valid that len
          length_py_join_mem [of "?pr (k, x)" "map ?pr kvs" "json_sep ind (Suc lvl)"]
        by (fastforce simp: list_all_iff)
    qed (use False valid in auto)
    then have "json_members (json_value m)
        (length (CHR ''{'' # json_nl ind (Suc lvl) @ CHR 0x22 # s)) (CHR 0x22 # s) = Some (kvs, r)"
      unfolding c .
    moreover have "skip_ws (CHR 0x22 # s) = CHR 0x22 # s" using ws unfolding c .
    moreover have "json_print ind lvl (JObj kvs) @ r = CHR ''{'' # json_nl ind (Suc lvl) @ CHR 0x22 # s"
      using False c by simp
    ultimately show ?thesis using n by (simp add: skip_ws_nl dict_of_pairs_distinct dist)
  qed
next
  case (JBool b)
  then show ?case by (cases n; cases b) auto
next
  case JNull
  then show ?case by (cases n) auto
next
  case (JFloat x)
  then show ?case by simp
qed

lemma json_loads_print:
  assumes "valid_json v"
  shows "json_loads (json_print ind 0 v) = Ok v"
proof -
  have "json_value (Suc (length (json_print ind 0 v))) (json_print ind 0 v @ []) = Some (v, [])"
    by (rule json_value_print) (simp_all add: assms ends_value_def)
  moreover have "skip_ws (json_print ind 0 v) = json_print ind 0 v"
    using skip_ws_print [OF assms, of ind 0 "[]"] by simp
  ultimately show ?thesis by (simp add: json_loads_def skip_ws_def)
qed

lemma json_loads_dumps: "valid_json v \<Longrightarrow> json_loads (json_dumps v) = Ok v"
  unfolding json_dumps_def by (rule json_loads_print)

lemma json_loads_dumps_indent: "valid_json v \<Longrightarrow> json_loads (json_dumps_indent v) = Ok v"
  unfolding json_dumps_indent_def by (rule json_loads_print)

interpretation json_compact: codec json_dumps json_loads valid_json
  by unfold_locales (rule json_loads_dumps)

interpretation json_indented: codec json_dumps_indent json_loads valid_json
  by unfold_locales (rule json_loads_dumps_indent)

lemma valid_json_set:
  assumes "valid_json (JObj kvs)" "valid_str k" "valid_json v"
  shows "valid_json (JObj (dict_set k v kvs))"
proof -
  have "set (dict_set k v kvs) \<subseteq> insert (k, v) (set kvs)" by (induction kvs) auto
  with assms show ?thesis by (auto simp: list_all_iff distinct_update)
qed

lemma valid_json_del: "valid_json (JObj p) \<Longrightarrow> valid_json (JObj (dict_del k p))"
  using dict.wf_del [of p k] by (simp add: list_all_dict_del)

end
