(* ===== verification/Files.thy ===== *)
theory Files
  imports PyText
begin

text \<open>
  The part of the operating system's file interface the client uses: files with a mode and
  contents, directories with a mode, the environment. A write through a temporary file is
  a sequence of steps, so that what a crash in the middle leaves behind can be stated.
\<close>

record fileobj =
  fmode :: nat
  fdata :: bytes

record fs =
  files :: "string \<rightharpoonup> fileobj"
  dirs :: "string \<rightharpoonup> nat"

record pyenv =
  environ :: "string \<rightharpoonup> string"
  home_dir :: string

text \<open>Python's \<open>os.environ.get(k) or d\<close>.\<close>

definition env_or :: "pyenv \<Rightarrow> string \<Rightarrow> string \<Rightarrow> string" where
  "env_or e k d = (case environ e k of None \<Rightarrow> d | Some v \<Rightarrow> if v = [] then d else v)"

text \<open>\<open>os.path.expanduser("~" + tail)\<close>; \<open>home_dir\<close> is the home directory, without a final slash.\<close>

definition expanduser :: "pyenv \<Rightarrow> string \<Rightarrow> string" where
  "expanduser e tail = home_dir e @ tail"

definition rdropWhile :: "('a \<Rightarrow> bool) \<Rightarrow> 'a list \<Rightarrow> 'a list" where
  "rdropWhile P xs = rev (dropWhile P (rev xs))"

lemma prefix_rdropWhile: "prefix (rdropWhile P p) p"
  using suffix_dropWhile [of P "rev p"] by (simp add: rdropWhile_def suffix_to_prefix)

text \<open>\<open>os.path.dirname\<close>\<close>

definition path_dirname :: "string \<Rightarrow> string" where
  "path_dirname p =
     (let head = rdropWhile (\<lambda>c. c \<noteq> CHR ''/'') p;
          strip = rdropWhile (\<lambda>c. c = CHR ''/'') head
      in if strip = [] then head else strip)"

lemma prefix_path_dirname: "prefix (path_dirname p) p"
proof -
  have "prefix (rdropWhile P (rdropWhile Q p)) p" for P Q
    by (rule prefix_order.trans [OF prefix_rdropWhile prefix_rdropWhile])
  then show ?thesis by (simp add: path_dirname_def Let_def prefix_rdropWhile)
qed

lemma length_path_dirname: "path_dirname p \<noteq> p \<Longrightarrow> length (path_dirname p) < length p"
  using prefix_path_dirname [of p] by (simp add: prefix_length_less strict_prefix_def)

text \<open>\<open>os.makedirs(d, mode, exist_ok=True)\<close>: missing parents get the default mode.\<close>

function makedirs :: "nat \<Rightarrow> string \<Rightarrow> (string \<rightharpoonup> nat) \<Rightarrow> (string \<rightharpoonup> nat)" where
  "makedirs mode d ds =
     (if d = [] \<or> ds d \<noteq> None then ds
      else let parent = path_dirname d
           in (if parent = d then ds else makedirs 511 parent ds)(d \<mapsto> mode))"
  by pat_completeness auto
termination
  by (relation "measure (\<lambda>(mode, d, ds). length d)") (auto simp: length_path_dirname)

declare makedirs.simps [simp del]

lemma makedirs_keeps: "ds p = Some m \<Longrightarrow> makedirs mode d ds p = Some m"
proof (induction mode d ds rule: makedirs.induct)
  case (1 mode d ds)
  then show ?case by (subst makedirs.simps) (auto simp: Let_def)
qed

lemma makedirs_creates: "d \<noteq> [] \<Longrightarrow> \<exists>m. makedirs mode d ds d = Some m"
  by (subst makedirs.simps) (auto simp: Let_def)

lemma makedirs_mode: "d \<noteq> [] \<Longrightarrow> ds d = None \<Longrightarrow> makedirs mode d ds d = Some mode"
  by (subst makedirs.simps) (auto simp: Let_def)

section \<open>Reading and writing\<close>

definition os_exists :: "string \<Rightarrow> fs \<Rightarrow> bool" where
  "os_exists p s \<longleftrightarrow> files s p \<noteq> None \<or> dirs s p \<noteq> None"

definition os_read :: "string \<Rightarrow> fs \<Rightarrow> bytes res" where
  "os_read p s = (case files s p of
     None \<Rightarrow> Err (FileNotFoundError p) | Some f \<Rightarrow> Ok (fdata f))"

text \<open>
  The steps of a write: \<open>os.open\<close> with \<open>O_CREAT|O_TRUNC\<close> (an existing file keeps its mode),
  \<open>write\<close>, and \<open>os.replace\<close>.
\<close>

datatype fs_op = OpenTrunc string nat | WriteData string bytes | Replace string string | Remove string

fun fs_step :: "fs_op \<Rightarrow> fs \<Rightarrow> fs" where
  "fs_step (OpenTrunc p mode) s =
     s\<lparr>files := (files s)(p \<mapsto>
        (case files s p of None \<Rightarrow> \<lparr>fmode = mode, fdata = []\<rparr> | Some f \<Rightarrow> f\<lparr>fdata := []\<rparr>))\<rparr>"
| "fs_step (WriteData p bs) s =
     (case files s p of None \<Rightarrow> s
      | Some f \<Rightarrow> s\<lparr>files := (files s)(p \<mapsto> f\<lparr>fdata := fdata f @ bs\<rparr>)\<rparr>)"
| "fs_step (Replace p q) s =
     (case files s p of None \<Rightarrow> s
      | Some f \<Rightarrow> s\<lparr>files := ((files s)(p := None))(q \<mapsto> f)\<rparr>)"
| "fs_step (Remove p) s = s\<lparr>files := (files s)(p := None)\<rparr>"

definition run_ops :: "fs_op list \<Rightarrow> fs \<Rightarrow> fs" where
  "run_ops ops s = fold fs_step ops s"

definition tmp_path :: "string \<Rightarrow> string" where
  "tmp_path p = p @ ''.tmp''"

definition atomic_ops :: "string \<Rightarrow> bytes \<Rightarrow> nat \<Rightarrow> fs_op list" where
  "atomic_ops p bs mode =
     [OpenTrunc (tmp_path p) mode, WriteData (tmp_path p) bs, Replace (tmp_path p) p]"

lemma tmp_path_neq [simp]: "tmp_path p \<noteq> p" "p \<noteq> tmp_path p"
  by (simp_all add: tmp_path_def)

text \<open>
  The contract of a write through a temporary file: afterwards the file holds the data, no
  other file has changed, and at every intermediate point the file is as it was before.
\<close>

locale atomic_writer =
  fixes ops :: "string \<Rightarrow> bytes \<Rightarrow> fs_op list"
  assumes write_done: "map_option fdata (files (run_ops (ops p bs) s) p) = Some bs"
    and write_frame: "q \<noteq> p \<Longrightarrow> q \<noteq> tmp_path p \<Longrightarrow> files (run_ops (ops p bs) s) q = files s q"
    and write_partial: "k < length (ops p bs) \<Longrightarrow> files (run_ops (take k (ops p bs)) s) p = files s p"
    and write_dirs: "dirs (run_ops (ops p bs) s) = dirs s"
begin

lemma read_back: "os_read p (run_ops (ops p bs) s) = Ok bs"
  using write_done [of p bs s] by (auto simp: os_read_def split: option.splits)

lemma read_other:
  "q \<noteq> p \<Longrightarrow> q \<noteq> tmp_path p \<Longrightarrow> os_read q (run_ops (ops p bs) s) = os_read q s"
  by (simp add: os_read_def write_frame)

text \<open>Whatever prefix of the steps a crash leaves, the file is the old one or the new one.\<close>

lemma crash_safe:
  "files (run_ops (take k (ops p bs)) s) p = files s p \<or>
   map_option fdata (files (run_ops (take k (ops p bs)) s) p) = Some bs"
  by (cases "k < length (ops p bs)") (simp_all add: write_partial write_done)

end

lemma atomic_ops_result:
  "run_ops (atomic_ops p bs mode) s =
     s\<lparr>files := ((files s)(tmp_path p := None))
        (p \<mapsto> (case files s (tmp_path p) of
           None \<Rightarrow> \<lparr>fmode = mode, fdata = bs\<rparr> | Some f \<Rightarrow> f\<lparr>fdata := bs\<rparr>))\<rparr>"
  by (auto simp: run_ops_def atomic_ops_def split: option.splits)

interpretation atomic: atomic_writer "\<lambda>p bs. atomic_ops p bs mode" for mode
proof unfold_locales
  fix k p bs s
  assume "k < length (atomic_ops p bs mode)"
  then consider "k = 0" | "k = 1" | "k = 2" by (force simp: atomic_ops_def)
  then show "files (run_ops (take k (atomic_ops p bs mode)) s) p = files s p"
    by cases (auto simp: atomic_ops_def run_ops_def)
qed (auto simp: atomic_ops_result split: option.splits)

end
