(* ===== verification/Crypto.thy ===== *)
theory Crypto
  imports Base64 Json Files
begin

text \<open>
  \<open>client/aimless/crypto.py\<close>: the identity key and its passphrase-encrypted file.

  PyNaCl and the memory-hard hash of \<open>hashlib\<close> are parameters: the record \<open>nacl\<close> holds the
  operations the client calls, and \<open>nacl_ok\<close> states what their documentation promises
  (a signature verifies, a sealed box opens for its recipient, a secret box opens under its
  key, keys have their length). Randomness is an argument: the salt drawn and the number
  that selects a nonce. An identity is its 32-byte seed.
\<close>

section \<open>The cryptographic library\<close>

record nacl =
  n_verify_key :: "bytes \<Rightarrow> bytes"
  n_sign :: "bytes \<Rightarrow> bytes \<Rightarrow> bytes"
  n_verify :: "bytes \<Rightarrow> bytes \<Rightarrow> bytes \<Rightarrow> unit res"
  n_pk_to_curve :: "bytes \<Rightarrow> bytes res"
  n_sk_to_curve :: "bytes \<Rightarrow> bytes"
  n_seal :: "nat \<Rightarrow> bytes \<Rightarrow> bytes \<Rightarrow> bytes"
  n_seal_open :: "bytes \<Rightarrow> bytes \<Rightarrow> bytes res"
  n_box_encrypt :: "bytes \<Rightarrow> nat \<Rightarrow> bytes \<Rightarrow> bytes"
  n_box_decrypt :: "bytes \<Rightarrow> bytes \<Rightarrow> bytes res"
  n_scrypt :: "bytes \<Rightarrow> bytes \<Rightarrow> bytes"
  n_sha256 :: "bytes \<Rightarrow> bytes"

text \<open>Public keys and derived keys are 32 bytes.\<close>

definition nacl_lengths :: "nacl \<Rightarrow> bool" where
  "nacl_lengths N \<longleftrightarrow>
     (\<forall>seed. length seed = 32 \<longrightarrow> length (n_verify_key N seed) = 32) \<and>
     (\<forall>p s. length (n_scrypt N p s) = 32)"

text \<open>A signature verifies under the signer's public key.\<close>

definition nacl_signs :: "nacl \<Rightarrow> bool" where
  "nacl_signs N \<longleftrightarrow>
     (\<forall>seed m. length seed = 32 \<longrightarrow> n_verify N (n_verify_key N seed) m (n_sign N seed m) = Ok ())"

text \<open>A sealed box for a signing key's curve key opens with that key's secret.\<close>

definition nacl_seals :: "nacl \<Rightarrow> bool" where
  "nacl_seals N \<longleftrightarrow>
     (\<forall>seed. length seed = 32 \<longrightarrow>
        (\<exists>cpk. n_pk_to_curve N (n_verify_key N seed) = Ok cpk \<and>
           (\<forall>d m. n_seal_open N (n_sk_to_curve N (seed @ n_verify_key N seed)) (n_seal N d cpk m) = Ok m)))"

text \<open>A secret box opens under its key.\<close>

definition nacl_boxes :: "nacl \<Rightarrow> bool" where
  "nacl_boxes N \<longleftrightarrow>
     (\<forall>k d m. length k = 32 \<longrightarrow> n_box_decrypt N k (n_box_encrypt N k d m) = Ok m)"

definition nacl_ok :: "nacl \<Rightarrow> bool" where
  "nacl_ok N \<longleftrightarrow> nacl_lengths N \<and> nacl_signs N \<and> nacl_seals N \<and> nacl_boxes N"

lemma nacl_ok_verify_key: "nacl_ok N \<Longrightarrow> length seed = 32 \<Longrightarrow> length (n_verify_key N seed) = 32"
  by (simp add: nacl_ok_def nacl_lengths_def)

lemma nacl_ok_scrypt: "nacl_ok N \<Longrightarrow> length (n_scrypt N p s) = 32"
  by (simp add: nacl_ok_def nacl_lengths_def)

lemma nacl_ok_sign:
  "nacl_ok N \<Longrightarrow> length seed = 32 \<Longrightarrow> n_verify N (n_verify_key N seed) m (n_sign N seed m) = Ok ()"
  by (simp add: nacl_ok_def nacl_signs_def)

lemma nacl_ok_box: "nacl_ok N \<Longrightarrow> length k = 32 \<Longrightarrow> n_box_decrypt N k (n_box_encrypt N k d m) = Ok m"
  by (simp add: nacl_ok_def nacl_boxes_def)

lemmas nacl_okD = nacl_ok_verify_key nacl_ok_scrypt nacl_ok_sign nacl_ok_box

lemma nacl_ok_seal:
  assumes "nacl_ok N" and "length seed = 32"
  obtains cpk where "n_pk_to_curve N (n_verify_key N seed) = Ok cpk"
    and "\<And>d m. n_seal_open N (n_sk_to_curve N (seed @ n_verify_key N seed)) (n_seal N d cpk m) = Ok m"
proof -
  from assms(1) have "nacl_seals N" by (simp add: nacl_ok_def)
  with assms(2) obtain cpk where "n_pk_to_curve N (n_verify_key N seed) = Ok cpk \<and>
      (\<forall>d m. n_seal_open N (n_sk_to_curve N (seed @ n_verify_key N seed)) (n_seal N d cpk m) = Ok m)"
    unfolding nacl_seals_def by blast
  then show ?thesis using that by simp
qed

text \<open>
  A transparent instance, used by the witnesses only: keys are padded texts, a signature is a
  marker with the signer's key, a box is the key followed by the message.
\<close>

definition pad32 :: "bytes \<Rightarrow> bytes" where
  "pad32 bs = take 32 (bs @ replicate 32 0)"

definition plain_nacl :: nacl where
  "plain_nacl = \<lparr>
     n_verify_key = (\<lambda>seed. seed),
     n_sign = (\<lambda>seed m. seed @ m),
     n_verify = (\<lambda>pk m sig. if sig = pk @ m then Ok () else Err BadSignatureError),
     n_pk_to_curve = Ok,
     n_sk_to_curve = take 32,
     n_seal = (\<lambda>d pk m. pk @ m),
     n_seal_open = (\<lambda>sk ct. if take 32 ct = sk then Ok (drop 32 ct)
        else Err (CryptoError ''An error occurred trying to decrypt the message'')),
     n_box_encrypt = (\<lambda>k d m. k @ m),
     n_box_decrypt = (\<lambda>k ct. if take 32 ct = k then Ok (drop 32 ct)
        else Err (CryptoError ''Decryption failed. Ciphertext failed verification'')),
     n_scrypt = (\<lambda>p s. pad32 p),
     n_sha256 = (\<lambda>m. m)\<rparr>"

lemma length_pad32 [simp]: "length (pad32 bs) = 32"
  by (simp add: pad32_def)

lemma plain_nacl_ok: "nacl_ok plain_nacl"
  by (simp add: nacl_ok_def nacl_lengths_def nacl_signs_def nacl_seals_def nacl_boxes_def plain_nacl_def)

section \<open>Model of the module\<close>

definition KDF_N :: int where "KDF_N = 2 ^ 15"
definition KDF_R :: int where "KDF_R = 8"
definition KDF_P :: int where "KDF_P = 1"

text \<open>
  \<open>SigningKey(seed)\<close> refuses a seed of the wrong length; \<open>new_identity\<close> wraps a fresh random one.
\<close>

definition signing_key :: "bytes \<Rightarrow> bytes res" where
  "signing_key seed =
     (if length seed = 32 then Ok seed
      else Err (NaclValueError ''The seed must be exactly 32 bytes long''))"

definition new_identity :: "bytes \<Rightarrow> bytes res" where
  "new_identity fresh = signing_key fresh"

definition curve_keys :: "nacl \<Rightarrow> bytes \<Rightarrow> (bytes \<times> bytes) res" where
  "curve_keys N identity =
     (let seed = identity; sign_pk = n_verify_key N identity
      in bind_res (n_pk_to_curve N sign_pk) (\<lambda>curve_pk.
           Ok (curve_pk, n_sk_to_curve N (seed @ sign_pk))))"

definition kdf_key :: "nacl \<Rightarrow> string \<Rightarrow> bytes \<Rightarrow> bytes" where
  "kdf_key N passphrase salt = n_scrypt N (encode_utf8 passphrase) salt"

definition save_identity ::
  "nacl \<Rightarrow> string \<Rightarrow> bytes \<Rightarrow> string \<Rightarrow> bytes \<Rightarrow> nat \<Rightarrow> fs \<Rightarrow> fs" where
  "save_identity N path identity passphrase salt d s =
     (let key = kdf_key N passphrase salt;
          ct = n_box_encrypt N key d identity;
          data = JObj [(''v'', JInt 1), (''kdf'', JStr ''scrypt''), (''n'', JInt KDF_N),
                       (''r'', JInt KDF_R), (''p'', JInt KDF_P),
                       (''salt'', JStr (b64encode salt)), (''ct'', JStr (b64encode ct))]
      in run_ops (atomic_ops path (encode_utf8 (json_dumps data)) 384) s)"

text \<open>\<open>base64.b64decode(v)\<close> of a value read from JSON: anything but a string is a \<open>TypeError\<close>.\<close>

fun b64decode_json :: "json \<Rightarrow> bytes res" where
  "b64decode_json (JStr s) = b64decode s"
| "b64decode_json _ = Err (TypeError ''argument should be a bytes-like object or ASCII string'')"

definition load_identity :: "nacl \<Rightarrow> string \<Rightarrow> string \<Rightarrow> fs \<Rightarrow> bytes res" where
  "load_identity N path passphrase s =
     bind_res (os_read path s) (\<lambda>raw.
     bind_res (json_loads_bytes raw) (\<lambda>data.
     bind_res (json_item data ''salt'') (\<lambda>salt_text.
     bind_res (b64decode_json salt_text) (\<lambda>salt.
     bind_res (json_item data ''ct'') (\<lambda>ct_text.
     bind_res (b64decode_json ct_text) (\<lambda>ct.
       let key = kdf_key N passphrase salt
       in case n_box_decrypt N key ct of
            Err e \<Rightarrow>
              if is_CryptoError e then Err (ValueError ''wrong passphrase or corrupted identity file'')
              else Err e
          | Ok seed \<Rightarrow>
              if length seed \<noteq> 32 then Err (ValueError ''corrupted identity file'')
              else signing_key seed))))))"

section \<open>The identity file\<close>

lemma json_loads_bytes_encode:
  "valid_str s \<Longrightarrow> json_loads_bytes (encode_utf8 s) = json_loads s"
  by (simp add: json_loads_bytes_def decode_encode_utf8)

text \<open>A printed value is plain ASCII, hence well-formed text.\<close>

definition ascii :: "string \<Rightarrow> bool" where
  "ascii s \<longleftrightarrow> list_all (\<lambda>c. of_char c < (128 :: nat)) s"

lemma ascii_simps [simp]:
  "ascii []" "ascii (c # s) \<longleftrightarrow> of_char c < (128 :: nat) \<and> ascii s"
  "ascii (s @ t) \<longleftrightarrow> ascii s \<and> ascii t"
  by (simp_all add: ascii_def)

lemma ascii_concat: "(\<And>s. s \<in> set ss \<Longrightarrow> ascii s) \<Longrightarrow> ascii (concat ss)"
  by (induction ss) auto

lemma ascii_py_join: "ascii sep \<Longrightarrow> (\<And>s. s \<in> set ss \<Longrightarrow> ascii s) \<Longrightarrow> ascii (py_join sep ss)"
  by (induction sep ss rule: py_join.induct) auto

lemma ascii_subset: "set s \<subseteq> set t \<Longrightarrow> ascii t \<Longrightarrow> ascii s"
  by (auto simp: ascii_def list_all_iff)

lemma hex_digit_ascii: "n < 16 \<Longrightarrow> of_char (hex_digit n) < (128 :: nat)"
proof -
  have "ascii hex_digits" by (simp add: hex_digits_def)
  then show "n < 16 \<Longrightarrow> ?thesis" using hex_digit_range by (auto simp: ascii_def list_all_iff)
qed

lemma ascii_json_u: "ascii (json_u n)"
  by (simp add: json_u_def hex4_def hex_digit_ascii)

lemma ascii_json_str: "ascii (json_str s)"
  by (auto simp: json_str_def json_escape_cp_def ascii_json_u intro!: ascii_concat)

lemma ascii_int_str: "ascii (int_str i)"
proof (rule ascii_subset)
  show "set (int_str i) \<subseteq> set (CHR ''-'' # decimal_digits)" using int_str_chars [of i] by simp
  show "ascii (CHR ''-'' # decimal_digits)" by (simp add: decimal_digits_def)
qed

lemma ascii_json_nl: "ascii (json_nl ind lvl)" "ascii (json_sep ind lvl)"
  by (auto simp: json_sep_def json_nl_def ascii_def list_all_iff)

lemma ascii_json_print: "valid_json v \<Longrightarrow> ascii (json_print ind lvl v)"
proof (induction v arbitrary: lvl)
  case (JObj kvs)
  then show ?case
    by (fastforce simp: ascii_json_nl ascii_json_str list_all_iff intro!: ascii_py_join)
next
  case (JArr xs)
  then show ?case by (auto simp: ascii_json_nl list_all_iff intro!: ascii_py_join)
qed (simp_all add: ascii_json_str ascii_int_str)

lemma json_loads_bytes_dumps:
  "valid_json v \<Longrightarrow> json_loads_bytes (encode_utf8 (json_dumps v)) = Ok v"
  using ascii_json_print [of v False 0] valid_str_ascii [of "json_dumps v"]
  by (simp add: json_loads_bytes_encode json_loads_print ascii_def json_dumps_def)

lemma json_loads_bytes_dumps_indent:
  "valid_json v \<Longrightarrow> json_loads_bytes (encode_utf8 (json_dumps_indent v)) = Ok v"
  using ascii_json_print [of v True 0] valid_str_ascii [of "json_dumps_indent v"]
  by (simp add: json_loads_bytes_encode json_loads_print ascii_def json_dumps_indent_def)

interpretation json_file: codec "\<lambda>v. encode_utf8 (json_dumps v)" json_loads_bytes valid_json
  by unfold_locales (rule json_loads_bytes_dumps)

interpretation json_file_indented: codec "\<lambda>v. encode_utf8 (json_dumps_indent v)" json_loads_bytes valid_json
  by unfold_locales (rule json_loads_bytes_dumps_indent)

lemma valid_str_b64 [simp]: "valid_str (b64encode bs)"
  by (rule valid_str_ascii) (rule b64encode_ascii)

lemma valid_str_lit: "ascii s \<Longrightarrow> valid_str s"
  by (simp add: ascii_def valid_str_ascii)

lemma load_save_identity:
  assumes "nacl_ok N" and "length identity = 32"
  shows "load_identity N path passphrase (save_identity N path identity passphrase salt d s) = Ok identity"
  using assms
  by (simp add: load_identity_def save_identity_def Let_def atomic.read_back json_loads_bytes_dumps
      valid_str_lit b64decode_encode nacl_okD kdf_key_def signing_key_def)

text \<open>Whatever the file holds, the only errors of a readable file are the ones the callers expect.\<close>

lemma json_loads_error: "json_loads s = Err e \<Longrightarrow> is_ValueError e"
  by (auto simp: json_loads_def split: option.splits prod.splits if_splits)

lemma json_loads_bytes_error: "json_loads_bytes bs = Err e \<Longrightarrow> is_ValueError e"
  by (auto simp: json_loads_bytes_def decode_utf8_def dest: json_loads_error split: if_splits)

lemma load_identity_wrong_passphrase:
  assumes "nacl_ok N"
    and "n_box_decrypt N (kdf_key N wrong salt) (n_box_encrypt N (kdf_key N passphrase salt) d identity) = Err e"
    and "is_CryptoError e"
  shows "load_identity N path wrong (save_identity N path identity passphrase salt d s)
    = Err (ValueError ''wrong passphrase or corrupted identity file'')"
  using assms
  by (simp add: load_identity_def save_identity_def Let_def atomic.read_back json_loads_bytes_dumps
      valid_str_lit b64decode_encode)

section \<open>Properties\<close>

text \<open>
  an identity saved under a passphrase is read back unchanged with that passphrase, and a
  passphrase whose key the secret box rejects is reported as such, never as a bad seed.
\<close>

theorem identity_file_roundtrip:
  assumes "nacl_ok N" and "length identity = 32"
  shows "load_identity N path passphrase (save_identity N path identity passphrase salt d s) = Ok identity \<and>
    (n_box_decrypt N (kdf_key N wrong salt) (n_box_encrypt N (kdf_key N passphrase salt) d identity)
        = Err (CryptoError m) \<longrightarrow>
      load_identity N path wrong (save_identity N path identity passphrase salt d s)
        = Err (ValueError ''wrong passphrase or corrupted identity file''))"
  using load_save_identity [OF assms] load_identity_wrong_passphrase [OF assms(1)] by simp

theorem identity_file_roundtrip_witness:
  "load_identity plain_nacl ''id'' ''pw''
     (save_identity plain_nacl ''id'' (replicate 32 7) ''pw'' [1, 2] 0 \<lparr>files = Map.empty, dirs = Map.empty\<rparr>)
     = Ok (replicate 32 7) \<and>
   load_identity plain_nacl ''id'' ''no''
     (save_identity plain_nacl ''id'' (replicate 32 7) ''pw'' [1, 2] 0 \<lparr>files = Map.empty, dirs = Map.empty\<rparr>)
     = Err (ValueError ''wrong passphrase or corrupted identity file'')"
proof -
  let ?s = "\<lparr>files = Map.empty, dirs = Map.empty\<rparr> :: fs"
  have len: "length (replicate 32 7 :: bytes) = 32" by simp
  have "pad32 (encode_utf8 ''pw'') \<noteq> pad32 (encode_utf8 ''no'')"
    by (simp add: pad32_def encode_utf8_def char_byte_def)
  then have "n_box_decrypt plain_nacl (kdf_key plain_nacl ''no'' [1, 2])
      (n_box_encrypt plain_nacl (kdf_key plain_nacl ''pw'' [1, 2]) 0 (replicate 32 7))
      = Err (CryptoError ''Decryption failed. Ciphertext failed verification'')"
    by (simp add: plain_nacl_def kdf_key_def)
  then show ?thesis
    using identity_file_roundtrip [OF plain_nacl_ok len, of "''id''" "''pw''" "[1, 2]" 0 ?s "''no''"
        "''Decryption failed. Ciphertext failed verification''"]
    by simp
qed

end
