(* ===== verification/Keys.thy ===== *)
theory Keys
  imports Crypto
begin

unbundle bit_operations_syntax

text \<open>
  \<open>client/aimless/keys.py\<close>: the Yggdrasil address of a node key, parsing of pasted keys, the
  node-key file and the encrypted backup bundle.

  The bit loop of \<open>yggdrasil_address\<close> is modelled step by step on 8-bit words and proved equal
  to the declarative description of the address: the number of leading zero bits of the key,
  then the bits after the first one bit, packed into bytes. The bundle is shown to be read
  back, and its file to be replaced atomically.
\<close>

section \<open>The address loop\<close>

record ygg_state =
  ygg_done :: bool
  ygg_ones :: "8 word"
  ygg_bits :: "8 word"
  ygg_nbits :: nat
  ygg_temp :: bytes

definition ygg_bit :: "bytes \<Rightarrow> nat \<Rightarrow> 8 word" where
  "ygg_bit buf idx =
     drop_bit (7 - idx mod 8) (buf ! (idx div 8) AND drop_bit (idx mod 8) 0x80)"

definition shift_in :: "8 word \<Rightarrow> 8 word \<Rightarrow> 8 word" where
  "shift_in bits b = push_bit 1 bits OR b"

definition ygg_step :: "ygg_state \<Rightarrow> 8 word \<Rightarrow> ygg_state" where
  "ygg_step st b =
     (if \<not> ygg_done st \<and> b \<noteq> 0 then st\<lparr>ygg_ones := ygg_ones st + 1\<rparr>
      else if \<not> ygg_done st \<and> b = 0 then st\<lparr>ygg_done := True\<rparr>
      else
        let bits = shift_in (ygg_bits st) b;
            nbits = ygg_nbits st + 1
        in if nbits = 8 then st\<lparr>ygg_bits := bits, ygg_nbits := 0, ygg_temp := ygg_temp st @ [bits]\<rparr>
           else st\<lparr>ygg_bits := bits, ygg_nbits := nbits\<rparr>)"

definition ygg_init :: ygg_state where
  "ygg_init = \<lparr>ygg_done = False, ygg_ones = 0, ygg_bits = 0, ygg_nbits = 0, ygg_temp = []\<rparr>"

definition ygg_loop :: "bytes \<Rightarrow> ygg_state" where
  "ygg_loop buf = foldl ygg_step ygg_init (map (ygg_bit buf) [0..<8 * length buf])"

text \<open>\<open>addr[0] = 2; addr[1] = ones; addr[2 + i] = temp[i]\<close> while it fits.\<close>

definition ygg_addr :: "bytes \<Rightarrow> bytes" where
  "ygg_addr pubkey =
     (let st = ygg_loop (map (\<lambda>b. b XOR 0xFF) pubkey)
      in [2, ygg_ones st] @ take 14 (ygg_temp st @ replicate 14 0))"

section \<open>IPv6 text\<close>

text \<open>\<open>ipaddress.IPv6Address(addr).compressed\<close>\<close>

fun hextets :: "bytes \<Rightarrow> nat list" where
  "hextets (a # b # r) = (unat a * 256 + unat b) # hextets r"
| "hextets _ = []"

fun hex_nat :: "nat \<Rightarrow> string" where
  "hex_nat n = (if n < 16 then [hex_digit n] else hex_nat (n div 16) @ [hex_digit (n mod 16)])"

declare hex_nat.simps [simp del]

text \<open>The scan for the longest run of zero groups: (start, length) of the run, and of the best.\<close>

fun zero_runs :: "nat \<Rightarrow> nat list \<Rightarrow> nat \<times> nat \<Rightarrow> nat \<times> nat \<Rightarrow> nat \<times> nat" where
  "zero_runs i [] cur best = best"
| "zero_runs i (h # hs) (start, len) best =
     (if h = 0 then
        (let start' = (if len = 0 then i else start); len' = len + 1
         in zero_runs (i + 1) hs (start', len') (if snd best < len' then (start', len') else best))
      else zero_runs (i + 1) hs (0, 0) best)"

definition ipv6_compressed :: "bytes \<Rightarrow> string" where
  "ipv6_compressed addr =
     (let hs = hextets addr; texts = map hex_nat hs;
          (start, len) = zero_runs 0 hs (0, 0) (0, 0);
          stop = start + len
      in if 1 < len then
           (let ts = (if stop = length texts then texts @ [[]] else texts);
                ts = take start ts @ [[]] @ drop stop ts;
                ts = (if start = 0 then [] # ts else ts)
            in py_join '':'' ts)
         else py_join '':'' texts)"

definition yggdrasil_address :: "bytes \<Rightarrow> string res" where
  "yggdrasil_address pubkey =
     (if length pubkey \<noteq> 32 then Err (ValueError ''public key must be 32 bytes'')
      else Ok (ipv6_compressed (ygg_addr pubkey)))"

section \<open>Node keys\<close>

function remove_spaces :: "string \<Rightarrow> string" where
  "remove_spaces s =
     (case strip_one py_spaces s of
        Some t \<Rightarrow> remove_spaces t
      | None \<Rightarrow> (case s of [] \<Rightarrow> [] | c # t \<Rightarrow> c # remove_spaces t))"
  by pat_completeness auto
termination
  by (relation "measure length") (auto dest: strip_one_shorter)

declare remove_spaces.simps [simp del]

definition ascii_lower :: "char \<Rightarrow> char" where
  "ascii_lower c =
     (if CHR ''A'' \<le> c \<and> c \<le> CHR ''Z'' then char_of (of_char c + 32 :: nat) else c)"

definition parse_node_key :: "nacl \<Rightarrow> string \<Rightarrow> (bytes \<times> bytes) res" where
  "parse_node_key N s =
     (let raw = map ascii_lower (remove_spaces s);
          raw = (if prefix ''0x'' raw then drop 2 raw else raw)
      in if raw = [] \<or> \<not> set raw \<subseteq> set hex_digits then Err (ValueError ''key must be hex'')
         else case fromhex raw of
           Err e \<Rightarrow> Err (ValueError (''bad hex: '' @ exn_str e))
         | Ok data \<Rightarrow>
             if length data = 64 then
               bind_res (signing_key (take 32 data)) (\<lambda>priv. Ok (take 32 data, n_verify_key N priv))
             else if length data = 32 then
               bind_res (signing_key data) (\<lambda>priv. Ok (data, n_verify_key N priv))
             else Err (ValueError ''expected a 64- or 128-hex-character key''))"

text \<open>(seed_hex, address) for a fresh node key; the seed drawn is an argument.\<close>

definition random_node_key :: "nacl \<Rightarrow> bytes \<Rightarrow> (string \<times> string) res" where
  "random_node_key N fresh =
     bind_res (signing_key fresh) (\<lambda>priv.
     bind_res (yggdrasil_address (n_verify_key N priv)) (\<lambda>addr. Ok (bytes_hex priv, addr)))"

definition atomic_write :: "string \<Rightarrow> bytes \<Rightarrow> fs \<Rightarrow> fs" where
  "atomic_write path data s = run_ops (atomic_ops path data 384) s"

definition write_node_key :: "string \<Rightarrow> bytes \<Rightarrow> fs \<Rightarrow> string \<times> fs" where
  "write_node_key datadir seed s =
     (let s = s\<lparr>dirs := makedirs 511 datadir (dirs s)\<rparr>;
          path = path_join datadir ''node.key''
      in (path, atomic_write path (encode_utf8 (bytes_hex seed) @ [10]) s))"

definition remove_node_key :: "string \<Rightarrow> fs \<Rightarrow> fs" where
  "remove_node_key datadir s = fs_step (Remove (path_join datadir ''node.key'')) s"

section \<open>Backups\<close>

definition BUNDLE_VERSION :: int where "BUNDLE_VERSION = 1"

definition save_bundle ::
  "nacl \<Rightarrow> string \<Rightarrow> string \<Rightarrow> json \<Rightarrow> bytes \<Rightarrow> nat \<Rightarrow> fs \<Rightarrow> fs" where
  "save_bundle N path passphrase data salt d s =
     (let key = kdf_key N passphrase salt;
          ct = n_box_encrypt N key d (encode_utf8 (json_dumps data));
          blob = JObj [(''v'', JInt BUNDLE_VERSION), (''kdf'', JStr ''scrypt''),
                       (''salt'', JStr (b64encode salt)), (''ct'', JStr (b64encode ct))]
      in atomic_write path (encode_utf8 (json_dumps_indent blob)) s)"

text \<open>\<open>v == n\<close> for a JSON value and an integer; Python's \<open>True\<close> equals 1.\<close>

fun json_eq_int :: "json option \<Rightarrow> int \<Rightarrow> bool" where
  "json_eq_int (Some (JInt i)) n = (i = n)"
| "json_eq_int (Some (JBool b)) n = (n = (if b then 1 else 0))"
| "json_eq_int _ n = False"

definition load_bundle :: "nacl \<Rightarrow> string \<Rightarrow> string \<Rightarrow> fs \<Rightarrow> json res" where
  "load_bundle N path passphrase s =
     bind_res (os_read path s) (\<lambda>raw.
     bind_res (json_loads_bytes raw) (\<lambda>blob.
     bind_res (json_get blob ''v'') (\<lambda>v.
       if \<not> json_eq_int v BUNDLE_VERSION then Err (ValueError ''unsupported backup version'')
       else
         bind_res (json_item blob ''salt'') (\<lambda>salt_text.
         bind_res (b64decode_json salt_text) (\<lambda>salt.
         bind_res (json_item blob ''ct'') (\<lambda>ct_text.
         bind_res (b64decode_json ct_text) (\<lambda>ct.
           case n_box_decrypt N (kdf_key N passphrase salt) ct of
             Err e \<Rightarrow> Err (ValueError ''wrong passphrase or corrupted backup'')
           | Ok data \<Rightarrow> json_loads_bytes data)))))))"

section \<open>The address, declaratively\<close>

definition byte_of_bits :: "8 word list \<Rightarrow> 8 word" where
  "byte_of_bits bs = foldl shift_in 0 bs"

fun pack8 :: "8 word list \<Rightarrow> bytes" where
  "pack8 bs = (if length bs < 8 then [] else byte_of_bits (take 8 bs) # pack8 (drop 8 bs))"

declare pack8.simps [simp del]

definition key_bits :: "bytes \<Rightarrow> 8 word list" where
  "key_bits buf = map (ygg_bit buf) [0..<8 * length buf]"

text \<open>
  The bits of the inverted key: count the ones in front, drop them and the zero that ends
  them, pack the rest.
\<close>

definition ygg_spec :: "bytes \<Rightarrow> bytes" where
  "ygg_spec pubkey =
     (let bits = key_bits (map NOT pubkey);
          k = length (takeWhile (\<lambda>b. b \<noteq> 0) bits)
      in [2, of_nat k] @ take 14 (pack8 (drop (Suc k) bits) @ replicate 14 0))"

lemma shift_in_or: "shift_in (push_bit n x OR y) b = push_bit (Suc n) x OR shift_in y b"
  by (simp only: shift_in_def push_bit_or push_bit_push_bit or.assoc) simp

lemma push_or_foldl: "foldl shift_in x bs = push_bit (length bs) x OR byte_of_bits bs"
  by (induction bs rule: rev_induct) (simp_all add: byte_of_bits_def shift_in_or)

lemma push_bit_8_byte: "push_bit 8 (x :: 8 word) = 0"
  by (rule bit_eqI) (auto simp: bit_simps)

lemma byte_of_bits_any: "length bs = 8 \<Longrightarrow> foldl shift_in x bs = byte_of_bits bs"
  by (simp add: push_or_foldl push_bit_8_byte)

lemma ygg_step_ones:
  "\<forall>b \<in> set bs. b \<noteq> 0 \<Longrightarrow> \<not> ygg_done st \<Longrightarrow>
   foldl ygg_step st bs = st\<lparr>ygg_ones := ygg_ones st + of_nat (length bs)\<rparr>"
  by (induction bs arbitrary: st) (simp_all add: ygg_step_def add.assoc)

text \<open>After the first zero bit: fewer than eight bits only shift, the eighth emits a byte.\<close>

lemma ygg_step_short:
  "ygg_done st \<Longrightarrow> ygg_nbits st + length bs < 8 \<Longrightarrow>
   foldl ygg_step st bs = st\<lparr>ygg_bits := foldl shift_in (ygg_bits st) bs,
     ygg_nbits := ygg_nbits st + length bs\<rparr>"
  by (induction bs arbitrary: st) (auto simp: ygg_step_def Let_def)

lemma ygg_step_byte:
  assumes "ygg_done st" and "ygg_nbits st = 0" and "length bs = 8"
  shows "foldl ygg_step st bs = st\<lparr>ygg_bits := byte_of_bits bs, ygg_nbits := 0,
    ygg_temp := ygg_temp st @ [byte_of_bits bs]\<rparr>"
proof -
  obtain cs c where bs: "bs = cs @ [c]" and cs: "length cs = 7"
    using assms(3) by (cases bs rule: rev_cases) auto
  let ?st = "st\<lparr>ygg_bits := foldl shift_in (ygg_bits st) cs, ygg_nbits := 7\<rparr>"
  have "foldl ygg_step st cs = ?st" using assms cs ygg_step_short [of st cs] by simp
  then have "foldl ygg_step st bs = ygg_step ?st c" using bs by simp
  also have "\<dots> = st\<lparr>ygg_bits := foldl shift_in (ygg_bits st) bs, ygg_nbits := 0,
      ygg_temp := ygg_temp st @ [foldl shift_in (ygg_bits st) bs]\<rparr>"
    using assms(1) bs by (simp add: ygg_step_def Let_def)
  finally show ?thesis using byte_of_bits_any [OF assms(3)] by simp
qed

lemma ygg_temp_pack8:
  "ygg_done st \<Longrightarrow> ygg_nbits st = 0 \<Longrightarrow>
   ygg_temp (foldl ygg_step st bs) = ygg_temp st @ pack8 bs \<and>
   ygg_ones (foldl ygg_step st bs) = ygg_ones st"
proof (induction bs arbitrary: st rule: pack8.induct)
  case (1 bs)
  show ?case
  proof (cases "length bs < 8")
    case True
    with 1 show ?thesis by (simp add: ygg_step_short pack8.simps [of bs])
  next
    case False
    let ?st = "foldl ygg_step st (take 8 bs)"
    have st: "?st = st\<lparr>ygg_bits := byte_of_bits (take 8 bs), ygg_nbits := 0,
        ygg_temp := ygg_temp st @ [byte_of_bits (take 8 bs)]\<rparr>"
      using "1.prems" False by (simp add: ygg_step_byte)
    have "foldl ygg_step st bs = foldl ygg_step ?st (drop 8 bs)"
      by (metis append_take_drop_id foldl_append)
    with "1.IH" [OF False, of ?st] "1.prems" False st show ?thesis
      by (simp add: pack8.simps [of bs])
  qed
qed

lemma ygg_loop_spec:
  fixes bits :: "8 word list"
  defines "k \<equiv> length (takeWhile (\<lambda>b. b \<noteq> 0) bits)"
  shows "ygg_ones (foldl ygg_step ygg_init bits) = of_nat k \<and>
    ygg_temp (foldl ygg_step ygg_init bits) = pack8 (drop (Suc k) bits)"
proof -
  let ?ones = "takeWhile (\<lambda>b. b \<noteq> 0) bits" and ?rest = "dropWhile (\<lambda>b. b \<noteq> 0) bits"
  let ?st = "ygg_init\<lparr>ygg_ones := of_nat k\<rparr>"
  have nz: "\<forall>b \<in> set ?ones. b \<noteq> 0" using set_takeWhileD by fastforce
  have "foldl ygg_step ygg_init ?ones = ?st"
    using ygg_step_ones [OF nz, of ygg_init] by (simp add: ygg_init_def k_def)
  then have split: "foldl ygg_step ygg_init bits = foldl ygg_step ?st ?rest"
    by (metis foldl_append takeWhile_dropWhile_id)
  have rest: "?rest = drop k bits" unfolding k_def by (rule dropWhile_eq_drop)
  show ?thesis
  proof (cases ?rest)
    case Nil
    then have "drop (Suc k) bits = []" using rest by simp
    then show ?thesis using split Nil by (simp add: ygg_init_def pack8.simps)
  next
    case (Cons b bs)
    then have "b = 0" by (simp add: dropWhile_eq_Cons_conv)
    moreover have "drop (Suc k) bits = tl (drop k bits)" by (simp add: drop_Suc drop_tl)
    then have "bs = drop (Suc k) bits" using Cons rest by simp
    ultimately show ?thesis
      using split Cons ygg_temp_pack8 [of "ygg_step ?st 0" bs]
      by (simp add: ygg_step_def ygg_init_def)
  qed
qed

lemma ygg_addr_spec: "ygg_addr pubkey = ygg_spec pubkey"
proof -
  have m: "(0xFF :: 8 word) = - 1" by simp
  have inv: "map (\<lambda>b. b XOR 0xFF) pubkey = map NOT pubkey"
    by (simp only: m bit.xor_one_right)
  show ?thesis
    using ygg_loop_spec [of "key_bits (map NOT pubkey)"]
    by (simp add: ygg_addr_def ygg_spec_def Let_def inv ygg_loop_def key_bits_def)
qed

lemma length_ygg_addr: "length (ygg_addr pubkey) = 16"
  by (simp add: ygg_addr_def Let_def)

section \<open>Bundles and key files\<close>

lemma load_save_bundle:
  assumes "nacl_ok N" and "valid_json data"
  shows "load_bundle N path passphrase (save_bundle N path passphrase data salt d s) = Ok data"
  using assms
  by (simp add: load_bundle_def save_bundle_def Let_def atomic_write_def atomic.read_back
      json_loads_bytes_dumps_indent json_loads_bytes_dumps valid_str_lit b64decode_encode nacl_okD
      kdf_key_def)

lemma lower_hex: "c \<in> set (CHR ''x'' # hex_digits) \<Longrightarrow> ascii_lower c = c"
  by (auto simp: hex_digits_def ascii_lower_def)

lemma remove_spaces_hex: "set s \<subseteq> set (CHR ''x'' # hex_digits) \<Longrightarrow> remove_spaces s = s"
proof (induction s)
  case Nil
  have "strip_one py_spaces [] = None" by (simp add: strip_one_None)
  then show ?case by (simp add: remove_spaces.simps [of "[]"])
next
  case (Cons c s)
  have "strip_one py_spaces (c # s) = None"
    unfolding strip_one_None using Cons.prems
    by (auto simp: py_spaces_def hex_digits_def prefix_Cons)
  with Cons show ?case by (simp add: remove_spaces.simps [of "c # s"])
qed

lemma parse_node_key_hex:
  assumes len: "length data = 32 \<or> length data = 64" and pre: "pre = [] \<or> pre = ''0x''"
  shows "parse_node_key N (pre @ bytes_hex data) = Ok (take 32 data, n_verify_key N (take 32 data))"
proof -
  let ?h = "bytes_hex data"
  have chars: "set ?h \<subseteq> set hex_digits" by (rule bytes_hex_chars)
  have ne: "?h \<noteq> []"
    using len length_bytes_hex [of data] by (metis list.size(3) mult_eq_0_iff zero_neq_numeral)
  have "set pre \<subseteq> set (CHR ''x'' # hex_digits)" using pre by (auto simp: hex_digits_def)
  then have "set (pre @ ?h) \<subseteq> set (CHR ''x'' # hex_digits)" using chars by auto
  then have id: "\<forall>c \<in> set (pre @ ?h). ascii_lower c = c" and sp: "remove_spaces (pre @ ?h) = pre @ ?h"
    using lower_hex remove_spaces_hex by (blast, blast)
  have raw: "map ascii_lower (remove_spaces (pre @ ?h)) = pre @ ?h"
    unfolding sp by (rule map_idI) (use id in blast)
  have "\<not> prefix ''0x'' ?h"
    using chars by (cases ?h; cases "tl ?h") (auto simp: hex_digits_def)
  then have "(if prefix ''0x'' (pre @ ?h) then drop 2 (pre @ ?h) else pre @ ?h) = ?h"
    using pre by auto
  then show ?thesis
    using len chars ne unfolding parse_node_key_def Let_def raw
    by (auto simp: fromhex_hex signing_key_def)
qed

section \<open>Properties\<close>

text \<open>
  C23: the bit loop of \<open>yggdrasil_address\<close> computes the declarative address: two prefix bytes
  (2 and the number of leading zero bits of the key modulo 256), then the bits after the first
  one bit of the key packed into fourteen bytes; a key of any length but 32 is refused.
\<close>

theorem yggdrasil_address_spec:
  "yggdrasil_address pubkey =
     (if length pubkey = 32 then Ok (ipv6_compressed (ygg_spec pubkey))
      else Err (ValueError ''public key must be 32 bytes''))"
  by (simp add: yggdrasil_address_def ygg_addr_spec)

text \<open>
  the digits that \<open>write_node_key\<close> leaves in the key file, with or without an \<open>0x\<close> in
  front, parse back to the same seed and its public key, and the 128-digit private key parses
  to the seed that is its first half.
\<close>

theorem parse_node_key_roundtrip:
  assumes "length seed = 32" and "length pub = 32" and "pre = [] \<or> pre = ''0x''"
  shows "parse_node_key N (pre @ bytes_hex seed) = Ok (seed, n_verify_key N seed) \<and>
    parse_node_key N (pre @ bytes_hex (seed @ pub)) = Ok (seed, n_verify_key N seed) \<and>
    os_read (fst (write_node_key dir seed s)) (snd (write_node_key dir seed s))
      = Ok (encode_utf8 (bytes_hex seed) @ [10])"
  using assms parse_node_key_hex [of seed pre N] parse_node_key_hex [of "seed @ pub" pre N]
  by (simp add: write_node_key_def Let_def atomic_write_def atomic.read_back)

theorem parse_node_key_roundtrip_witness:
  "parse_node_key plain_nacl (''0x'' @ bytes_hex (replicate 32 171)) = Ok (replicate 32 171, replicate 32 171)"
  using parse_node_key_roundtrip [of "replicate 32 171" "replicate 32 0" "''0x''" plain_nacl "''d''"
      "\<lparr>files = Map.empty, dirs = Map.empty\<rparr>"]
  by (simp add: plain_nacl_def)

text \<open>
  a backup bundle restores the value that was saved under the same passphrase, and a crash
  at any point of writing it leaves either the previous file or the complete new one.
\<close>

theorem bundle_roundtrip:
  assumes "nacl_ok N" and "valid_json data"
  shows "load_bundle N path passphrase (save_bundle N path passphrase data salt d s) = Ok data \<and>
    (\<forall>content k. files (run_ops (take k (atomic_ops path content 384)) s) path \<in>
       {files s path, files (atomic_write path content s) path})"
proof -
  have "files (run_ops (take k (atomic_ops path content 384)) s) path \<in>
      {files s path, files (atomic_write path content s) path}" for content k
    using atomic.write_partial [of k path content 384 s]
    by (cases "k < length (atomic_ops path content 384)") (simp_all add: atomic_write_def)
  then show ?thesis using load_save_bundle [OF assms] by blast
qed

theorem bundle_roundtrip_witness:
  "load_bundle plain_nacl ''b'' ''pw''
     (save_bundle plain_nacl ''b'' ''pw'' (JObj [(''screen'', JStr ''ann'')]) [1] 0
        \<lparr>files = Map.empty, dirs = Map.empty\<rparr>) = Ok (JObj [(''screen'', JStr ''ann'')])"
  using bundle_roundtrip [OF plain_nacl_ok, of "JObj [(''screen'', JStr ''ann'')]"]
  by (simp add: valid_str_lit)

end
