(* ===== verification/Logging.thy ===== *)
theory Logging
  imports Files
begin

text \<open>
  \<open>client/aimless/logging.py\<close>: append-only logs with one level of rotation. The \<open>OSError\<close>s
  the module swallows are a flag saying whether the file can be written. The theory shows that
  a log never grows past the limit by more than its last entry.
\<close>

section \<open>Model\<close>

definition MAX_LOG_BYTES :: nat where
  "MAX_LOG_BYTES = 2 ^ 20"

definition file_size :: "string \<Rightarrow> fs \<Rightarrow> nat" where
  "file_size p s = (case files s p of None \<Rightarrow> 0 | Some f \<Rightarrow> length (fdata f))"

definition rotate :: "bool \<Rightarrow> string \<Rightarrow> nat \<Rightarrow> fs \<Rightarrow> fs" where
  "rotate can_write path max_bytes s =
     (if files s path \<noteq> None \<and> max_bytes < file_size path s \<and> can_write
      then fs_step (Replace path (path @ ''.1'')) s else s)"

definition log_entry :: "string \<Rightarrow> string \<Rightarrow> string" where
  "log_entry stamp line = ''['' @ stamp @ ''] '' @ line @ [CHR 0x0A]"

text \<open>\<open>open(path, "a")\<close> followed by one write.\<close>

definition append_file :: "string \<Rightarrow> bytes \<Rightarrow> fs \<Rightarrow> fs" where
  "append_file path bs s =
     s\<lparr>files := (files s)(path \<mapsto>
        (case files s path of
           None \<Rightarrow> \<lparr>fmode = 438, fdata = bs\<rparr> | Some f \<Rightarrow> f\<lparr>fdata := fdata f @ bs\<rparr>))\<rparr>"

text \<open>The closure returned by \<open>log_fn(path, max_bytes)\<close>: \<open>log(line)\<close> at time \<open>stamp\<close>.\<close>

definition log :: "bool \<Rightarrow> string \<Rightarrow> nat \<Rightarrow> string \<Rightarrow> string \<Rightarrow> fs \<Rightarrow> fs" where
  "log can_write path max_bytes stamp line s =
     (let s' = rotate can_write path max_bytes s
      in if can_write then append_file path (encode_utf8 (log_entry stamp line)) s' else s')"

definition log_fn :: "string \<Rightarrow> fs \<Rightarrow> fs" where
  "log_fn path s =
     s\<lparr>dirs := makedirs 511 (if path_dirname path = [] then ''.'' else path_dirname path) (dirs s)\<rparr>"

definition append_line :: "bool \<Rightarrow> string \<Rightarrow> string \<Rightarrow> string \<Rightarrow> fs \<Rightarrow> fs" where
  "append_line can_write path stamp line s =
     log can_write path MAX_LOG_BYTES stamp line (log_fn path s)"

text \<open>A run of the logger: the lines in order, each with its time and whether writing works.\<close>

fun log_all :: "string \<Rightarrow> nat \<Rightarrow> (bool \<times> string \<times> string) list \<Rightarrow> fs \<Rightarrow> fs" where
  "log_all path m [] s = s"
| "log_all path m ((w, stamp, line) # ls) s = log_all path m ls (log w path m stamp line s)"

section \<open>Size\<close>

lemma file_size_append: "file_size p (append_file p bs s) = file_size p s + length bs"
  by (simp add: file_size_def append_file_def split: option.splits)

lemma file_size_rotate: "can_write \<Longrightarrow> file_size p (rotate can_write p m s) \<le> m"
  by (auto simp: rotate_def file_size_def split: option.splits)

lemma rotate_no_write: "\<not> can_write \<Longrightarrow> rotate can_write p m s = s"
  by (simp add: rotate_def)

lemma file_size_log:
  assumes "file_size p s \<le> m + b" and "length (log_entry stamp line) \<le> b"
  shows "file_size p (log w p m stamp line s) \<le> m + b"
proof (cases w)
  case True
  then show ?thesis
    using file_size_rotate [of w p m s] assms(2)
    by (simp add: log_def Let_def file_size_append)
next
  case False
  then show ?thesis using assms(1) by (simp add: log_def rotate_no_write)
qed

lemma log_keeps_entry:
  "\<exists>pre. map_option fdata (files (log True p m stamp line s) p)
     = Some (pre @ encode_utf8 (log_entry stamp line))"
  by (auto simp: log_def Let_def append_file_def split: option.splits)

section \<open>Properties\<close>

text \<open>
  whatever sequence of lines is logged, and whichever writes fail, the log file stays
  within the limit plus the longest entry.
\<close>

theorem log_bounded:
  assumes "\<forall>(w, stamp, line) \<in> set ls. length (log_entry stamp line) \<le> b"
    and "file_size p s \<le> m + b"
  shows "file_size p (log_all p m ls s) \<le> m + b"
  using assms
proof (induction ls arbitrary: s)
  case (Cons l ls)
  obtain w stamp line where l: "l = (w, stamp, line)" by (cases l)
  have "file_size p (log w p m stamp line s) \<le> m + b"
    by (rule file_size_log) (use Cons.prems l in auto)
  with Cons l show ?case by simp
qed simp

theorem log_bounded_witness:
  "file_size ''x'' (log_all ''x'' 4 [(True, ''t'', ''a''), (True, ''t'', ''b'')]
     \<lparr>files = Map.empty, dirs = Map.empty\<rparr>) \<le> 4 + 8"
  by (rule log_bounded) (simp_all add: log_entry_def file_size_def)

end
