(* ===== verification/Protocol.thy ===== *)
theory Protocol
  imports Crypto Base58 "HOL-Library.Multiset"
begin

text \<open>
  \<open>client/aimless/protocol.py\<close>: invites, room identifiers, the signed and sealed envelopes
  of messages, statuses and file chunks, the chunk header and reassembly, and the contact file.

  Envelopes are JSON text, so what a peer may send is any value of \<open>json\<close> and every type
  error of the source is a branch. The three \<open>open\<close> functions share the same statements up
  to the kind and the wording of one error; they are one helper here, \<open>open_envelope\<close>, and so
  are the statements that build an envelope, \<open>seal_envelope\<close>.
\<close>

section \<open>Constants and sizes\<close>

definition INVITE_PREFIX :: string where "INVITE_PREFIX = ''aimless1:''"

definition MAGIC :: bytes where "MAGIC = encode_utf8 ''aimless'' @ [1]"

definition FILE_CHUNK_SIZE :: nat where "FILE_CHUNK_SIZE = 32 * 1024"

definition MAX_SEND_BYTES :: nat where "MAX_SEND_BYTES = 20 * 1024 * 1024"

text \<open>The format \<open>{n:,}\<close>: decimal digits in groups of three.\<close>

fun comma_groups :: "string \<Rightarrow> string" where
  "comma_groups (a # b # c # d # r) = a # b # c # CHR '','' # comma_groups (d # r)"
| "comma_groups s = s"

definition comma_nat :: "nat \<Rightarrow> string" where
  "comma_nat n = rev (comma_groups (rev (nat_digits n)))"

definition validate_send_size :: "nat \<Rightarrow> unit res" where
  "validate_send_size nbytes =
     (if nbytes > MAX_SEND_BYTES
      then Err (ValueError (''file is '' @ comma_nat nbytes @ '' bytes - aimless caps attachments at ''
             @ comma_nat MAX_SEND_BYTES @ '' bytes''))
      else Ok ())"

section \<open>Values read from JSON\<close>

text \<open>The argument checks of \<open>bytes.fromhex\<close>, \<open>json.loads\<close> and integer arithmetic.\<close>

fun fromhex_json :: "json \<Rightarrow> bytes res" where
  "fromhex_json (JStr s) = fromhex s"
| "fromhex_json _ = Err (TypeError ''fromhex() argument must be str'')"

fun json_loads_json :: "json \<Rightarrow> json res" where
  "json_loads_json (JStr s) = json_loads s"
| "json_loads_json _ = Err (TypeError ''the JSON object must be str, bytes or bytearray'')"

fun json_int :: "json \<Rightarrow> int res" where
  "json_int (JInt i) = Ok i"
| "json_int (JBool b) = Ok (if b then 1 else 0)"
| "json_int _ = Err (TypeError ''an integer is required'')"

section \<open>File chunks\<close>

text \<open>\<open>uuid.uuid4().hex\<close> of sixteen fresh random bytes: version 4, variant 10.\<close>

definition new_transfer_id :: "bytes \<Rightarrow> string" where
  "new_transfer_id fresh =
     bytes_hex (take 6 fresh @ [of_nat (64 + unat (fresh ! 6) mod 16)] @ [fresh ! 7]
       @ [of_nat (128 + unat (fresh ! 8) mod 64)] @ drop 9 fresh)"

text \<open>\<open>struct.pack("<H", n)\<close>: little endian, refused above 65535.\<close>

definition pack_H :: "int \<Rightarrow> bytes res" where
  "pack_H n =
     (if 0 \<le> n \<and> n \<le> 65535 then Ok [of_nat (nat n mod 256), of_nat (nat n div 256)]
      else Err (StructError ''ushort format requires 0 <= number <= 65535''))"

definition unpack_H :: "8 word \<Rightarrow> 8 word \<Rightarrow> nat" where
  "unpack_H lo hi = unat lo + 256 * unat hi"

definition file_header :: "bytes \<Rightarrow> int \<Rightarrow> int \<Rightarrow> bytes res" where
  "file_header tid_bytes index tot =
     (if length tid_bytes \<noteq> 16 then Err (ValueError ''transfer id must be 16 bytes'')
      else if \<not> (0 \<le> index \<and> index < tot) then Err (ValueError ''chunk index out of range'')
      else bind_res (pack_H index) (\<lambda>i. bind_res (pack_H tot) (\<lambda>t. Ok (tid_bytes @ i @ t))))"

record file_payload =
  fp_tid :: bytes
  fp_index :: nat
  fp_total :: nat
  fp_sealed :: bytes

definition parse_file_payload :: "string \<Rightarrow> file_payload res" where
  "parse_file_payload payload_b64 =
     bind_res (b64decode payload_b64) (\<lambda>raw.
       if length raw < 20 then Err (ValueError ''truncated file payload'')
       else
         let tid = take 16 raw;
             index = unpack_H (raw ! 16) (raw ! 17);
             tot = unpack_H (raw ! 18) (raw ! 19)
         in if tot = 0 \<or> index \<ge> tot then Err (ValueError ''bad file chunk index/total'')
            else Ok \<lparr>fp_tid = tid, fp_index = index, fp_total = tot, fp_sealed = drop 20 raw\<rparr>)"

definition make_chunk ::
  "string \<Rightarrow> int \<Rightarrow> int \<Rightarrow> string \<Rightarrow> string \<Rightarrow> string \<Rightarrow> int \<Rightarrow> bytes \<Rightarrow> string option \<Rightarrow> (string, json) dict" where
  "make_chunk tid index tot filename mime_hint sha256 nbytes data conv =
     [(''transfer_id'', JStr tid), (''index'', JInt index), (''total'', JInt tot),
      (''filename'', JStr filename), (''mime_hint'', JStr mime_hint), (''sha256'', JStr sha256),
      (''size'', JInt nbytes), (''data'', JStr (b64encode data))]
     @ (case conv of None \<Rightarrow> [] | Some c \<Rightarrow> if c = [] then [] else [(''conv'', JStr c)])"

text \<open>A chunk map is a dict from index to data; \<open>None\<close> when a chunk is missing.\<close>

definition reassemble_file :: "(int, bytes) dict \<Rightarrow> int \<Rightarrow> bytes option" where
  "reassemble_file chunks tot =
     (if int (length chunks) \<noteq> tot \<or> list_ex (\<lambda>i. dict_get chunks i = None) [0..tot - 1] then None
      else Some (concat (map (\<lambda>i. the (dict_get chunks i)) [0..tot - 1])))"

section \<open>Signatures\<close>

definition sign :: "nacl \<Rightarrow> bytes \<Rightarrow> bytes \<Rightarrow> string" where
  "sign N identity body = b64encode (n_sign N identity (MAGIC @ body))"

definition verify_key_new :: "bytes \<Rightarrow> bytes res" where
  "verify_key_new key =
     (if length key = 32 then Ok key
      else Err (NaclValueError ''The key must be exactly 32 bytes long''))"

text \<open>
  The \<open>except\<close> clause catches \<open>ValueError\<close>, \<open>BadSignatureError\<close> and PyNaCl's \<open>ValueError\<close>;
  a \<open>TypeError\<close> from a field that is not a string passes through.
\<close>

definition verify :: "nacl \<Rightarrow> json \<Rightarrow> bytes \<Rightarrow> json \<Rightarrow> bool res" where
  "verify N from_hex body sig_b64 =
     (case bind_res (fromhex_json from_hex) (\<lambda>raw.
           bind_res (verify_key_new raw) (\<lambda>verify_key.
           bind_res (b64decode_json sig_b64) (\<lambda>sig.
           n_verify N verify_key (MAGIC @ body) sig))) of
        Ok _ \<Rightarrow> Ok True
      | Err e \<Rightarrow> if is_ValueError e \<or> e = BadSignatureError then Ok False else Err e)"

section \<open>Envelopes\<close>

definition seal_envelope :: "nacl \<Rightarrow> nat \<Rightarrow> bytes \<Rightarrow> string \<Rightarrow> string \<Rightarrow> json \<Rightarrow> bytes res" where
  "seal_envelope N d identity buddy_pubkey_hex kind body_obj =
     (let body = encode_utf8 (json_dumps_sorted body_obj);
          sig = sign N identity body;
          inner = encode_utf8 (json_dumps (JObj
            [(''v'', JInt 1), (''kind'', JStr kind), (''from'', JStr (bytes_hex (n_verify_key N identity))),
             (''body'', JStr (bytes_text body)), (''sig'', JStr sig)]))
      in bind_res (fromhex buddy_pubkey_hex) (\<lambda>buddy_key_bytes.
         bind_res (n_pk_to_curve N buddy_key_bytes) (\<lambda>curve_pk.
           Ok (n_seal N d curve_pk inner))))"

definition open_envelope ::
  "nacl \<Rightarrow> bytes \<Rightarrow> string \<Rightarrow> string \<Rightarrow> bytes res \<Rightarrow> (json \<times> json) res" where
  "open_envelope N identity kind malformed sealed =
     bind_res (curve_keys N identity) (\<lambda>(_, curve_sk).
     bind_res sealed (\<lambda>ct.
     bind_res (n_seal_open N curve_sk ct) (\<lambda>inner.
     bind_res (json_loads_bytes inner) (\<lambda>msg.
     bind_res (json_get msg ''kind'') (\<lambda>k.
       if k \<noteq> Some (JStr kind) \<or> \<not> is_ok (json_item msg ''from'')
          \<or> \<not> is_ok (json_item msg ''body'') \<or> \<not> is_ok (json_item msg ''sig'')
       then Err (ValueError malformed)
       else
         bind_res (json_item msg ''from'') (\<lambda>from_hex.
         bind_res (json_item msg ''body'') (\<lambda>body.
         bind_res (json_item msg ''sig'') (\<lambda>sig.
         bind_res (json_loads_json body) (\<lambda>body_obj.
         bind_res (verify N from_hex
             (case body of JStr b \<Rightarrow> encode_utf8 b | _ \<Rightarrow> []) sig) (\<lambda>good.
           if \<not> good then Err (ValueError ''bad signature'') else Ok (from_hex, body_obj)))))))))))"

section \<open>Messages\<close>

definition opt_field :: "string \<Rightarrow> json option \<Rightarrow> (string, json) dict" where
  "opt_field k v = (case v of None \<Rightarrow> [] | Some x \<Rightarrow> [(k, x)])"

text \<open>A falsy screen name is left out; \<open>conv\<close> and \<open>members\<close> are left out when \<open>None\<close>.\<close>

definition message_body ::
  "string \<Rightarrow> int \<Rightarrow> string option \<Rightarrow> string option \<Rightarrow> json option \<Rightarrow> (string, json) dict" where
  "message_body body_text ts screen conv members =
     [(''text'', JStr body_text), (''ts'', JInt ts)]
     @ (case screen of None \<Rightarrow> [] | Some s \<Rightarrow> if s = [] then [] else [(''screen'', JStr s)])
     @ opt_field ''conv'' (map_option JStr conv)
     @ opt_field ''members'' members"

definition seal_message ::
  "nacl \<Rightarrow> nat \<Rightarrow> bytes \<Rightarrow> string \<Rightarrow> string \<Rightarrow> int \<Rightarrow> string option \<Rightarrow> string option \<Rightarrow> json option \<Rightarrow> string res" where
  "seal_message N d identity buddy_pubkey_hex body_text ts screen conv members =
     bind_res (seal_envelope N d identity buddy_pubkey_hex ''msg''
        (JObj (message_body body_text ts screen conv members)))
       (\<lambda>sealed. Ok (b64encode sealed))"

definition copy_field :: "json \<Rightarrow> string \<Rightarrow> (string, json) dict" where
  "copy_field v k = (case json_item v k of Ok x \<Rightarrow> [(k, x)] | Err _ \<Rightarrow> [])"

definition open_message :: "nacl \<Rightarrow> bytes \<Rightarrow> string \<Rightarrow> (string, json) dict res" where
  "open_message N identity payload_b64 =
     bind_res (open_envelope N identity ''msg'' ''malformed message'' (b64decode payload_b64))
       (\<lambda>(from_hex, body_obj).
     bind_res (json_item body_obj ''text'') (\<lambda>body_text.
     bind_res (json_item body_obj ''ts'') (\<lambda>ts.
       Ok ([(''from'', from_hex), (''text'', body_text), (''ts'', ts)]
           @ copy_field body_obj ''screen'' @ copy_field body_obj ''conv''
           @ copy_field body_obj ''members''))))"

section \<open>Statuses\<close>

definition seal_status ::
  "nacl \<Rightarrow> nat \<Rightarrow> bytes \<Rightarrow> string \<Rightarrow> string \<Rightarrow> json \<Rightarrow> int \<Rightarrow> string res" where
  "seal_status N d identity buddy_pubkey_hex screen away ts =
     bind_res (seal_envelope N d identity buddy_pubkey_hex ''status''
        (JObj [(''screen'', JStr screen), (''away'', away), (''ts'', JInt ts)]))
       (\<lambda>sealed. Ok (b64encode sealed))"

definition open_status :: "nacl \<Rightarrow> bytes \<Rightarrow> string \<Rightarrow> (string, json) dict res" where
  "open_status N identity payload_b64 =
     bind_res (open_envelope N identity ''status'' ''malformed status'' (b64decode payload_b64))
       (\<lambda>(from_hex, body_obj).
     bind_res (json_item body_obj ''screen'') (\<lambda>screen.
     bind_res (json_item body_obj ''away'') (\<lambda>away.
     bind_res (json_item body_obj ''ts'') (\<lambda>ts.
       Ok [(''from'', from_hex), (''screen'', screen), (''away'', away), (''ts'', ts)]))))"

section \<open>Sealed chunks\<close>

definition seal_file_chunk ::
  "nacl \<Rightarrow> nat \<Rightarrow> bytes \<Rightarrow> string \<Rightarrow> (string, json) dict \<Rightarrow> bytes res" where
  "seal_file_chunk N d identity buddy_pubkey_hex chunk =
     seal_envelope N d identity buddy_pubkey_hex ''file'' (JObj chunk)"

text \<open>\<open>chunk["from"] = ...\<close> on a body that is not a dict is a \<open>TypeError\<close>.\<close>

definition open_file_chunk :: "nacl \<Rightarrow> bytes \<Rightarrow> bytes \<Rightarrow> (string, json) dict res" where
  "open_file_chunk N identity sealed =
     bind_res (open_envelope N identity ''file'' ''malformed file chunk'' (Ok sealed))
       (\<lambda>(from_hex, chunk).
          case chunk of
            JObj kvs \<Rightarrow> Ok (dict_set ''from'' from_hex kvs)
          | _ \<Rightarrow> Err (TypeError ''object does not support item assignment''))"

definition build_file_payload ::
  "nacl \<Rightarrow> nat \<Rightarrow> bytes \<Rightarrow> string \<Rightarrow> (string, json) dict \<Rightarrow> string res" where
  "build_file_payload N d identity recipient_pubkey_hex chunk =
     bind_res (seal_file_chunk N d identity recipient_pubkey_hex chunk) (\<lambda>sealed.
     bind_res (json_item (JObj chunk) ''transfer_id'') (\<lambda>tid.
     bind_res (fromhex_json tid) (\<lambda>tid_bytes.
     bind_res (bind_res (json_item (JObj chunk) ''index'') json_int) (\<lambda>index.
     bind_res (bind_res (json_item (JObj chunk) ''total'') json_int) (\<lambda>tot.
     bind_res (file_header tid_bytes index tot) (\<lambda>header.
       Ok (b64encode (header @ sealed))))))))"

section \<open>Rooms, contacts and invites\<close>

definition room_id :: "nacl \<Rightarrow> string list \<Rightarrow> string" where
  "room_id N member_nodes = bytes_hex (n_sha256 N (encode_utf8 (py_join ''|'' (sort member_nodes))))"

definition save_contacts :: "string \<Rightarrow> (string, json) dict \<Rightarrow> fs \<Rightarrow> fs" where
  "save_contacts path contacts s =
     run_ops (atomic_ops path (encode_utf8 (json_dumps_indent (JObj contacts))) 420) s"

definition load_contacts :: "string \<Rightarrow> fs \<Rightarrow> json res" where
  "load_contacts path s =
     (if \<not> os_exists path s then Ok (JObj [])
      else bind_res (os_read path s) json_loads_bytes)"

definition make_invite :: "nacl \<Rightarrow> bytes \<Rightarrow> string \<Rightarrow> string \<Rightarrow> string res" where
  "make_invite N identity node_pubkey_hex screen_name =
     (let client_key = b58encode (n_verify_key N identity)
      in bind_res (fromhex node_pubkey_hex) (\<lambda>node_bytes.
           Ok (INVITE_PREFIX @ client_key @ '':'' @ b58encode node_bytes @ '':'' @ screen_name)))"

definition decode_key_field :: "string \<Rightarrow> string \<Rightarrow> bytes res" where
  "decode_key_field field label =
     (if length field = 64 \<and> list_all (\<lambda>c. c \<in> set ''0123456789abcdefABCDEF'') field
      then bind_res (fromhex field) (\<lambda>key.
        if length key \<noteq> 32 then Err (ValueError (label @ '' must be 64 hex chars'')) else Ok key)
      else
        case b58decode field of
          Err e \<Rightarrow>
            if is_ValueError e
            then Err (ValueError (label @ '' is neither valid hex nor base58: '' @ exn_str e))
            else Err e
        | Ok key \<Rightarrow>
            if length key \<noteq> 32 then Err (ValueError (label @ '' must decode to 32 bytes'')) else Ok key)"

definition parse_invite :: "string \<Rightarrow> (string \<times> string \<times> string) res" where
  "parse_invite raw_invite =
     (let invite = py_strip raw_invite
      in if \<not> prefix INVITE_PREFIX invite then Err (ValueError (''invite must start with '' @ INVITE_PREFIX))
         else case py_split (CHR '':'') (drop (length INVITE_PREFIX) invite) of
           [client_field, node_field, screen_name] \<Rightarrow>
             bind_res (decode_key_field client_field ''client key'') (\<lambda>client_bytes.
             bind_res (decode_key_field node_field ''node key'') (\<lambda>node_bytes.
               if screen_name = [] then Err (ValueError ''missing screen name'')
               else Ok (bytes_hex client_bytes, bytes_hex node_bytes, screen_name)))
         | _ \<Rightarrow> Err (ValueError ''invite must be aimless1:<client-pk>:<node-pk>:<screen-name>''))"

section \<open>Sorted objects\<close>

lemma distinct_map_sort_key: "distinct (map f (sort_key g xs)) \<longleftrightarrow> distinct (map f xs)"
  by (metis mset_map mset_sort mset_eq_imp_distinct_iff)

lemma map_of_sort_key: "distinct (map fst kvs) \<Longrightarrow> map_of (sort_key fst kvs) = map_of kvs"
  by (subst map_of_inject_set) (simp_all add: distinct_map_sort_key)

lemma map_of_map_snd: "map_of (map (\<lambda>(k, v). (k, f v)) kvs) k = map_option f (map_of kvs k)"
  by (induction kvs) auto

lemma map_fst_map_snd: "map fst (map (\<lambda>(k, v). (k, f v)) kvs) = map fst kvs"
  by (induction kvs) auto

lemma valid_json_sort: "valid_json v \<Longrightarrow> valid_json (json_sort v)"
proof (induction v)
  case (JObj kvs)
  have "distinct (map fst (sort_key fst (map (\<lambda>(k, v). (k, json_sort v)) kvs)))"
    using JObj.prems by (simp only: distinct_map_sort_key map_fst_map_snd) simp
  moreover have "list_all (\<lambda>(k, v). valid_str k \<and> valid_json v)
      (sort_key fst (map (\<lambda>(k, v). (k, json_sort v)) kvs))"
    using JObj by (fastforce simp: list_all_iff)
  ultimately show ?case by simp
qed (auto simp: list_all_iff)

lemma json_item_sort:
  assumes "valid_json (JObj kvs)"
  shows "json_item (json_sort (JObj kvs)) k =
    (case map_of kvs k of None \<Rightarrow> Err (KeyError k) | Some v \<Rightarrow> Ok (json_sort v))"
proof -
  have "distinct (map fst (map (\<lambda>(k, v). (k, json_sort v)) kvs))"
    using assms by (simp only: map_fst_map_snd) simp
  then show ?thesis
    by (simp add: map_of_sort_key map_of_map_snd split: option.split)
qed

lemma valid_str_dumps: "valid_json v \<Longrightarrow> valid_str (json_dumps v)"
  using ascii_json_print [of v False 0] by (simp add: valid_str_lit json_dumps_def)

lemma valid_str_hex [simp]: "valid_str (bytes_hex bs)"
proof (rule valid_str_lit, rule ascii_subset [OF bytes_hex_chars])
  show "ascii hex_digits" by (simp add: hex_digits_def)
qed

section \<open>Envelopes open for their recipient\<close>

lemma verify_sign:
  assumes "nacl_ok N" and "length identity = 32"
  shows "verify N (JStr (bytes_hex (n_verify_key N identity))) body (JStr (sign N identity body)) = Ok True"
  using assms
  by (simp add: verify_def fromhex_hex verify_key_new_def nacl_okD sign_def b64decode_encode)

lemma open_seal_envelope:
  assumes N: "nacl_ok N" and me: "length identity = 32" and buddy: "length buddy = 32"
    and obj: "valid_json body_obj" and kind: "valid_str kind"
  obtains sealed where
    "seal_envelope N d identity (bytes_hex (n_verify_key N buddy)) kind body_obj = Ok sealed"
    and "\<And>m. open_envelope N buddy kind m (Ok sealed)
           = Ok (JStr (bytes_hex (n_verify_key N identity)), json_sort body_obj)"
proof -
  obtain cpk where curve: "n_pk_to_curve N (n_verify_key N buddy) = Ok cpk"
    and unseal: "\<And>d m. n_seal_open N (n_sk_to_curve N (buddy @ n_verify_key N buddy)) (n_seal N d cpk m) = Ok m"
    using nacl_ok_seal [OF N buddy] by blast
  have body: "valid_str (json_dumps_sorted body_obj)" "json_loads (json_dumps_sorted body_obj) = Ok (json_sort body_obj)"
    using valid_json_sort [OF obj] by (simp_all add: json_dumps_sorted_def valid_str_dumps json_loads_dumps)
  let ?sig = "sign N identity (encode_utf8 (json_dumps_sorted body_obj))"
  have sig: "valid_str ?sig" by (simp add: sign_def)
  let ?inner = "JObj [(''v'', JInt 1), (''kind'', JStr kind),
      (''from'', JStr (bytes_hex (n_verify_key N identity))),
      (''body'', JStr (json_dumps_sorted body_obj)), (''sig'', JStr ?sig)]"
  have inner: "json_loads_bytes (encode_utf8 (json_dumps ?inner)) = Ok ?inner"
    using body sig kind by (intro json_loads_bytes_dumps) (simp add: valid_str_lit)
  show thesis
  proof (rule that)
    show "seal_envelope N d identity (bytes_hex (n_verify_key N buddy)) kind body_obj
        = Ok (n_seal N d cpk (encode_utf8 (json_dumps ?inner)))"
      by (simp add: seal_envelope_def Let_def fromhex_hex curve)
    show "open_envelope N buddy kind m (Ok (n_seal N d cpk (encode_utf8 (json_dumps ?inner))))
        = Ok (JStr (bytes_hex (n_verify_key N identity)), json_sort body_obj)" for m
      using body verify_sign [OF N me]
      by (simp add: open_envelope_def curve_keys_def curve unseal inner)
  qed
qed

lemma message_body_valid:
  assumes "valid_str body_text" and "\<And>s. screen = Some s \<Longrightarrow> valid_str s"
    and "\<And>c. conv = Some c \<Longrightarrow> valid_str c" and "\<And>m. members = Some m \<Longrightarrow> valid_json m"
  shows "valid_json (JObj (message_body body_text ts screen conv members))"
  using assms by (cases screen; cases conv; cases members) (simp_all add: message_body_def opt_field_def valid_str_lit)

text \<open>What a recipient reads from a message: the fields sent, objects sorted by key.\<close>

definition opened_message ::
  "string \<Rightarrow> string \<Rightarrow> int \<Rightarrow> string option \<Rightarrow> string option \<Rightarrow> json option \<Rightarrow> (string, json) dict" where
  "opened_message from_hex body_text ts screen conv members =
     [(''from'', JStr from_hex), (''text'', JStr body_text), (''ts'', JInt ts)]
     @ opt_field ''screen'' (if screen = Some [] then None else map_option JStr screen)
     @ opt_field ''conv'' (map_option JStr conv)
     @ opt_field ''members'' (map_option json_sort members)"

lemma open_seal_message:
  assumes N: "nacl_ok N" and me: "length identity = 32" and buddy: "length buddy = 32"
    and obj: "valid_json (JObj (message_body body_text ts screen conv members))"
  obtains payload where
    "seal_message N d identity (bytes_hex (n_verify_key N buddy)) body_text ts screen conv members = Ok payload"
    and "open_message N buddy payload
      = Ok (opened_message (bytes_hex (n_verify_key N identity)) body_text ts screen conv members)"
proof -
  have kind: "valid_str ''msg''" by (simp add: valid_str_lit)
  obtain sealed where
      seal: "seal_envelope N d identity (bytes_hex (n_verify_key N buddy)) ''msg''
        (JObj (message_body body_text ts screen conv members)) = Ok sealed"
    and unseal: "\<And>m. open_envelope N buddy ''msg'' m (Ok sealed) = Ok (JStr (bytes_hex (n_verify_key N identity)),
        json_sort (JObj (message_body body_text ts screen conv members)))"
    using open_seal_envelope [OF N me buddy obj kind] by blast
  show thesis
  proof (rule that)
    show "seal_message N d identity (bytes_hex (n_verify_key N buddy)) body_text ts screen conv members
        = Ok (b64encode sealed)"
      by (simp add: seal_message_def seal)
    show "open_message N buddy (b64encode sealed)
        = Ok (opened_message (bytes_hex (n_verify_key N identity)) body_text ts screen conv members)"
      by (simp add: open_message_def b64decode_encode unseal json_item_sort [OF obj] copy_field_def
          del: json_sort.simps)
         (auto simp: message_body_def opt_field_def opened_message_def split: option.splits)
  qed
qed

text \<open>Only what a signature of the named sender covers is ever returned.\<close>

lemma verify_True:
  assumes "verify N from_hex body sig = Ok True"
  obtains h key s where "from_hex = JStr h" "fromhex h = Ok key" "length key = 32"
    "n_verify N key (MAGIC @ body) s = Ok ()"
proof -
  from assms obtain u where run: "bind_res (fromhex_json from_hex) (\<lambda>raw.
      bind_res (verify_key_new raw) (\<lambda>verify_key.
      bind_res (b64decode_json sig) (\<lambda>sig. n_verify N verify_key (MAGIC @ body) sig))) = Ok u"
    by (auto simp: verify_def split: res.splits if_splits)
  then obtain key s where key: "fromhex_json from_hex = Ok key" "length key = 32"
    and ver: "n_verify N key (MAGIC @ body) s = Ok ()"
    by (auto simp: verify_key_new_def elim!: bind_res_Ok split: if_splits)
  from key(1) obtain h where "from_hex = JStr h" "fromhex h = Ok key"
    by (cases from_hex) auto
  with key ver that show thesis by blast
qed

lemma open_envelope_authentic:
  assumes "open_envelope N identity kind m sealed = Ok (from_hex, body_obj)"
  obtains h key body s where "from_hex = JStr h" "fromhex h = Ok key" "length key = 32"
    "n_verify N key (MAGIC @ encode_utf8 body) s = Ok ()" "json_loads body = Ok body_obj"
proof -
  from assms obtain body sig where ver: "verify N from_hex
        (case body of JStr b \<Rightarrow> encode_utf8 b | _ \<Rightarrow> []) sig = Ok True"
    and load: "json_loads_json body = Ok body_obj"
    by (auto simp: open_envelope_def elim!: bind_res_Ok split: if_splits)
  from load obtain b where "body = JStr b" "json_loads b = Ok body_obj" by (cases body) auto
  with ver that show thesis by (auto elim: verify_True)
qed

section \<open>Chunk headers and reassembly\<close>

lemma unpack_pack_H:
  assumes "pack_H n = Ok bs"
  obtains lo hi where "bs = [lo, hi]" "int (unpack_H lo hi) = n"
proof -
  from assms have n: "0 \<le> n" "n \<le> 65535"
    and bs: "bs = [of_nat (nat n mod 256), of_nat (nat n div 256)]"
    by (auto simp: pack_H_def split: if_splits)
  from n have "nat n div 256 < 256" by (simp add: less_mult_imp_div_less nat_le_iff)
  then have "unat (of_nat (nat n div 256) :: 8 word) = nat n div 256"
    by (simp add: unat_of_nat)
  moreover have "unat (of_nat (nat n mod 256) :: 8 word) = nat n mod 256"
    by (simp add: unat_of_nat)
  ultimately have "unpack_H (of_nat (nat n mod 256)) (of_nat (nat n div 256)) = nat n"
    by (simp only: unpack_H_def mod_mult_div_eq)
  with n bs that show thesis by simp
qed

lemma pack_H_ok: "0 \<le> n \<Longrightarrow> n \<le> 65535 \<Longrightarrow> \<exists>bs. pack_H n = Ok bs"
  by (simp add: pack_H_def)

lemma parse_file_header:
  assumes tid: "length tid = 16" and index: "0 \<le> index" "index < tot" and tot: "tot \<le> 65535"
  obtains header where "file_header tid index tot = Ok header"
    and "\<And>sealed. parse_file_payload (b64encode (header @ sealed)) =
      Ok \<lparr>fp_tid = tid, fp_index = nat index, fp_total = nat tot, fp_sealed = sealed\<rparr>"
proof -
  from index tot obtain bi bt where packs: "pack_H index = Ok bi" "pack_H tot = Ok bt"
    using pack_H_ok [of index] pack_H_ok [of tot] by auto
  obtain li hi where i: "bi = [li, hi]" "int (unpack_H li hi) = index"
    using unpack_pack_H [OF packs(1)] by blast
  obtain lt ht where t: "bt = [lt, ht]" "int (unpack_H lt ht) = tot"
    using unpack_pack_H [OF packs(2)] by blast
  from i(2) t(2) index have parsed:
    "nat index = unpack_H li hi" "nat tot = unpack_H lt ht" "unpack_H li hi < unpack_H lt ht" by auto
  show thesis
  proof (rule that)
    show "file_header tid index tot = Ok (tid @ bi @ bt)"
      using tid index packs by (simp add: file_header_def)
    show "parse_file_payload (b64encode ((tid @ bi @ bt) @ sealed)) =
        Ok \<lparr>fp_tid = tid, fp_index = nat index, fp_total = nat tot, fp_sealed = sealed\<rparr>" for sealed
      using tid parsed by (simp add: parse_file_payload_def b64decode_encode i(1) t(1) nth_append Let_def)
  qed
qed

lemma make_chunk_valid:
  assumes "valid_str tid" "valid_str filename" "valid_str mime_hint" "valid_str sha256"
    and "\<And>c. conv = Some c \<Longrightarrow> valid_str c"
  shows "valid_json (JObj (make_chunk tid index tot filename mime_hint sha256 nbytes data conv))"
  using assms by (cases conv) (simp_all add: make_chunk_def valid_str_lit)

lemma make_chunk_scalar:
  "dict_get (make_chunk tid index tot filename mime_hint sha256 nbytes data conv) k = Some v \<Longrightarrow> json_sort v = v"
  by (auto simp: make_chunk_def split: option.splits if_splits)

lemma map_of_json_sort:
  assumes "valid_json (JObj kvs)"
  obtains kvs' where "json_sort (JObj kvs) = JObj kvs'" "\<And>k. map_of kvs' k = map_option json_sort (map_of kvs k)"
proof (rule that)
  show "json_sort (JObj kvs) = JObj (sort_key fst (map (\<lambda>(k, v). (k, json_sort v)) kvs))" by simp
  have "distinct (map fst (map (\<lambda>(k, v). (k, json_sort v)) kvs))"
    using assms by (simp only: map_fst_map_snd) simp
  then show "map_of (sort_key fst (map (\<lambda>(k, v). (k, json_sort v)) kvs)) k
      = map_option json_sort (map_of kvs k)" for k
    by (simp add: map_of_sort_key map_of_map_snd)
qed

lemma open_seal_chunk:
  assumes N: "nacl_ok N" and me: "length identity = 32" and buddy: "length buddy = 32"
    and obj: "valid_json (JObj chunk)" and scalar: "\<And>k v. dict_get chunk k = Some v \<Longrightarrow> json_sort v = v"
  obtains sealed opened where
    "seal_file_chunk N d identity (bytes_hex (n_verify_key N buddy)) chunk = Ok sealed"
    and "open_file_chunk N buddy sealed = Ok opened"
    and "\<And>k. dict_get opened k =
      (if k = ''from'' then Some (JStr (bytes_hex (n_verify_key N identity))) else dict_get chunk k)"
proof -
  have kind: "valid_str ''file''" by (simp add: valid_str_lit)
  obtain sealed where seal: "seal_envelope N d identity (bytes_hex (n_verify_key N buddy)) ''file'' (JObj chunk) = Ok sealed"
    and unseal: "\<And>m. open_envelope N buddy ''file'' m (Ok sealed) =
      Ok (JStr (bytes_hex (n_verify_key N identity)), json_sort (JObj chunk))"
    using open_seal_envelope [OF N me buddy obj kind] by blast
  obtain kvs where kvs: "json_sort (JObj chunk) = JObj kvs"
    "\<And>k. map_of kvs k = map_option json_sort (map_of chunk k)"
    using map_of_json_sort [OF obj] by blast
  from kvs(2) scalar have same: "map_of kvs k = map_of chunk k" for k
    by (cases "map_of chunk k") auto
  from that [of sealed "dict_set ''from'' (JStr (bytes_hex (n_verify_key N identity))) kvs"] show thesis
    by (simp add: seal_file_chunk_def seal open_file_chunk_def unseal kvs(1) same dict_get_set del: json_sort.simps)
qed

text \<open>Chunks arrive in any order, any number of times.\<close>

definition arrivals :: "(int \<times> bytes) list \<Rightarrow> (int, bytes) dict" where
  "arrivals arr = fold (\<lambda>(i, d). dict_set i d) arr []"

lemma arrivals_get:
  assumes "\<And>i d. (i, d) \<in> set arr \<Longrightarrow> d = part i"
  shows "dict_get (arrivals arr) i = (if i \<in> fst ` set arr then Some (part i) else None)"
  using assms
proof (induction arr rule: rev_induct)
  case (snoc a arr)
  obtain j d where a: "a = (j, d)" by (cases a)
  have "dict_get (arrivals arr) i = (if i \<in> fst ` set arr then Some (part i) else None)"
    using snoc by (auto intro: snoc.IH)
  with a snoc.prems [of j d] show ?case by (auto simp: arrivals_def dict_get_set)
qed (simp add: arrivals_def)

lemma wf_arrivals: "wf_dict (arrivals arr)"
  unfolding arrivals_def by (rule dict.wf_fold_put) simp

lemma reassemble_arrivals:
  assumes idx: "\<And>i d. (i, d) \<in> set arr \<Longrightarrow> 0 \<le> i \<and> i < int (length parts) \<and> d = parts ! nat i"
  shows "reassemble_file (arrivals arr) (int (length parts)) =
    (if fst ` set arr = {0..<int (length parts)} then Some (concat parts) else None)"
proof -
  let ?D = "arrivals arr" and ?n = "length parts"
  have get: "dict_get ?D i = (if i \<in> fst ` set arr then Some (parts ! nat i) else None)" for i
    using idx by (intro arrivals_get) blast
  have sub: "fst ` set arr \<subseteq> {0..<int ?n}" using idx by fastforce
  have range: "set [0..int ?n - 1] = {0..<int ?n}" by auto
  have "fst ` set ?D = fst ` set arr"
    using get by (simp add: map_of_eq_None_iff set_eq_iff flip: not_None_eq) (metis option.distinct(1) map_of_eq_None_iff)
  moreover have "length ?D = card (fst ` set ?D)"
    using distinct_card [OF wf_arrivals [of arr]] by simp
  ultimately have len: "length ?D = card (fst ` set arr)" by simp
  show ?thesis
  proof (cases "fst ` set arr = {0..<int ?n}")
    case True
    have "map (\<lambda>i. the (dict_get ?D i)) [0..int ?n - 1] = parts"
      using True by (intro nth_equalityI) (simp_all add: get)
    with True len show ?thesis
      by (simp add: reassemble_file_def list_ex_iff get flip: range)
  next
    case False
    with sub obtain i where "i \<in> {0..<int ?n}" "i \<notin> fst ` set arr" by blast
    with False range show ?thesis
      by (auto simp: reassemble_file_def list_ex_iff get)
  qed
qed

section \<open>Invites\<close>

lemma b58encode_chars: "set (b58encode bs) \<subseteq> set b58_alphabet"
  using b58decode_is_ok [of "b58encode bs"] by (simp add: b58_roundtrip)

lemma colon_not_b58: "CHR '':'' \<notin> set (b58encode bs)"
proof -
  have "CHR '':'' \<notin> set b58_alphabet" by (simp add: b58_alphabet_def)
  with b58encode_chars show ?thesis by blast
qed

lemma decode_key_field_b58: "length key = 32 \<Longrightarrow> decode_key_field (b58encode key) label = Ok key"
  using length_b58encode_key [of key] by (simp add: decode_key_field_def b58_roundtrip)

text \<open>A key may also be given as 64 hex digits.\<close>

lemma decode_key_field_hex: "length key = 32 \<Longrightarrow> decode_key_field (bytes_hex key) label = Ok key"
proof -
  have "''0123456789abcdefABCDEF'' = hex_digits @ ''ABCDEF''" by (simp add: hex_digits_def)
  then have "list_all (\<lambda>c. c \<in> set ''0123456789abcdefABCDEF'') (bytes_hex key)"
    using bytes_hex_chars [of key] unfolding list_all_iff by (metis Un_iff set_append subsetD)
  then show "length key = 32 \<Longrightarrow> ?thesis" by (simp add: decode_key_field_def fromhex_hex)
qed

lemma strip_invite:
  assumes "py_rstrip screen = screen"
  shows "py_strip (INVITE_PREFIX @ t @ CHR '':'' # screen) = INVITE_PREFIX @ t @ CHR '':'' # screen"
proof -
  have "list_all (\<lambda>w. hd w \<noteq> CHR ''a'') py_spaces" by (simp add: py_spaces_def)
  then have "hd w \<noteq> CHR ''a''" if "w \<in> set py_spaces" for w using that by (simp add: list_all_iff)
  then have "py_lstrip (CHR ''a'' # s) = CHR ''a'' # s" for s by (rule py_lstrip_Cons)
  then have "py_lstrip (INVITE_PREFIX @ t @ CHR '':'' # screen) = INVITE_PREFIX @ t @ CHR '':'' # screen"
    by (simp add: INVITE_PREFIX_def)
  with py_rstrip_append [OF assms, of "INVITE_PREFIX @ t"] show ?thesis by (simp add: py_strip_def)
qed

lemma parse_make_invite:
  assumes id: "nacl_ok N" "length identity = 32" and node: "length node = 32"
    and screen: "screen \<noteq> []" "CHR '':'' \<notin> set screen" "py_rstrip screen = screen"
  shows "bind_res (make_invite N identity (bytes_hex node) screen) parse_invite
    = Ok (bytes_hex (n_verify_key N identity), bytes_hex node, screen)"
proof -
  let ?c = "b58encode (n_verify_key N identity)" and ?n = "b58encode node"
  have "py_split (CHR '':'') (?c @ CHR '':'' # ?n @ CHR '':'' # screen) = [?c, ?n, screen]"
    using screen(2) by (simp add: py_split_append py_split_plain colon_not_b58)
  moreover have "py_strip (INVITE_PREFIX @ ?c @ CHR '':'' # ?n @ CHR '':'' # screen)
      = INVITE_PREFIX @ ?c @ CHR '':'' # ?n @ CHR '':'' # screen"
    using strip_invite [OF screen(3), of "?c @ CHR '':'' # ?n"] by simp
  ultimately show ?thesis
    using id node screen(1)
    by (simp add: make_invite_def parse_invite_def Let_def fromhex_hex decode_key_field_b58 nacl_okD)
qed

text \<open>A screen name with a colon makes an invite that no peer can parse.\<close>

lemma parse_invite_colon:
  assumes "CHR '':'' \<in> set screen" and "py_rstrip screen = screen"
  shows "bind_res (make_invite N identity (bytes_hex node) screen) parse_invite =
    Err (ValueError ''invite must be aimless1:<client-pk>:<node-pk>:<screen-name>'')"
proof -
  let ?c = "b58encode (n_verify_key N identity)" and ?n = "b58encode node"
  let ?rest = "?c @ CHR '':'' # ?n @ CHR '':'' # screen"
  have "py_split (CHR '':'') ?rest = ?c # ?n # py_split (CHR '':'') screen"
    by (simp add: py_split_append colon_not_b58)
  moreover have "length (py_split (CHR '':'') screen) > 1"
    using assms(1) by (simp add: length_py_split count_list_0_iff zero_less_iff_neq_zero)
  ultimately obtain a b r where "py_split (CHR '':'') ?rest = ?c # ?n # a # b # r"
    by (cases "py_split (CHR '':'') screen" rule: remdups_adj.cases) auto
  moreover have "py_strip (INVITE_PREFIX @ ?rest) = INVITE_PREFIX @ ?rest"
    using strip_invite [OF assms(2), of "?c @ CHR '':'' # ?n"] by simp
  ultimately show ?thesis
    by (simp add: make_invite_def parse_invite_def Let_def fromhex_hex)
qed

text \<open>Whatever is accepted as an invite names two 32-byte keys and a screen name without colon.\<close>

lemma decode_key_field_length: "decode_key_field field label = Ok key \<Longrightarrow> length key = 32"
  by (auto simp: decode_key_field_def elim!: bind_res_Ok split: res.splits if_splits)

lemma py_split_parts: "p \<in> set (py_split c s) \<Longrightarrow> c \<notin> set p"
  by (induction s arbitrary: p rule: py_split.induct) (auto split: list.splits if_splits)

lemma parse_invite_sound:
  assumes "parse_invite invite = Ok (client, node, screen)"
  shows "length client = 64 \<and> length node = 64 \<and> set (client @ node) \<subseteq> set hex_digits \<and>
    screen \<noteq> [] \<and> CHR '':'' \<notin> set screen"
proof -
  let ?rest = "drop (length INVITE_PREFIX) (py_strip invite)"
  from assms obtain f g c n where split: "py_split (CHR '':'') ?rest = [f, g, screen]"
    and keys: "decode_key_field f ''client key'' = Ok c" "decode_key_field g ''node key'' = Ok n"
    and out: "client = bytes_hex c" "node = bytes_hex n" "screen \<noteq> []"
    by (auto simp: parse_invite_def Let_def elim!: bind_res_Ok split: list.splits if_splits)
  from split have "CHR '':'' \<notin> set screen"
    using py_split_parts [of screen "CHR '':''" ?rest] by simp
  with keys out show ?thesis
    using bytes_hex_chars by (auto simp: decode_key_field_length)
qed

section \<open>Room identifiers\<close>

lemma sort_mset: "mset ms = mset ms' \<Longrightarrow> sort ms = sort ms'"
  by (metis mset_sort properties_for_sort sorted_sort)

lemma py_split_join:
  "ss \<noteq> [] \<Longrightarrow> (\<And>s. s \<in> set ss \<Longrightarrow> c \<notin> set s) \<Longrightarrow> py_split c (py_join [c] ss) = ss"
  by (induction "[c]" ss rule: py_join.induct) (simp_all add: py_split_plain py_split_append)

lemma py_join_inj:
  assumes "\<And>s. s \<in> set ss \<union> set ss' \<Longrightarrow> s \<noteq> [] \<and> c \<notin> set s" and "py_join [c] ss = py_join [c] ss'"
  shows "ss = ss'"
proof -
  have nonempty: "py_join [c] xs \<noteq> []" if "xs \<noteq> []" "\<And>s. s \<in> set xs \<Longrightarrow> s \<noteq> []" for xs
    using that by (cases xs rule: remdups_adj.cases) auto
  show ?thesis
  proof (cases "ss = [] \<or> ss' = []")
    case True
    with assms nonempty [of ss] nonempty [of ss'] show ?thesis by fastforce
  next
    case False
    with assms py_split_join [of ss c] py_split_join [of ss' c] show ?thesis by fastforce
  qed
qed

section \<open>Properties\<close>

text \<open>
  C1: a message sealed for a buddy is opened by that buddy with the sender's key, text, time,
  screen name, conversation and members as sent (a falsy screen name is dropped, objects come
  back sorted by key).
\<close>

theorem message_roundtrip:
  assumes "nacl_ok N" and "length identity = 32" and "length buddy = 32"
    and "valid_json (JObj (message_body body_text ts screen conv members))"
  shows "\<exists>payload. seal_message N d identity (bytes_hex (n_verify_key N buddy)) body_text ts screen conv members
      = Ok payload \<and>
    open_message N buddy payload
      = Ok (opened_message (bytes_hex (n_verify_key N identity)) body_text ts screen conv members)"
  using open_seal_message [OF assms] by metis

theorem message_roundtrip_witness:
  "\<exists>payload. seal_message plain_nacl 0 (replicate 32 1) (bytes_hex (n_verify_key plain_nacl (replicate 32 2)))
      ''hi'' 7 (Some ''ann'') None (Some (JObj [(''b'', JInt 2), (''a'', JInt 1)])) = Ok payload \<and>
    open_message plain_nacl (replicate 32 2) payload
      = Ok [(''from'', JStr (bytes_hex (replicate 32 1))), (''text'', JStr ''hi''), (''ts'', JInt 7),
            (''screen'', JStr ''ann''), (''members'', JObj [(''a'', JInt 1), (''b'', JInt 2)])]"
proof -
  have "valid_json (JObj (message_body ''hi'' 7 (Some ''ann'') None (Some (JObj [(''b'', JInt 2), (''a'', JInt 1)]))))"
    by (rule message_body_valid) (auto simp: valid_str_lit)
  then show ?thesis
    using message_roundtrip [OF plain_nacl_ok, of "replicate 32 1" "replicate 32 2" "''hi''" 7 "Some ''ann''" None
        "Some (JObj [(''b'', JInt 2), (''a'', JInt 1)])" 0]
    by (simp add: opened_message_def opt_field_def plain_nacl_def)
qed

text \<open>
  C2: nothing is taken from a message that its claimed sender did not sign: every field the
  client reads comes from a JSON text on which the key named in \<open>from\<close> has a valid signature.
\<close>

theorem message_authentic:
  assumes "open_message N identity payload = Ok out"
  shows "\<exists>h key body s body_obj. dict_get out ''from'' = Some (JStr h) \<and> fromhex h = Ok key \<and> length key = 32 \<and>
    n_verify N key (MAGIC @ encode_utf8 body) s = Ok () \<and> json_loads body = Ok body_obj \<and>
    list_all (\<lambda>k. dict_get out k = (case json_item body_obj k of Ok v \<Rightarrow> Some v | Err _ \<Rightarrow> None))
      [''text'', ''ts'', ''screen'', ''conv'', ''members'']"
proof -
  from assms obtain from_hex body_obj body_text ts where
      env: "open_envelope N identity ''msg'' ''malformed message'' (b64decode payload) = Ok (from_hex, body_obj)"
    and fields: "json_item body_obj ''text'' = Ok body_text" "json_item body_obj ''ts'' = Ok ts"
    and out: "out = [(''from'', from_hex), (''text'', body_text), (''ts'', ts)]
      @ copy_field body_obj ''screen'' @ copy_field body_obj ''conv'' @ copy_field body_obj ''members''"
    by (auto simp: open_message_def elim!: bind_res_Ok)
  have copies: "list_all (\<lambda>k. dict_get out k = (case json_item body_obj k of Ok v \<Rightarrow> Some v | Err _ \<Rightarrow> None))
      [''text'', ''ts'', ''screen'', ''conv'', ''members'']"
    by (simp add: out fields copy_field_def split: res.splits)
  from env obtain h key body s where "from_hex = JStr h" "fromhex h = Ok key" "length key = 32"
      "n_verify N key (MAGIC @ encode_utf8 body) s = Ok ()" "json_loads body = Ok body_obj"
    by (rule open_envelope_authentic)
  with copies out show ?thesis by fastforce
qed

theorem message_authentic_witness:
  "\<exists>payload out h key body s. open_message plain_nacl (replicate 32 2) payload = Ok out \<and>
     dict_get out ''from'' = Some (JStr h) \<and> fromhex h = Ok key \<and>
     n_verify plain_nacl key (MAGIC @ encode_utf8 body) s = Ok ()"
proof -
  have obj: "valid_json (JObj (message_body ''hi'' 7 None None None))"
    by (rule message_body_valid) (auto simp: valid_str_lit)
  obtain payload where "open_message plain_nacl (replicate 32 2) payload =
      Ok (opened_message (bytes_hex (n_verify_key plain_nacl (replicate 32 1))) ''hi'' 7 None None None)"
    using open_seal_message [OF plain_nacl_ok _ _ obj, of "replicate 32 1" "replicate 32 2"] by auto
  with message_authentic [OF this] show ?thesis by blast
qed

lemma payload_opens:
  assumes "nacl_ok N" and "length identity = 32" and "length buddy = 32" and "length tid = 16"
    and "0 \<le> index" and "index < tot" and "tot \<le> 65535"
    and "valid_str filename" and "valid_str mime_hint" and "valid_str sha256" and "pred_option valid_str conv"
    and chunk_def: "chunk = make_chunk (bytes_hex tid) index tot filename mime_hint sha256 nbytes data conv"
  shows "\<exists>payload sealed opened.
    build_file_payload N d identity (bytes_hex (n_verify_key N buddy)) chunk = Ok payload \<and>
    parse_file_payload payload = Ok \<lparr>fp_tid = tid, fp_index = nat index, fp_total = nat tot, fp_sealed = sealed\<rparr> \<and>
    open_file_chunk N buddy sealed = Ok opened \<and>
    dict_get opened = (dict_get chunk)(''from'' \<mapsto> JStr (bytes_hex (n_verify_key N identity)))"
proof -
  have obj: "valid_json (JObj chunk)"
    unfolding chunk_def using assms(8-11) by (intro make_chunk_valid) auto
  obtain sealed opened where seal:
      "seal_file_chunk N d identity (bytes_hex (n_verify_key N buddy)) chunk = Ok sealed"
      "open_file_chunk N buddy sealed = Ok opened"
      "\<And>k. dict_get opened k =
        (if k = ''from'' then Some (JStr (bytes_hex (n_verify_key N identity))) else dict_get chunk k)"
    using open_seal_chunk [OF assms(1-3) obj] make_chunk_scalar unfolding chunk_def by blast
  obtain header where header: "file_header tid index tot = Ok header"
      "\<And>sealed. parse_file_payload (b64encode (header @ sealed)) =
        Ok \<lparr>fp_tid = tid, fp_index = nat index, fp_total = nat tot, fp_sealed = sealed\<rparr>"
    using parse_file_header [OF assms(4-7)] by blast
  have "build_file_payload N d identity (bytes_hex (n_verify_key N buddy)) chunk = Ok (b64encode (header @ sealed))"
    unfolding build_file_payload_def seal(1)
    by (simp add: chunk_def make_chunk_def fromhex_hex header(1))
  with header(2) seal show ?thesis by (intro exI conjI) (auto simp: fun_eq_iff)
qed

text \<open>
  a file chunk built for a buddy carries the routing header it was given and opens for
  that buddy to the same chunk, with the sender's key added.
\<close>

theorem file_payload_roundtrip:
  assumes "nacl_ok N" and "length identity = 32" and "length buddy = 32" and "length tid = 16"
    and "0 \<le> index" and "index < tot" and "tot \<le> 65535"
    and "valid_str filename" and "valid_str mime_hint" and "valid_str sha256" and "valid_str conv"
    and chunk_def: "chunk = make_chunk (bytes_hex tid) index tot filename mime_hint sha256 nbytes data (Some conv)"
  shows "\<exists>payload sealed opened.
    build_file_payload N d identity (bytes_hex (n_verify_key N buddy)) chunk = Ok payload \<and>
    parse_file_payload payload = Ok \<lparr>fp_tid = tid, fp_index = nat index, fp_total = nat tot, fp_sealed = sealed\<rparr> \<and>
    open_file_chunk N buddy sealed = Ok opened \<and>
    dict_get opened = (dict_get chunk)(''from'' \<mapsto> JStr (bytes_hex (n_verify_key N identity)))"
  using assms by (intro payload_opens) auto

theorem file_payload_roundtrip_witness:
  "\<exists>payload sealed opened.
    build_file_payload plain_nacl 0 (replicate 32 1) (bytes_hex (n_verify_key plain_nacl (replicate 32 2)))
      (make_chunk (bytes_hex (replicate 16 9)) 1 3 ''a.txt'' ''text/plain'' ''00'' 5 [104, 105] (Some ''room'')) = Ok payload \<and>
    parse_file_payload payload =
      Ok \<lparr>fp_tid = replicate 16 9, fp_index = 1, fp_total = 3, fp_sealed = sealed\<rparr> \<and>
    open_file_chunk plain_nacl (replicate 32 2) sealed = Ok opened \<and>
    dict_get opened ''filename'' = Some (JStr ''a.txt'')"
  using file_payload_roundtrip [OF plain_nacl_ok, of "replicate 32 1" "replicate 32 2" "replicate 16 9" 1 3
      "''a.txt''" "''text/plain''" "''00''" "''room''" _ 5 "[104, 105]" 0, OF _ _ _ _ _ _ _ _ _ _ refl]
  by (auto simp: valid_str_lit make_chunk_def)

text \<open>
  whatever order the chunks of a file arrive in, and however often each, the file is
  reassembled to the concatenation of its parts once every index has arrived and not before.
\<close>

theorem reassemble_any_order:
  assumes "list_all (\<lambda>(i, d). 0 \<le> i \<and> i < int (length parts) \<and> d = parts ! nat i) arr"
  shows "reassemble_file (arrivals arr) (int (length parts)) =
    (if fst ` set arr = {0..<int (length parts)} then Some (concat parts) else None)"
  using assms by (intro reassemble_arrivals) (auto simp: list_all_iff)

theorem reassemble_any_order_witness:
  "reassemble_file (arrivals [(1, [3]), (0, [1, 2]), (1, [3])]) 2 = Some [1, 2, 3] \<and>
   reassemble_file (arrivals [(1, [3]), (1, [3])]) 2 = None"
proof -
  have "0 \<in> {0..<2 :: int}" "0 \<notin> {1 :: int}" by simp_all
  then have "{1} \<noteq> {0..<2 :: int}" by blast
  moreover have "{1, 0, 1} = {0..<2 :: int}" by auto
  ultimately show ?thesis
    using reassemble_any_order [of "[[1, 2], [3]]" "[(1, [3]), (0, [1, 2]), (1, [3])]"]
      reassemble_any_order [of "[[1, 2], [3]]" "[(1, [3]), (1, [3])]"]
    by simp
qed

text \<open>
  C22: an invite parses back to the keys and the screen name it was made from, when the name
  is not empty, has no colon and does not end in white space; a name with a colon always
  makes an invite that is rejected.
\<close>

theorem invite_roundtrip:
  assumes "nacl_ok N" and "length identity = 32" and "length node = 32"
    and "screen \<noteq> []" and "py_rstrip screen = screen"
  shows "bind_res (make_invite N identity (bytes_hex node) screen) parse_invite =
    (if CHR '':'' \<in> set screen
     then Err (ValueError ''invite must be aimless1:<client-pk>:<node-pk>:<screen-name>'')
     else Ok (bytes_hex (n_verify_key N identity), bytes_hex node, screen))"
  using parse_make_invite [OF assms(1-4)] parse_invite_colon assms(5) by simp

theorem invite_roundtrip_witness:
  "bind_res (make_invite plain_nacl (replicate 32 1) (bytes_hex (replicate 32 2)) ''ann'') parse_invite =
     Ok (bytes_hex (replicate 32 1), bytes_hex (replicate 32 2), ''ann'')"
proof -
  have "py_rstrip ''ann'' = ''ann''"
    by (simp add: py_rstrip_def lstrip_by.simps strip_one_def py_spaces_def)
  then show ?thesis
    using invite_roundtrip [OF plain_nacl_ok, of "replicate 32 1" "replicate 32 2" "''ann''"]
    by (simp add: plain_nacl_def)
qed

text \<open>
  every invite that parses names two keys of 64 lower-case hex digits and a non-empty
  screen name without a colon.
\<close>

theorem invite_fields:
  assumes "parse_invite invite = Ok (client, node, screen)"
  shows "length client = 64 \<and> length node = 64 \<and> set (client @ node) \<subseteq> set hex_digits \<and>
    screen \<noteq> [] \<and> CHR '':'' \<notin> set screen"
  using assms by (rule parse_invite_sound)

theorem invite_fields_witness:
  "\<exists>invite client node. parse_invite invite = Ok (client, node, ''ann'') \<and> length client = 64 \<and> length node = 64"
proof -
  have "py_rstrip ''ann'' = ''ann''"
    by (simp add: py_rstrip_def lstrip_by.simps strip_one_def py_spaces_def)
  then have "bind_res (make_invite plain_nacl (replicate 32 1) (bytes_hex (replicate 32 2)) ''ann'') parse_invite =
     Ok (bytes_hex (n_verify_key plain_nacl (replicate 32 1)), bytes_hex (replicate 32 2), ''ann'')"
    by (intro parse_make_invite plain_nacl_ok) simp_all
  then obtain invite where "parse_invite invite =
     Ok (bytes_hex (n_verify_key plain_nacl (replicate 32 1)), bytes_hex (replicate 32 2), ''ann'')"
    by (auto elim: bind_res_Ok)
  with invite_fields [OF this] show ?thesis by blast
qed

text \<open>
  a room's identifier depends on its members only, not on their order; and two rooms with
  the same identifier have the same members, unless SHA-256 collides.
\<close>

theorem room_id_agree:
  assumes "list_all (\<lambda>n. n \<noteq> [] \<and> CHR ''|'' \<notin> set n) (ms @ ms')"
  shows "(mset ms = mset ms' \<longrightarrow> room_id N ms = room_id N ms') \<and>
    (room_id N ms = room_id N ms' \<longrightarrow> mset ms = mset ms' \<or> (\<exists>a b. a \<noteq> b \<and> n_sha256 N a = n_sha256 N b))"
proof (intro conjI impI)
  show "room_id N ms = room_id N ms'" if "mset ms = mset ms'"
    by (simp add: room_id_def sort_mset [OF that])
  assume "room_id N ms = room_id N ms'"
  then have "n_sha256 N (encode_utf8 (py_join ''|'' (sort ms))) = n_sha256 N (encode_utf8 (py_join ''|'' (sort ms')))"
    by (simp add: room_id_def hex.enc_inj)
  moreover have "sort ms = sort ms'" if "py_join ''|'' (sort ms) = py_join ''|'' (sort ms')"
  proof (rule py_join_inj [OF _ that])
    show "n \<noteq> [] \<and> CHR ''|'' \<notin> set n" if "n \<in> set (sort ms) \<union> set (sort ms')" for n
      using that assms by (simp add: list_all_iff)
  qed
  ultimately show "mset ms = mset ms' \<or> (\<exists>a b. a \<noteq> b \<and> n_sha256 N a = n_sha256 N b)"
    by (metis encode_utf8_inj mset_sort)
qed

theorem room_id_agree_witness:
  "room_id plain_nacl [''ab'', ''cd''] = room_id plain_nacl [''cd'', ''ab''] \<and>
   room_id plain_nacl [''ab'', ''cd''] \<noteq> room_id plain_nacl [''ab'', ''ce'']"
proof -
  have "\<not> (\<exists>a b. a \<noteq> b \<and> n_sha256 plain_nacl a = n_sha256 plain_nacl b)" by (simp add: plain_nacl_def)
  then show ?thesis
    using room_id_agree [of "[''ab'', ''cd'']" "[''cd'', ''ab'']" plain_nacl]
      room_id_agree [of "[''ab'', ''cd'']" "[''ab'', ''ce'']" plain_nacl]
    by (auto simp: add_mset_commute add_eq_conv_ex)
qed

text \<open>
  saved contacts are what is loaded next, every other file is untouched, and after a crash at
  any step of the write the contact file is the old one or the new one.
\<close>

theorem contacts_roundtrip:
  assumes "valid_json (JObj contacts)"
  shows "load_contacts path (save_contacts path contacts s) = Ok (JObj contacts) \<and>
    (q \<noteq> path \<and> q \<noteq> tmp_path path \<longrightarrow> load_contacts q (save_contacts path contacts s) = load_contacts q s) \<and>
    (let crashed = run_ops (take k (atomic_ops path (encode_utf8 (json_dumps_indent (JObj contacts))) 420)) s
     in files crashed path = files s path \<or> load_contacts path crashed = Ok (JObj contacts))"
proof -
  let ?bs = "encode_utf8 (json_dumps_indent (JObj contacts))"
  have load: "load_contacts path s' = Ok (JObj contacts)" if "map_option fdata (files s' path) = Some ?bs" for s'
    using that json_loads_bytes_dumps_indent [OF assms]
    by (auto simp: load_contacts_def os_exists_def os_read_def)
  moreover have "os_exists q (run_ops (atomic_ops path ?bs 420) s) = os_exists q s"
      if "q \<noteq> path" "q \<noteq> tmp_path path"
    using that by (simp add: os_exists_def atomic.write_frame atomic.write_dirs)
  ultimately show ?thesis
    using atomic.write_done [of path ?bs 420 s] atomic.crash_safe [of k path ?bs 420 s]
    by (auto simp: save_contacts_def Let_def load_contacts_def [of q] atomic.read_other)
qed

theorem contacts_roundtrip_witness:
  "load_contacts ''c'' (save_contacts ''c'' [(''_self'', JObj [(''screen'', JStr ''ann'')])]
      \<lparr>files = Map.empty, dirs = Map.empty\<rparr>) = Ok (JObj [(''_self'', JObj [(''screen'', JStr ''ann'')])])"
  using contacts_roundtrip [of "[(''_self'', JObj [(''screen'', JStr ''ann'')])]" "''c''"
      "\<lparr>files = Map.empty, dirs = Map.empty\<rparr>"]
  by (simp add: valid_str_lit)

end
