(* ===== verification/Store.thy ===== *)
theory Store
  imports Crypto
begin

text \<open>
  \<open>client/aimless/store.py\<close>: the encrypted SQLite store as a record of its tables.

  A table with a primary key is an association list in rowid order: \<open>INSERT OR IGNORE\<close> appends
  a row with a new key, \<open>ON CONFLICT DO UPDATE\<close> replaces in place, \<open>DELETE\<close> filters.
  Encrypted columns hold the bytes the secret box returns; the key is \<open>box_key\<close> and \<open>draws\<close>
  counts the nonces drawn, so no two encryptions share one. Every operation is one
  statement group under the store's lock, so each is one step.
\<close>

section \<open>Tables\<close>

record conv_row =
  c_dm :: bool
  c_members :: "bytes option"
  c_muted :: bool
  c_hidden :: bool

datatype direction = In | Out

record msg_row =
  m_conv :: string
  m_sender :: string
  m_dir :: direction
  m_ts :: int
  m_seq :: int
  m_seqs :: string
  m_text :: "bytes option"
  m_attachment :: "bytes option"

record delivery_row =
  d_msg_id :: string
  d_acked :: bool

record store =
  box_key :: bytes
  draws :: nat
  t_meta :: "(string, string) dict"
  t_conversations :: "(string, conv_row) dict"
  t_messages :: "(string, msg_row) dict"
  t_watermark :: "(string, int) dict"
  t_read_marks :: "(string, int) dict"
  t_pending :: "(string option \<times> bytes) list"
  t_blocked_screens :: "(string, bytes option) dict"
  t_muted_nodes :: "string list"
  t_deliveries :: "(string \<times> int, delivery_row) dict"

definition empty_store :: store where
  "empty_store = \<lparr>box_key = [], draws = 0, t_meta = [], t_conversations = [], t_messages = [],
     t_watermark = [], t_read_marks = [], t_pending = [], t_blocked_screens = [],
     t_muted_nodes = [], t_deliveries = []\<rparr>"

text \<open>\<open>INSERT OR IGNORE\<close> and \<open>INSERT ... ON CONFLICT DO UPDATE SET v = MAX(v, excluded.v)\<close>.\<close>

definition insert_or_ignore :: "'k \<Rightarrow> 'v \<Rightarrow> ('k, 'v) dict \<Rightarrow> ('k, 'v) dict" where
  "insert_or_ignore k v t = (if dict_get t k = None then t @ [(k, v)] else t)"

definition upsert_max :: "'k \<Rightarrow> int \<Rightarrow> ('k, int) dict \<Rightarrow> ('k, int) dict" where
  "upsert_max k v t =
     (case dict_get t k of None \<Rightarrow> t @ [(k, v)] | Some w \<Rightarrow> dict_set k (max w v) t)"

text \<open>\<open>UPDATE ... WHERE id = k\<close> touches the row if there is one.\<close>

definition update_row :: "'k \<Rightarrow> ('v \<Rightarrow> 'v) \<Rightarrow> ('k, 'v) dict \<Rightarrow> ('k, 'v) dict" where
  "update_row k f t = map (\<lambda>(k', v). (k', if k' = k then f v else v)) t"

section \<open>Opening and encryption\<close>

text \<open>The salt is read from \<open>meta\<close>, or drawn and stored once.\<close>

definition salt :: "bytes \<Rightarrow> store \<Rightarrow> bytes res \<times> store" where
  "salt fresh st =
     (case dict_get (t_meta st) ''salt'' of
        Some row \<Rightarrow> (b64decode row, st)
      | None \<Rightarrow> (Ok fresh, st\<lparr>t_meta := t_meta st @ [(''salt'', b64encode fresh)]\<rparr>))"

definition open_store :: "nacl \<Rightarrow> string \<Rightarrow> bytes \<Rightarrow> store \<Rightarrow> store res" where
  "open_store N passphrase fresh st =
     (let (s, st') = salt fresh st
      in bind_res s (\<lambda>salt. Ok (st'\<lparr>box_key := kdf_key N passphrase salt\<rparr>)))"

definition enc :: "nacl \<Rightarrow> string option \<Rightarrow> store \<Rightarrow> bytes option \<times> store" where
  "enc N s st =
     (case s of
        None \<Rightarrow> (None, st)
      | Some t \<Rightarrow> (Some (n_box_encrypt N (box_key st) (draws st) (encode_utf8 t)), st\<lparr>draws := draws st + 1\<rparr>))"

definition dec :: "nacl \<Rightarrow> bytes option \<Rightarrow> store \<Rightarrow> string option res" where
  "dec N blob st =
     (case blob of
        None \<Rightarrow> Ok None
      | Some b \<Rightarrow> bind_res (n_box_decrypt N (box_key st) b) (\<lambda>pt. bind_res (decode_utf8 pt) (\<lambda>s. Ok (Some s))))"

section \<open>Ingest cursor\<close>

definition cursor :: "store \<Rightarrow> string \<Rightarrow> int" where
  "cursor st peer = (case dict_get (t_watermark st) peer of Some seq \<Rightarrow> seq | None \<Rightarrow> 0)"

definition set_cursor :: "string \<Rightarrow> int \<Rightarrow> store \<Rightarrow> store" where
  "set_cursor peer seq st = st\<lparr>t_watermark := upsert_max peer seq (t_watermark st)\<rparr>"

section \<open>Conversations\<close>

definition ensure_conv :: "nacl \<Rightarrow> string \<Rightarrow> bool \<Rightarrow> store \<Rightarrow> store" where
  "ensure_conv N conv dm st =
     (let (blob, st') = enc N (Some ''{}'') st
      in st'\<lparr>t_conversations := insert_or_ignore conv
           \<lparr>c_dm = dm, c_members = blob, c_muted = False, c_hidden = False\<rparr> (t_conversations st')\<rparr>)"

definition ensure_room :: "nacl \<Rightarrow> string \<Rightarrow> json \<Rightarrow> store \<Rightarrow> store" where
  "ensure_room N conv members st =
     (let (blob, st') = enc N (Some (json_dumps members)) st
      in st'\<lparr>t_conversations :=
           (case dict_get (t_conversations st') conv of
              None \<Rightarrow> t_conversations st' @
                [(conv, \<lparr>c_dm = False, c_members = blob, c_muted = False, c_hidden = False\<rparr>)]
            | Some row \<Rightarrow> dict_set conv (row\<lparr>c_dm := False, c_members := blob, c_hidden := False\<rparr>)
                (t_conversations st'))\<rparr>)"

definition rooms :: "store \<Rightarrow> string list" where
  "rooms st = map fst (filter (\<lambda>(_, row). \<not> c_dm row \<and> \<not> c_hidden row) (t_conversations st))"

definition members :: "nacl \<Rightarrow> store \<Rightarrow> string \<Rightarrow> json res" where
  "members N st conv =
     (case dict_get (t_conversations st) conv of
        None \<Rightarrow> Ok (JObj [])
      | Some row \<Rightarrow>
          (case c_members row of
             None \<Rightarrow> Ok (JObj [])
           | Some b \<Rightarrow> bind_res (dec N (Some b) st) (\<lambda>s. json_loads (the s))))"

definition is_room :: "store \<Rightarrow> string \<Rightarrow> bool" where
  "is_room st conv = (case dict_get (t_conversations st) conv of None \<Rightarrow> False | Some row \<Rightarrow> \<not> c_dm row)"

definition clear_history :: "string \<Rightarrow> store \<Rightarrow> store" where
  "clear_history conv st =
     st\<lparr>t_messages := filter (\<lambda>(_, m). m_conv m \<noteq> conv) (t_messages st),
        t_read_marks := filter (\<lambda>(c, _). c \<noteq> conv) (t_read_marks st)\<rparr>"

definition delete_room :: "string \<Rightarrow> (string, int) dict \<Rightarrow> store \<Rightarrow> store" where
  "delete_room conv scan_points st =
     (let st1 = st\<lparr>t_messages := filter (\<lambda>(_, m). m_conv m \<noteq> conv) (t_messages st),
                   t_read_marks := filter (\<lambda>(c, _). c \<noteq> conv) (t_read_marks st),
                   t_conversations := update_row conv (\<lambda>r. r\<lparr>c_hidden := True\<rparr>) (t_conversations st)\<rparr>
      in fold (\<lambda>(node, latest) s. if latest \<noteq> 0 then set_cursor node latest s else s) scan_points st1)"

section \<open>Messages\<close>

definition in_id :: "string \<Rightarrow> int \<Rightarrow> string" where
  "in_id sender seq = ''in:'' @ sender @ '':'' @ int_str seq"

definition out_id :: "(string, int) dict \<Rightarrow> string" where
  "out_id seqs = ''out:'' @ py_join '','' (map (\<lambda>(n, s). n @ ''='' @ int_str s) (sort seqs))"

text \<open>\<open>self._enc(json.dumps(attachment)) if attachment else None\<close>\<close>

definition attachment_text :: "json option \<Rightarrow> string option" where
  "attachment_text att = (case att of None \<Rightarrow> None | Some a \<Rightarrow> if json_truthy a then Some (json_dumps a) else None)"

text \<open>The row and the state after drawing its nonces.\<close>

definition encrypted_row ::
  "nacl \<Rightarrow> string option \<Rightarrow> json option \<Rightarrow> (bytes option \<Rightarrow> bytes option \<Rightarrow> msg_row) \<Rightarrow> store \<Rightarrow> msg_row \<times> store" where
  "encrypted_row N body att mk st =
     (let (t, st1) = enc N body st; (a, st2) = enc N (attachment_text att) st1 in (mk t a, st2))"

definition ingest ::
  "nacl \<Rightarrow> string \<Rightarrow> string \<Rightarrow> int \<Rightarrow> int \<Rightarrow> string option \<Rightarrow> json option \<Rightarrow> store \<Rightarrow> bool \<times> store" where
  "ingest N conv sender seq ts body att st =
     (let mid = in_id sender seq;
          st1 = ensure_conv N conv (conv = sender) st;
          (row, st2) = encrypted_row N body att
            (\<lambda>t a. \<lparr>m_conv = conv, m_sender = sender, m_dir = In, m_ts = ts, m_seq = seq,
               m_seqs = json_dumps (JObj [(sender, JInt seq)]), m_text = t, m_attachment = a\<rparr>) st1;
          new = (dict_get (t_messages st2) mid = None);
          st3 = st2\<lparr>t_messages := insert_or_ignore mid row (t_messages st2)\<rparr>
      in if new
         then (True, st3\<lparr>t_conversations := update_row conv (\<lambda>r. r\<lparr>c_hidden := False\<rparr>) (t_conversations st3)\<rparr>)
         else (False, st3))"

text \<open>
  The acknowledgements to track: a set of \<open>(node, seq)\<close> in the source, a list without
  duplicates here. Explicit keys with sequence number 0 are dropped.
\<close>

definition delivery_key_set :: "(string, int) dict \<Rightarrow> (string \<times> int) list option \<Rightarrow> (string \<times> int) list" where
  "delivery_key_set seqs delivery_keys =
     (case delivery_keys of
        None \<Rightarrow> remdups seqs
      | Some ks \<Rightarrow> remdups (filter (\<lambda>(n, s). s \<noteq> 0) ks))"

definition add_sent ::
  "nacl \<Rightarrow> string \<Rightarrow> (string, int) dict \<Rightarrow> int \<Rightarrow> string option \<Rightarrow> json option \<Rightarrow> (string \<times> int) list option
   \<Rightarrow> store \<Rightarrow> bool \<times> store" where
  "add_sent N conv seqs ts body att delivery_keys st =
     (let mid = out_id seqs;
          keys = delivery_key_set seqs delivery_keys;
          st1 = ensure_conv N conv True st;
          (row, st2) = encrypted_row N body att
            (\<lambda>t a. \<lparr>m_conv = conv, m_sender = ''self'', m_dir = Out, m_ts = ts, m_seq = 0,
               m_seqs = json_dumps (JObj (map (\<lambda>(n, s). (n, JInt s)) seqs)),
               m_text = t, m_attachment = a\<rparr>) st1;
          new = (dict_get (t_messages st2) mid = None)
      in (new, st2\<lparr>t_messages := insert_or_ignore mid row (t_messages st2),
                   t_deliveries := fold (\<lambda>k. insert_or_ignore k \<lparr>d_msg_id = mid, d_acked = False\<rparr>) keys
                     (t_deliveries st2)\<rparr>))"

section \<open>Deliveries\<close>

definition delivery_rows :: "store \<Rightarrow> string \<Rightarrow> ((string \<times> int) \<times> delivery_row) list" where
  "delivery_rows st mid = filter (\<lambda>(_, d). d_msg_id d = mid) (t_deliveries st)"

definition acked_rows :: "((string \<times> int) \<times> delivery_row) list \<Rightarrow> nat" where
  "acked_rows rows = length (filter (\<lambda>(_, d). d_acked d) rows)"

definition is_delivered :: "store \<Rightarrow> string \<Rightarrow> bool option" where
  "is_delivered st mid =
     (let rows = delivery_rows st mid
      in if rows = [] then None else Some (acked_rows rows = length rows))"

definition delivery_progress :: "store \<Rightarrow> string \<Rightarrow> nat \<times> nat" where
  "delivery_progress st mid = (length (delivery_rows st mid), acked_rows (delivery_rows st mid))"

text \<open>\<open>GROUP BY node\<close>: the rows of one recipient.\<close>

definition rows_of_node :: "((string \<times> int) \<times> delivery_row) list \<Rightarrow> string \<Rightarrow> ((string \<times> int) \<times> delivery_row) list" where
  "rows_of_node rows node = filter (\<lambda>((n, _), _). n = node) rows"

definition row_nodes :: "((string \<times> int) \<times> delivery_row) list \<Rightarrow> string list" where
  "row_nodes rows = remdups (map (\<lambda>((n, _), _). n) rows)"

definition node_done :: "((string \<times> int) \<times> delivery_row) list \<Rightarrow> string \<Rightarrow> bool" where
  "node_done rows node \<longleftrightarrow> acked_rows (rows_of_node rows node) = length (rows_of_node rows node)"

definition delivery_members :: "store \<Rightarrow> string \<Rightarrow> nat \<times> nat" where
  "delivery_members st mid =
     (let rows = delivery_rows st mid; nodes = row_nodes rows
      in (length nodes, length (filter (node_done rows) nodes)))"

definition undelivered :: "store \<Rightarrow> string \<Rightarrow> (string \<times> int) list" where
  "undelivered st mid = map fst (filter (\<lambda>(_, d). \<not> d_acked d) (delivery_rows st mid))"

definition mark_delivered :: "string \<Rightarrow> int \<Rightarrow> store \<Rightarrow> string option \<times> store" where
  "mark_delivered node seq st =
     (case dict_get (t_deliveries st) (node, seq) of
        None \<Rightarrow> (None, st)
      | Some d \<Rightarrow>
          (Some (d_msg_id d),
           if d_acked d then st
           else st\<lparr>t_deliveries := update_row (node, seq) (\<lambda>r. r\<lparr>d_acked := True\<rparr>) (t_deliveries st)\<rparr>))"

text \<open>\<open>GROUP BY msg_id, node\<close> over the messages asked for, folded into one entry per message.\<close>

definition summary_groups :: "store \<Rightarrow> string list \<Rightarrow> (string \<times> string) list" where
  "summary_groups st ids =
     remdups (map (\<lambda>((n, _), d). (d_msg_id d, n)) (filter (\<lambda>(_, d). d_msg_id d \<in> set ids) (t_deliveries st)))"

definition delivery_summary :: "store \<Rightarrow> string list \<Rightarrow> (string, nat \<times> nat) dict" where
  "delivery_summary st mids =
     (let ids = remdups (filter (\<lambda>m. m \<noteq> []) mids)
      in if ids = [] then []
         else fold (\<lambda>(mid, node) summary.
             let (n, k) = (case dict_get summary mid of None \<Rightarrow> (0, 0) | Some p \<Rightarrow> p)
             in dict_set mid (n + 1, k + (if node_done (delivery_rows st mid) node then 1 else 0)) summary)
           (summary_groups st ids) [])"

section \<open>Reading messages\<close>

record msg_view =
  v_id :: string
  v_dir :: direction
  v_seqs :: json
  v_ts :: int
  v_sender :: string
  v_text :: "string option"
  v_attachment :: "json option"
  v_delivery :: "(bool option \<times> nat option \<times> nat) option"

definition row_delivery :: "direction \<Rightarrow> (nat \<times> nat) option \<Rightarrow> (bool option \<times> nat option \<times> nat) option" where
  "row_delivery dir s =
     (case dir of
        In \<Rightarrow> None
      | Out \<Rightarrow> (case s of
            None \<Rightarrow> Some (None, None, 0)
          | Some (n, acked) \<Rightarrow> Some (Some (acked = n), Some n, acked)))"

definition row_to_msg :: "nacl \<Rightarrow> store \<Rightarrow> (string, nat \<times> nat) dict \<Rightarrow> string \<times> msg_row \<Rightarrow> msg_view res" where
  "row_to_msg N st summary = (\<lambda>(mid, m).
     bind_res (json_loads (m_seqs m)) (\<lambda>seqs.
     bind_res (dec N (m_text m) st) (\<lambda>body.
     bind_res (case m_attachment m of
                 None \<Rightarrow> Ok None
               | Some b \<Rightarrow> bind_res (dec N (Some b) st) (\<lambda>s. bind_res (json_loads (the s)) (\<lambda>v. Ok (Some v))))
       (\<lambda>att. Ok \<lparr>v_id = mid, v_dir = m_dir m, v_seqs = seqs, v_ts = m_ts m, v_sender = m_sender m,
                  v_text = body, v_attachment = att,
                  v_delivery = row_delivery (m_dir m) (dict_get summary mid)\<rparr>))))"

definition conv_rows :: "store \<Rightarrow> string \<Rightarrow> (string \<times> msg_row) list" where
  "conv_rows st conv =
     sort_key (\<lambda>(mid, m). (m_ts m, mid)) (filter (\<lambda>(_, m). m_conv m = conv) (t_messages st))"

definition messages :: "nacl \<Rightarrow> store \<Rightarrow> string \<Rightarrow> msg_view list res" where
  "messages N st conv =
     (let rows = conv_rows st conv; summary = delivery_summary st (map fst rows)
      in traverse_res (row_to_msg N st summary) rows)"

text \<open>\<open>MAX(...)\<close> over the rows, \<open>or 0\<close> when there are none.\<close>

definition sql_max :: "int list \<Rightarrow> int" where
  "sql_max xs = (if xs = [] then 0 else Max (set xs))"

definition recv_last :: "store \<Rightarrow> string \<Rightarrow> string \<Rightarrow> int" where
  "recv_last st conv node =
     sql_max (map (\<lambda>(_, m). m_seq m)
       (filter (\<lambda>(_, m). m_conv m = conv \<and> m_dir m = In \<and> m_sender m = node) (t_messages st)))"

definition scan_last :: "store \<Rightarrow> string \<Rightarrow> string \<Rightarrow> int" where
  "scan_last st conv node = cursor st node"

definition set_scan_last :: "string \<Rightarrow> string \<Rightarrow> int \<Rightarrow> store \<Rightarrow> store" where
  "set_scan_last conv node seq st = set_cursor node seq st"

section \<open>Read marks\<close>

definition mark_read :: "string \<Rightarrow> store \<Rightarrow> store" where
  "mark_read conv st =
     (let upto = sql_max (map (\<lambda>(_, m). m_ts m) (filter (\<lambda>(_, m). m_conv m = conv) (t_messages st)))
      in st\<lparr>t_read_marks := upsert_max conv upto (t_read_marks st)\<rparr>)"

definition read_upto :: "store \<Rightarrow> string \<Rightarrow> int" where
  "read_upto st conv = (case dict_get (t_read_marks st) conv of Some u \<Rightarrow> u | None \<Rightarrow> 0)"

definition unread :: "store \<Rightarrow> string \<Rightarrow> nat" where
  "unread st conv =
     length (filter (\<lambda>(_, m). m_conv m = conv \<and> m_dir m = In \<and> m_ts m > read_upto st conv) (t_messages st))"

definition total_unread :: "store \<Rightarrow> nat" where
  "total_unread st = sum_list (map (unread st) (map fst (t_conversations st)))"

section \<open>Mute and block\<close>

definition is_conversation_muted :: "store \<Rightarrow> string \<Rightarrow> bool" where
  "is_conversation_muted st conv =
     (case dict_get (t_conversations st) conv of None \<Rightarrow> False | Some row \<Rightarrow> c_muted row)"

definition mute_conversation :: "nacl \<Rightarrow> string \<Rightarrow> store \<Rightarrow> store" where
  "mute_conversation N conv st =
     (let st1 = ensure_conv N conv True st
      in st1\<lparr>t_conversations := update_row conv (\<lambda>r. r\<lparr>c_muted := True\<rparr>) (t_conversations st1)\<rparr>)"

definition unmute_conversation :: "string \<Rightarrow> store \<Rightarrow> store" where
  "unmute_conversation conv st =
     st\<lparr>t_conversations := update_row conv (\<lambda>r. r\<lparr>c_muted := False\<rparr>) (t_conversations st)\<rparr>"

definition is_muted :: "store \<Rightarrow> string \<Rightarrow> bool" where
  "is_muted st node \<longleftrightarrow> node \<in> set (t_muted_nodes st)"

definition mute :: "string \<Rightarrow> store \<Rightarrow> store" where
  "mute node st =
     (if node \<in> set (t_muted_nodes st) then st else st\<lparr>t_muted_nodes := t_muted_nodes st @ [node]\<rparr>)"

definition unmute :: "string \<Rightarrow> store \<Rightarrow> store" where
  "unmute node st = st\<lparr>t_muted_nodes := filter (\<lambda>n. n \<noteq> node) (t_muted_nodes st)\<rparr>"

definition set_blocked_screen :: "nacl \<Rightarrow> string \<Rightarrow> string option \<Rightarrow> store \<Rightarrow> store" where
  "set_blocked_screen N node screen st =
     (let (blob, st') = enc N screen st
      in st'\<lparr>t_blocked_screens := dict_set node blob (t_blocked_screens st')\<rparr>)"

definition blocked_screen :: "nacl \<Rightarrow> store \<Rightarrow> string \<Rightarrow> string option res" where
  "blocked_screen N st node =
     (case dict_get (t_blocked_screens st) node of
        None \<Rightarrow> Ok None
      | Some blob \<Rightarrow> dec N blob st)"

definition clear_blocked_screen :: "string \<Rightarrow> store \<Rightarrow> store" where
  "clear_blocked_screen node st = st\<lparr>t_blocked_screens := dict_del node (t_blocked_screens st)\<rparr>"

section \<open>Pending contact requests\<close>

text \<open>
  The key of a request without a \<open>node\<close> is \<open>NULL\<close>, which never conflicts and never matches.
\<close>

definition req_node :: "(string, json) dict \<Rightarrow> string option" where
  "req_node req = (case dict_get req ''node'' of Some (JStr n) \<Rightarrow> Some n | _ \<Rightarrow> None)"

definition add_pending :: "nacl \<Rightarrow> (string, json) dict \<Rightarrow> store \<Rightarrow> store" where
  "add_pending N req st =
     (let (blob, st') = enc N (Some (json_dumps (JObj req))) st; node = req_node req
      in if node \<noteq> None \<and> node \<in> fst ` set (t_pending st') then st'
         else st'\<lparr>t_pending := t_pending st' @ [(node, the blob)]\<rparr>)"

definition pending_requests :: "nacl \<Rightarrow> store \<Rightarrow> json list res" where
  "pending_requests N st =
     traverse_res (\<lambda>(_, b). bind_res (dec N (Some b) st) (\<lambda>s. json_loads (the s))) (t_pending st)"

definition pending_pop :: "nacl \<Rightarrow> store \<Rightarrow> json option res \<times> store" where
  "pending_pop N st =
     (case t_pending st of
        [] \<Rightarrow> (Ok None, st)
      | (node, b) # _ \<Rightarrow>
          let st' = (if node = None then st
                     else st\<lparr>t_pending := filter (\<lambda>(n, _). n \<noteq> node) (t_pending st)\<rparr>)
          in (bind_res (dec N (Some b) st') (\<lambda>s. bind_res (json_loads (the s)) (\<lambda>v. Ok (Some v))), st'))"

section \<open>Interfaces\<close>

text \<open>A cursor per peer that only moves forward.\<close>

locale forward_cursor =
  fixes cur :: "'s \<Rightarrow> 'p \<Rightarrow> int"
    and adv :: "'p \<Rightarrow> int \<Rightarrow> 's \<Rightarrow> 's"
  assumes adv_other: "q \<noteq> p \<Longrightarrow> cur (adv p n s) q = cur s q"
    and adv_same: "cur s p \<le> n \<Longrightarrow> cur (adv p n s) p = n"
    and adv_mono: "0 \<le> n \<Longrightarrow> cur s p \<le> cur (adv p n s) p"
    and adv_reach: "n \<le> cur (adv p n s) p"
begin

lemma adv_forward: "0 \<le> n \<Longrightarrow> cur s q \<le> cur (adv p n s) q"
  by (cases "q = p") (simp_all add: adv_other adv_mono)

lemma adv_to_max: "cur s p \<le> n \<Longrightarrow> cur (adv p n s) q = (if q = p then max (cur s p) n else cur s q)"
  by (simp add: adv_other adv_same)

lemma adv_list_forward:
  "list_all (\<lambda>(p, n). 0 \<le> n) pts \<Longrightarrow> cur s q \<le> cur (fold (\<lambda>(p, n). adv p n) pts s) q"
proof (induction pts arbitrary: s)
  case (Cons pt pts)
  obtain p n where pt: "pt = (p, n)" by (cases pt)
  with Cons.prems have "cur s q \<le> cur (adv p n s) q" by (simp add: adv_forward)
  also have "\<dots> \<le> cur (fold (\<lambda>(p, n). adv p n) pts (adv p n s)) q"
    using Cons.prems by (intro Cons.IH) simp
  finally show ?case by (simp add: pt)
qed simp

text \<open>After a list of points has been applied the cursor has reached each of them.\<close>

lemma adv_list_reach:
  "list_all (\<lambda>(p, n). 0 \<le> n) pts \<Longrightarrow> (p, n) \<in> set pts \<Longrightarrow>
   n \<le> cur (fold (\<lambda>(p, n). adv p n) pts s) p"
proof (induction pts arbitrary: s)
  case (Cons pt pts)
  show ?case
  proof (cases "(p, n) \<in> set pts")
    case True
    with Cons show ?thesis by (cases pt) simp
  next
    case False
    with Cons.prems(2) have pt: "pt = (p, n)" by simp
    have "n \<le> cur (adv p n s) p" by (rule adv_reach)
    also have "\<dots> \<le> cur (fold (\<lambda>(p, n). adv p n) pts (adv p n s)) p"
      using Cons.prems(1) by (intro adv_list_forward) simp
    finally show ?thesis by (simp add: pt)
  qed
qed simp

end

text \<open>
  A log in which a key is entered at most once: entering it again reports that it was there.
\<close>

fun put_all :: "('k \<Rightarrow> 'v \<Rightarrow> 's \<Rightarrow> bool \<times> 's) \<Rightarrow> ('k \<times> 'v) list \<Rightarrow> 's \<Rightarrow> nat \<times> 's" where
  "put_all put [] s = (0, s)"
| "put_all put ((k, v) # kvs) s =
     (let r = put k v s; q = put_all put kvs (snd r) in ((if fst r then 1 else 0) + fst q, snd q))"

locale once_log =
  fixes put :: "'k \<Rightarrow> 'v \<Rightarrow> 's \<Rightarrow> bool \<times> 's"
    and has :: "'s \<Rightarrow> 'k \<Rightarrow> bool"
  assumes put_new: "fst (put k v s) \<longleftrightarrow> \<not> has s k"
    and put_has: "has (snd (put k v s)) k' \<longleftrightarrow> has s k' \<or> k' = k"
begin

lemma put_all_has: "has (snd (put_all put kvs s)) k \<longleftrightarrow> has s k \<or> k \<in> fst ` set kvs"
proof (induction kvs arbitrary: s)
  case (Cons kv kvs)
  then show ?case by (cases kv) (auto simp: Let_def put_has simp del: fst_conv, simp_all)
qed simp

text \<open>The number of entries reported new is the number of keys that were missing.\<close>

lemma put_all_count: "fst (put_all put kvs s) = card {k \<in> fst ` set kvs. \<not> has s k}"
proof (induction kvs arbitrary: s)
  case (Cons kv kvs)
  obtain k v where kv: "kv = (k, v)" by (cases kv)
  obtain new s1 where put: "put k v s = (new, s1)" by (cases "put k v s")
  then have new: "new \<longleftrightarrow> \<not> has s k" and has: "\<And>k'. has s1 k' \<longleftrightarrow> has s k' \<or> k' = k"
    using put_new [of k v s] put_has [of k v s] by simp_all
  have split: "{k' \<in> fst ` set (kv # kvs). \<not> has s k'} =
      (if new then insert k {k' \<in> fst ` set kvs. \<not> has s1 k'} else {k' \<in> fst ` set kvs. \<not> has s1 k'})"
    using kv new has by auto
  have "card {k' \<in> fst ` set (kv # kvs). \<not> has s k'} =
      (if new then 1 else 0) + card {k' \<in> fst ` set kvs. \<not> has s1 k'}"
    unfolding split using has by (auto simp: card_insert_if)
  with Cons.IH [of s1] show ?case by (simp add: kv put Let_def)
qed simp

lemma put_all_replay: "fst (put_all put kvs (snd (put_all put kvs s))) = 0"
  by (simp add: put_all_count put_all_has)

end

section \<open>Table lemmas\<close>

lemma dict_get_insert:
  "dict_get (insert_or_ignore k v t) k' =
     (case dict_get t k' of Some w \<Rightarrow> Some w | None \<Rightarrow> if k' = k then Some v else None)"
  by (auto simp: insert_or_ignore_def map_add_def split: option.split)

lemma insert_or_ignore_keys: "fst ` set (insert_or_ignore k v t) = insert k (fst ` set t)"
  by (force simp: insert_or_ignore_def map_of_eq_None_iff dest: map_of_SomeD)

lemma dict_get_update_row: "dict_get (update_row k f t) k' = (if k' = k then map_option f (dict_get t k) else dict_get t k')"
  by (induction t) (auto simp: update_row_def)

lemma update_row_keys [simp]: "map fst (update_row k f t) = map fst t"
  by (induction t) (auto simp: update_row_def)

lemma dict_get_upsert_max:
  "dict_get (upsert_max k v t) k' =
     (if k' = k then Some (case dict_get t k of None \<Rightarrow> v | Some w \<Rightarrow> max w v) else dict_get t k')"
  by (auto simp: upsert_max_def map_add_def dict_get_set split: option.split)

text \<open>A table with distinct keys all of whose rows satisfy a predicate.\<close>

definition table_ok :: "('v \<Rightarrow> bool) \<Rightarrow> ('k, 'v) dict \<Rightarrow> bool" where
  "table_ok P t \<longleftrightarrow> wf_dict t \<and> list_all (\<lambda>(k, v). P v) t"

lemma table_ok_get: "table_ok P t \<Longrightarrow> dict_get t k = Some v \<Longrightarrow> P v"
  by (auto simp: table_ok_def list_all_iff dest!: map_of_SomeD)

lemma table_ok_mem: "table_ok P t \<Longrightarrow> (k, v) \<in> set t \<Longrightarrow> P v"
  by (auto simp: table_ok_def list_all_iff)

lemma table_ok_Nil [simp]: "table_ok P []"
  by (simp add: table_ok_def)

lemma table_ok_insert: "table_ok P t \<Longrightarrow> P v \<Longrightarrow> table_ok P (insert_or_ignore k v t)"
  by (auto simp: table_ok_def insert_or_ignore_def map_of_eq_None_iff)

lemma table_ok_append: "table_ok P t \<Longrightarrow> P v \<Longrightarrow> dict_get t k = None \<Longrightarrow> table_ok P (t @ [(k, v)])"
  using table_ok_insert [of P t v k] by (simp add: insert_or_ignore_def)

lemma list_all_dict_set: "list_all (\<lambda>(k, v). P v) t \<Longrightarrow> P v \<Longrightarrow> list_all (\<lambda>(k, v). P v) (dict_set k v t)"
  by (induction t) auto

lemma table_ok_set: "table_ok P t \<Longrightarrow> P v \<Longrightarrow> table_ok P (dict_set k v t)"
  by (auto simp: table_ok_def distinct_update list_all_dict_set)

lemma table_ok_update_row: "table_ok P t \<Longrightarrow> (\<And>v. P v \<Longrightarrow> P (f v)) \<Longrightarrow> table_ok P (update_row k f t)"
  unfolding table_ok_def update_row_keys by (auto simp: update_row_def list_all_iff)

lemma table_ok_filter: "table_ok P t \<Longrightarrow> table_ok P (filter Q t)"
  by (auto simp: table_ok_def list_all_iff distinct_map_filter)

lemma table_ok_del: "table_ok P t \<Longrightarrow> table_ok P (dict_del k t)"
  unfolding AList.delete_eq by (rule table_ok_filter)

lemma table_ok_upsert_max: "table_ok P t \<Longrightarrow> (\<And>w. P (max w v)) \<Longrightarrow> P v \<Longrightarrow> table_ok P (upsert_max k v t)"
  by (auto simp: upsert_max_def table_ok_append table_ok_set split: option.split)

lemma table_ok_fold_insert:
  "table_ok P t \<Longrightarrow> P v \<Longrightarrow> table_ok P (fold (\<lambda>k. insert_or_ignore k v) ks t)"
  by (induction ks arbitrary: t) (auto simp: table_ok_insert)

lemmas table_ok_intros =
  table_ok_insert table_ok_append table_ok_set table_ok_update_row table_ok_filter table_ok_del
  table_ok_upsert_max table_ok_fold_insert

section \<open>The store invariant\<close>

text \<open>
  A blob is readable when it decrypts under the key to well-formed text that satisfies a
  predicate; columns that hold JSON are readable as JSON.
\<close>

definition readable :: "nacl \<Rightarrow> bytes \<Rightarrow> (string \<Rightarrow> bool) \<Rightarrow> bytes option \<Rightarrow> bool" where
  "readable N key P blob =
     (case blob of None \<Rightarrow> True
      | Some b \<Rightarrow> (case n_box_decrypt N key b of
            Ok pt \<Rightarrow> valid_str (bytes_text pt) \<and> P (bytes_text pt)
          | Err _ \<Rightarrow> False))"

definition is_json :: "string \<Rightarrow> bool" where
  "is_json s = is_ok (json_loads s)"

definition msg_row_ok :: "nacl \<Rightarrow> bytes \<Rightarrow> msg_row \<Rightarrow> bool" where
  "msg_row_ok N key m \<longleftrightarrow> is_json (m_seqs m) \<and> readable N key (\<lambda>_. True) (m_text m) \<and>
     readable N key is_json (m_attachment m)"

definition pending_ok :: "nacl \<Rightarrow> bytes \<Rightarrow> (string option \<times> bytes) list \<Rightarrow> bool" where
  "pending_ok N key ps \<longleftrightarrow> list_all (\<lambda>(_, b). readable N key is_json (Some b)) ps \<and>
     distinct (filter (\<lambda>n. n \<noteq> None) (map fst ps))"

definition store_ok :: "nacl \<Rightarrow> store \<Rightarrow> bool" where
  "store_ok N st \<longleftrightarrow>
     length (box_key st) = 32 \<and>
     table_ok (\<lambda>c. readable N (box_key st) is_json (c_members c)) (t_conversations st) \<and>
     table_ok (msg_row_ok N (box_key st)) (t_messages st) \<and>
     table_ok (\<lambda>_. True) (t_watermark st) \<and>
     table_ok (\<lambda>_. True) (t_read_marks st) \<and>
     pending_ok N (box_key st) (t_pending st) \<and>
     table_ok (readable N (box_key st) (\<lambda>_. True)) (t_blocked_screens st) \<and>
     distinct (t_muted_nodes st) \<and>
     table_ok (\<lambda>_. True) (t_deliveries st)"

lemma readable_dec:
  assumes "readable N (box_key st) P blob"
  obtains s where "dec N blob st = Ok s" "s = None \<longleftrightarrow> blob = None" "\<And>t. s = Some t \<Longrightarrow> valid_str t \<and> P t"
  using assms by (auto simp: readable_def dec_def decode_utf8_def split: option.splits res.splits)

text \<open>Encrypting draws a nonce and changes nothing else.\<close>

lemma enc_frame [simp]:
  "box_key (snd (enc N s st)) = box_key st" "t_meta (snd (enc N s st)) = t_meta st"
  "t_conversations (snd (enc N s st)) = t_conversations st" "t_messages (snd (enc N s st)) = t_messages st"
  "t_watermark (snd (enc N s st)) = t_watermark st" "t_read_marks (snd (enc N s st)) = t_read_marks st"
  "t_pending (snd (enc N s st)) = t_pending st" "t_blocked_screens (snd (enc N s st)) = t_blocked_screens st"
  "t_muted_nodes (snd (enc N s st)) = t_muted_nodes st" "t_deliveries (snd (enc N s st)) = t_deliveries st"
  by (simp_all add: enc_def split: option.split)

lemma enc_readable:
  assumes "nacl_ok N" and "length (box_key st) = 32" and "pred_option (\<lambda>t. valid_str t \<and> P t) s"
  shows "readable N (box_key st) P (fst (enc N s st))"
  using assms by (auto simp: enc_def readable_def nacl_okD split: option.split)

lemma dec_enc:
  assumes "nacl_ok N" and "length (box_key st) = 32" and "pred_option valid_str s"
    and "box_key st' = box_key st"
  shows "dec N (fst (enc N s st)) st' = Ok s"
  using assms by (auto simp: enc_def dec_def nacl_okD decode_encode_utf8 split: option.split)

lemma is_json_dumps: "valid_json v \<Longrightarrow> valid_str (json_dumps v) \<and> is_json (json_dumps v)"
  using ascii_json_print [of v False 0]
  by (simp add: is_json_def json_loads_print valid_str_lit json_dumps_def)

lemma attachment_text_json:
  "pred_option valid_json att \<Longrightarrow> pred_option (\<lambda>t. valid_str t \<and> is_json t) (attachment_text att)"
  by (auto simp: attachment_text_def is_json_dumps split: option.splits if_splits)

lemma empty_json: "valid_str ''{}'' \<and> is_json ''{}''"
  using is_json_dumps [of "JObj []"] by (simp add: json_dumps_def)

text \<open>The operations that encrypt, with the pair of blob and state taken apart.\<close>

lemma ensure_conv_eq:
  "ensure_conv N conv dm st = (snd (enc N (Some ''{}'') st))\<lparr>t_conversations :=
     insert_or_ignore conv \<lparr>c_dm = dm, c_members = fst (enc N (Some ''{}'') st), c_muted = False, c_hidden = False\<rparr>
       (t_conversations st)\<rparr>"
  by (simp add: ensure_conv_def case_prod_beta Let_def)

lemma ensure_conv_frame [simp]:
  "box_key (ensure_conv N conv dm st) = box_key st" "t_meta (ensure_conv N conv dm st) = t_meta st"
  "t_messages (ensure_conv N conv dm st) = t_messages st"
  "t_watermark (ensure_conv N conv dm st) = t_watermark st" "t_read_marks (ensure_conv N conv dm st) = t_read_marks st"
  "t_pending (ensure_conv N conv dm st) = t_pending st" "t_blocked_screens (ensure_conv N conv dm st) = t_blocked_screens st"
  "t_muted_nodes (ensure_conv N conv dm st) = t_muted_nodes st" "t_deliveries (ensure_conv N conv dm st) = t_deliveries st"
  by (simp_all add: ensure_conv_eq)

lemma ensure_conv_ok: "nacl_ok N \<Longrightarrow> store_ok N st \<Longrightarrow> store_ok N (ensure_conv N conv dm st)"
  unfolding store_ok_def
  by (simp add: ensure_conv_eq) (simp add: table_ok_insert enc_readable empty_json)

lemma ensure_conv_get:
  "dict_get (t_conversations (ensure_conv N conv dm st)) c =
    (case dict_get (t_conversations st) c of Some row \<Rightarrow> Some row
     | None \<Rightarrow> if c = conv then Some \<lparr>c_dm = dm, c_members = fst (enc N (Some ''{}'') st), c_muted = False, c_hidden = False\<rparr>
        else None)"
  by (simp add: ensure_conv_eq dict_get_insert)

lemma encrypted_row_eq:
  "encrypted_row N body att mk st =
     (mk (fst (enc N body st)) (fst (enc N (attachment_text att) (snd (enc N body st)))),
      snd (enc N (attachment_text att) (snd (enc N body st))))"
  by (simp add: encrypted_row_def case_prod_beta Let_def)

text \<open>The row \<open>ingest\<close> writes and the state it writes it into.\<close>

definition ingest_row ::
  "nacl \<Rightarrow> string \<Rightarrow> string \<Rightarrow> int \<Rightarrow> int \<Rightarrow> string option \<Rightarrow> json option \<Rightarrow> store \<Rightarrow> msg_row" where
  "ingest_row N conv sender seq ts body att st =
     fst (encrypted_row N body att
       (\<lambda>t a. \<lparr>m_conv = conv, m_sender = sender, m_dir = In, m_ts = ts, m_seq = seq,
          m_seqs = json_dumps (JObj [(sender, JInt seq)]), m_text = t, m_attachment = a\<rparr>)
       (ensure_conv N conv (conv = sender) st))"

lemma ingest_row_sel [simp]:
  "m_conv (ingest_row N conv sender seq ts body att st) = conv"
  "m_sender (ingest_row N conv sender seq ts body att st) = sender"
  "m_dir (ingest_row N conv sender seq ts body att st) = In"
  "m_ts (ingest_row N conv sender seq ts body att st) = ts"
  "m_seq (ingest_row N conv sender seq ts body att st) = seq"
  by (simp_all add: ingest_row_def encrypted_row_eq)

definition is_new :: "store \<Rightarrow> string \<Rightarrow> bool" where
  "is_new st mid \<longleftrightarrow> dict_get (t_messages st) mid = None"

lemma ingest_sel:
  "fst (ingest N conv sender seq ts body att st) \<longleftrightarrow> is_new st (in_id sender seq)"
  "t_messages (snd (ingest N conv sender seq ts body att st)) =
     insert_or_ignore (in_id sender seq) (ingest_row N conv sender seq ts body att st) (t_messages st)"
  "t_conversations (snd (ingest N conv sender seq ts body att st)) =
     (let cs = t_conversations (ensure_conv N conv (conv = sender) st)
      in if is_new st (in_id sender seq) then update_row conv (\<lambda>r. r\<lparr>c_hidden := False\<rparr>) cs else cs)"
  "box_key (snd (ingest N conv sender seq ts body att st)) = box_key st"
  "t_meta (snd (ingest N conv sender seq ts body att st)) = t_meta st"
  "t_watermark (snd (ingest N conv sender seq ts body att st)) = t_watermark st"
  "t_read_marks (snd (ingest N conv sender seq ts body att st)) = t_read_marks st"
  "t_pending (snd (ingest N conv sender seq ts body att st)) = t_pending st"
  "t_blocked_screens (snd (ingest N conv sender seq ts body att st)) = t_blocked_screens st"
  "t_muted_nodes (snd (ingest N conv sender seq ts body att st)) = t_muted_nodes st"
  "t_deliveries (snd (ingest N conv sender seq ts body att st)) = t_deliveries st"
  by (simp_all add: ingest_def ingest_row_def is_new_def encrypted_row_eq Let_def)

lemma ingest_row_ok:
  assumes "nacl_ok N" "length (box_key st) = 32" "valid_str sender"
    and "pred_option valid_str body" "pred_option valid_json att"
  shows "msg_row_ok N (box_key st) (ingest_row N conv sender seq ts body att st)"
proof -
  let ?st = "ensure_conv N conv (conv = sender) st"
  have "readable N (box_key st) (\<lambda>_. True) (fst (enc N body ?st))"
    using enc_readable [of N ?st "\<lambda>_. True" body] assms by simp
  moreover have "readable N (box_key st) is_json (fst (enc N (attachment_text att) (snd (enc N body ?st))))"
    using enc_readable [of N "snd (enc N body ?st)" is_json "attachment_text att"] assms attachment_text_json by simp
  ultimately show ?thesis
    using assms by (simp add: msg_row_ok_def ingest_row_def encrypted_row_eq is_json_dumps)
qed

lemma ingest_ok:
  assumes "nacl_ok N" "store_ok N st" "valid_str sender"
    and "pred_option valid_str body" "pred_option valid_json att"
  shows "store_ok N (snd (ingest N conv sender seq ts body att st))"
proof -
  have "msg_row_ok N (box_key st) (ingest_row N conv sender seq ts body att st)"
    using assms by (intro ingest_row_ok) (auto simp: store_ok_def)
  moreover have "store_ok N (ensure_conv N conv (conv = sender) st)" using assms by (simp add: ensure_conv_ok)
  ultimately show ?thesis
    using assms(2) by (simp add: store_ok_def ingest_sel Let_def table_ok_intros)
qed

definition sent_row ::
  "nacl \<Rightarrow> string \<Rightarrow> (string, int) dict \<Rightarrow> int \<Rightarrow> string option \<Rightarrow> json option \<Rightarrow> store \<Rightarrow> msg_row" where
  "sent_row N conv seqs ts body att st =
     fst (encrypted_row N body att
       (\<lambda>t a. \<lparr>m_conv = conv, m_sender = ''self'', m_dir = Out, m_ts = ts, m_seq = 0,
          m_seqs = json_dumps (JObj (map (\<lambda>(n, s). (n, JInt s)) seqs)), m_text = t, m_attachment = a\<rparr>)
       (ensure_conv N conv True st))"

lemma add_sent_sel:
  "fst (add_sent N conv seqs ts body att ks st) \<longleftrightarrow> is_new st (out_id seqs)"
  "t_messages (snd (add_sent N conv seqs ts body att ks st)) =
     insert_or_ignore (out_id seqs) (sent_row N conv seqs ts body att st) (t_messages st)"
  "t_deliveries (snd (add_sent N conv seqs ts body att ks st)) =
     fold (\<lambda>k. insert_or_ignore k \<lparr>d_msg_id = out_id seqs, d_acked = False\<rparr>) (delivery_key_set seqs ks) (t_deliveries st)"
  "t_conversations (snd (add_sent N conv seqs ts body att ks st)) = t_conversations (ensure_conv N conv True st)"
  "box_key (snd (add_sent N conv seqs ts body att ks st)) = box_key st"
  "t_meta (snd (add_sent N conv seqs ts body att ks st)) = t_meta st"
  "t_watermark (snd (add_sent N conv seqs ts body att ks st)) = t_watermark st"
  "t_read_marks (snd (add_sent N conv seqs ts body att ks st)) = t_read_marks st"
  "t_pending (snd (add_sent N conv seqs ts body att ks st)) = t_pending st"
  "t_blocked_screens (snd (add_sent N conv seqs ts body att ks st)) = t_blocked_screens st"
  "t_muted_nodes (snd (add_sent N conv seqs ts body att ks st)) = t_muted_nodes st"
  by (simp_all add: add_sent_def sent_row_def is_new_def encrypted_row_eq Let_def)

lemma seqs_json:
  assumes "wf_dict seqs" "list_all (\<lambda>(n, s). valid_str n) seqs"
  shows "valid_json (JObj (map (\<lambda>(n, s). (n, JInt s)) seqs))"
proof -
  have "map fst (map (\<lambda>(n, s). (n, JInt s)) seqs) = map fst seqs" by (induction seqs) auto
  then show ?thesis using assms by (auto simp: list_all_iff simp del: map_map)
qed

lemma sent_row_ok:
  assumes "nacl_ok N" "length (box_key st) = 32" "wf_dict seqs" "list_all (\<lambda>(n, s). valid_str n) seqs"
    and "pred_option valid_str body" "pred_option valid_json att"
  shows "msg_row_ok N (box_key st) (sent_row N conv seqs ts body att st)"
proof -
  let ?st = "ensure_conv N conv True st"
  have "readable N (box_key st) (\<lambda>_. True) (fst (enc N body ?st))"
    using enc_readable [of N ?st "\<lambda>_. True" body] assms by simp
  moreover have "readable N (box_key st) is_json (fst (enc N (attachment_text att) (snd (enc N body ?st))))"
    using enc_readable [of N "snd (enc N body ?st)" is_json "attachment_text att"] assms attachment_text_json by simp
  moreover have "is_json (json_dumps (JObj (map (\<lambda>(n, s). (n, JInt s)) seqs)))"
    using is_json_dumps [OF seqs_json [OF assms(3,4)]] by simp
  ultimately show ?thesis by (simp add: msg_row_ok_def sent_row_def encrypted_row_eq)
qed

lemma add_sent_ok:
  assumes "nacl_ok N" "store_ok N st" "wf_dict seqs" "list_all (\<lambda>(n, s). valid_str n) seqs"
    and "pred_option valid_str body" "pred_option valid_json att"
  shows "store_ok N (snd (add_sent N conv seqs ts body att ks st))"
proof -
  have "msg_row_ok N (box_key st) (sent_row N conv seqs ts body att st)"
    using assms by (intro sent_row_ok) (auto simp: store_ok_def)
  moreover have "store_ok N (ensure_conv N conv True st)" using assms by (simp add: ensure_conv_ok)
  ultimately show ?thesis
    using assms(2) by (simp add: store_ok_def add_sent_sel table_ok_intros)
qed

lemma ensure_room_ok:
  assumes "nacl_ok N" "store_ok N st" "valid_json mems"
  shows "store_ok N (ensure_room N conv mems st)"
proof -
  have "readable N (box_key st) is_json (fst (enc N (Some (json_dumps mems)) st))"
    using assms by (intro enc_readable) (auto simp: store_ok_def is_json_dumps)
  then show ?thesis
    using assms(2)
    by (auto simp: store_ok_def ensure_room_def case_prod_beta Let_def table_ok_intros split: option.split)
qed

lemma set_cursor_ok: "store_ok N st \<Longrightarrow> store_ok N (set_cursor peer seq st)"
  by (simp add: store_ok_def set_cursor_def table_ok_intros)

lemma clear_history_ok: "store_ok N st \<Longrightarrow> store_ok N (clear_history conv st)"
  by (simp add: store_ok_def clear_history_def table_ok_intros)

lemma delete_room_ok:
  assumes "store_ok N st"
  shows "store_ok N (delete_room conv pts st)"
proof -
  have fold: "store_ok N s \<Longrightarrow>
      store_ok N (fold (\<lambda>(node, latest) s. if latest \<noteq> 0 then set_cursor node latest s else s) pts s)" for s
    by (induction pts arbitrary: s) (auto simp: set_cursor_ok)
  show ?thesis
    unfolding delete_room_def Let_def
    by (rule fold) (use assms in \<open>simp add: store_ok_def table_ok_intros\<close>)
qed

lemma mark_delivered_ok: "store_ok N st \<Longrightarrow> store_ok N (snd (mark_delivered node seq st))"
  by (auto simp: store_ok_def mark_delivered_def table_ok_intros split: option.split)

lemma mark_read_ok: "store_ok N st \<Longrightarrow> store_ok N (mark_read conv st)"
  by (simp add: store_ok_def mark_read_def Let_def table_ok_intros)

lemma mute_conversation_ok: "nacl_ok N \<Longrightarrow> store_ok N st \<Longrightarrow> store_ok N (mute_conversation N conv st)"
  using ensure_conv_ok [of N st conv True]
  by (simp add: store_ok_def mute_conversation_def Let_def table_ok_intros)

lemma unmute_conversation_ok: "store_ok N st \<Longrightarrow> store_ok N (unmute_conversation conv st)"
  by (simp add: store_ok_def unmute_conversation_def table_ok_intros)

lemma mute_ok: "store_ok N st \<Longrightarrow> store_ok N (mute node st)" "store_ok N st \<Longrightarrow> store_ok N (unmute node st)"
  by (simp_all add: store_ok_def mute_def unmute_def)

lemma set_blocked_screen_ok:
  assumes "nacl_ok N" "store_ok N st" "pred_option valid_str screen"
  shows "store_ok N (set_blocked_screen N node screen st)"
proof -
  have "readable N (box_key st) (\<lambda>_. True) (fst (enc N screen st))"
    using assms by (intro enc_readable) (auto simp: store_ok_def)
  then show ?thesis
    using assms(2) by (simp add: store_ok_def set_blocked_screen_def case_prod_beta Let_def table_ok_intros)
qed

lemma clear_blocked_screen_ok: "store_ok N st \<Longrightarrow> store_ok N (clear_blocked_screen node st)"
  by (simp add: store_ok_def clear_blocked_screen_def table_ok_intros)

lemma add_pending_ok:
  assumes "nacl_ok N" "store_ok N st" "valid_json (JObj req)"
  shows "store_ok N (add_pending N req st)"
proof -
  obtain b where b: "fst (enc N (Some (json_dumps (JObj req))) st) = Some b" by (simp add: enc_def)
  have "readable N (box_key st) is_json (fst (enc N (Some (json_dumps (JObj req))) st))"
    using assms by (intro enc_readable) (auto simp: store_ok_def is_json_dumps)
  then show ?thesis
    using assms(2)
    by (auto simp: store_ok_def add_pending_def case_prod_beta Let_def pending_ok_def b image_iff)
qed

lemma distinct_filter_filter: "distinct (filter P (map f xs)) \<Longrightarrow> distinct (filter P (map f (filter Q xs)))"
  by (induction xs) auto

lemma pending_pop_ok: "store_ok N st \<Longrightarrow> store_ok N (snd (pending_pop N st))"
  by (auto simp: store_ok_def pending_pop_def pending_ok_def Let_def list_all_iff
      intro: distinct_filter_filter split: list.split)

lemmas store_ok_ops =
  set_cursor_ok clear_history_ok delete_room_ok mark_delivered_ok mark_read_ok mute_conversation_ok
  unmute_conversation_ok mute_ok set_blocked_screen_ok clear_blocked_screen_ok add_pending_ok
  pending_pop_ok ensure_room_ok ingest_ok add_sent_ok

text \<open>Every statement of the store's interface, as a step on the state.\<close>

datatype store_op =
    SetCursor string int
  | EnsureRoom string json
  | DeleteRoom string "(string, int) dict"
  | ClearHistory string
  | Ingest string string int int "string option" "json option"
  | AddSent string "(string, int) dict" int "string option" "json option" "(string \<times> int) list option"
  | MarkDelivered string int
  | MarkRead string
  | MuteConversation string
  | UnmuteConversation string
  | Mute string
  | Unmute string
  | SetBlockedScreen string "string option"
  | ClearBlockedScreen string
  | AddPending "(string, json) dict"
  | PendingPop

fun store_step :: "nacl \<Rightarrow> store_op \<Rightarrow> store \<Rightarrow> store" where
  "store_step N (SetCursor p n) st = set_cursor p n st"
| "store_step N (EnsureRoom c m) st = ensure_room N c m st"
| "store_step N (DeleteRoom c pts) st = delete_room c pts st"
| "store_step N (ClearHistory c) st = clear_history c st"
| "store_step N (Ingest c s n ts b a) st = snd (ingest N c s n ts b a st)"
| "store_step N (AddSent c seqs ts b a ks) st = snd (add_sent N c seqs ts b a ks st)"
| "store_step N (MarkDelivered n s) st = snd (mark_delivered n s st)"
| "store_step N (MarkRead c) st = mark_read c st"
| "store_step N (MuteConversation c) st = mute_conversation N c st"
| "store_step N (UnmuteConversation c) st = unmute_conversation c st"
| "store_step N (Mute n) st = mute n st"
| "store_step N (Unmute n) st = unmute n st"
| "store_step N (SetBlockedScreen n s) st = set_blocked_screen N n s st"
| "store_step N (ClearBlockedScreen n) st = clear_blocked_screen n st"
| "store_step N (AddPending r) st = add_pending N r st"
| "store_step N PendingPop st = snd (pending_pop N st)"

text \<open>Arguments that are Python strings and JSON values.\<close>

fun valid_op :: "store_op \<Rightarrow> bool" where
  "valid_op (EnsureRoom c m) = valid_json m"
| "valid_op (Ingest c s n ts b a) = (valid_str s \<and> pred_option valid_str b \<and> pred_option valid_json a)"
| "valid_op (AddSent c seqs ts b a ks) =
     (wf_dict seqs \<and> list_all (\<lambda>(n, s). valid_str n) seqs \<and> pred_option valid_str b \<and> pred_option valid_json a)"
| "valid_op (SetBlockedScreen n s) = pred_option valid_str s"
| "valid_op (AddPending r) = valid_json (JObj r)"
| "valid_op _ = True"

lemma store_step_ok: "nacl_ok N \<Longrightarrow> store_ok N st \<Longrightarrow> valid_op op \<Longrightarrow> store_ok N (store_step N op st)"
  by (cases op) (simp_all add: store_ok_ops del: valid_json.simps)

lemma store_steps_ok:
  "nacl_ok N \<Longrightarrow> store_ok N st \<Longrightarrow> list_all valid_op ops \<Longrightarrow> store_ok N (fold (store_step N) ops st)"
  by (induction ops arbitrary: st) (simp_all add: store_step_ok)

lemma open_store_ok:
  assumes "nacl_ok N" shows "\<exists>st. open_store N passphrase fresh empty_store = Ok st \<and> store_ok N st"
  using assms
  by (simp add: open_store_def salt_def empty_store_def store_ok_def kdf_key_def nacl_okD pending_ok_def)

section \<open>Cursors\<close>

lemma cursor_set_cursor:
  "cursor (set_cursor p n st) q =
     (if q = p then (case dict_get (t_watermark st) p of None \<Rightarrow> n | Some w \<Rightarrow> max w n) else cursor st q)"
  by (simp add: cursor_def set_cursor_def dict_get_upsert_max)

interpretation watermark: forward_cursor cursor set_cursor
proof unfold_locales
  fix s p and n :: int
  show "cursor s p \<le> n \<Longrightarrow> cursor (set_cursor p n s) p = n"
    unfolding cursor_set_cursor by (auto simp: cursor_def split: option.splits)
  show "0 \<le> n \<Longrightarrow> cursor s p \<le> cursor (set_cursor p n s) p"
    unfolding cursor_set_cursor by (auto simp: cursor_def split: option.splits)
qed (auto simp: cursor_set_cursor split: option.splits)

lemma delete_room_points:
  "fold (\<lambda>(node, latest) s. if latest \<noteq> 0 then set_cursor node latest s else s) pts st
     = fold (\<lambda>(p, n). set_cursor p n) (filter (\<lambda>(_, n). n \<noteq> 0) pts) st"
  by (induction pts arbitrary: st) auto

lemma cursor_cong: "t_watermark st = t_watermark st' \<Longrightarrow> cursor st = cursor st'"
  by (simp add: cursor_def fun_eq_iff)

lemma cursor_delete_room:
  assumes "list_all (\<lambda>(_, n). 0 \<le> n) pts"
  shows "cursor st q \<le> cursor (delete_room conv pts st) q"
    and "(p, n) \<in> set pts \<Longrightarrow> n \<noteq> 0 \<Longrightarrow> n \<le> cursor (delete_room conv pts st) p"
proof -
  let ?st = "st\<lparr>t_messages := filter (\<lambda>(_, m). m_conv m \<noteq> conv) (t_messages st),
      t_read_marks := filter (\<lambda>(c, _). c \<noteq> conv) (t_read_marks st),
      t_conversations := update_row conv (\<lambda>r. r\<lparr>c_hidden := True\<rparr>) (t_conversations st)\<rparr>"
  let ?pts = "filter (\<lambda>(_, n). n \<noteq> 0) pts"
  have nn: "list_all (\<lambda>(_, n). 0 \<le> n) ?pts" using assms by (auto simp: list_all_iff)
  have eq: "delete_room conv pts st = fold (\<lambda>(p, n). set_cursor p n) ?pts ?st"
    by (simp add: delete_room_def delete_room_points)
  have "cursor st = cursor ?st" by (rule cursor_cong) simp
  then show "cursor st q \<le> cursor (delete_room conv pts st) q"
    using watermark.adv_list_forward [OF nn, of ?st q] by (simp add: eq)
  show "n \<le> cursor (delete_room conv pts st) p" if "(p, n) \<in> set pts" "n \<noteq> 0"
    using watermark.adv_list_reach [OF nn, of p n ?st] that by (simp add: eq)
qed

text \<open>The sequence numbers and scan points the daemon reports are not negative.\<close>

fun seqs_nonneg :: "store_op \<Rightarrow> bool" where
  "seqs_nonneg (SetCursor p n) = (0 \<le> n)"
| "seqs_nonneg (DeleteRoom c pts) = list_all (\<lambda>(_, n). 0 \<le> n) pts"
| "seqs_nonneg _ = True"

lemma cursor_step: "seqs_nonneg op \<Longrightarrow> cursor st q \<le> cursor (store_step N op st) q"
proof (cases op)
  case (SetCursor p n)
  then show "seqs_nonneg op \<Longrightarrow> ?thesis" by (simp add: watermark.adv_forward)
next
  case (DeleteRoom c pts)
  then show "seqs_nonneg op \<Longrightarrow> ?thesis" by (simp add: cursor_delete_room)
qed (auto simp: cursor_def ingest_sel add_sent_sel ensure_room_def clear_history_def mark_delivered_def mark_read_def
      mute_conversation_def unmute_conversation_def mute_def unmute_def set_blocked_screen_def
      clear_blocked_screen_def add_pending_def pending_pop_def case_prod_beta Let_def split: option.splits list.splits)

lemma cursor_steps: "list_all seqs_nonneg ops \<Longrightarrow> cursor st q \<le> cursor (fold (store_step N) ops st) q"
proof (induction ops arbitrary: st)
  case (Cons op ops)
  then have "cursor st q \<le> cursor (store_step N op st) q" by (simp add: cursor_step)
  also have "\<dots> \<le> cursor (fold (store_step N) ops (store_step N op st)) q" using Cons by simp
  finally show ?case by simp
qed simp

section \<open>Message identity\<close>

lemma split_last_colon:
  assumes "c \<notin> set d" "c \<notin> set d'" "s @ c # d = s' @ c # d'"
  shows "s = s' \<and> d = d'"
proof -
  have "takeWhile (\<lambda>x. x \<noteq> c) (rev d @ c # rev s) = rev d" "takeWhile (\<lambda>x. x \<noteq> c) (rev d' @ c # rev s') = rev d'"
    using assms(1,2) by (auto simp: takeWhile_append)
  moreover have "rev d @ c # rev s = rev d' @ c # rev s'"
    using arg_cong [OF assms(3), of rev] by simp
  ultimately have "d = d'" by (metis rev_rev_ident)
  with assms(3) show ?thesis by simp
qed

lemma colon_not_int: "CHR '':'' \<notin> set (int_str i)"
proof -
  have "CHR '':'' \<notin> insert (CHR ''-'') (set decimal_digits)" by (simp add: decimal_digits_def)
  then show ?thesis using int_str_chars by blast
qed

lemma in_id_inj: "in_id sender seq = in_id sender' seq' \<longleftrightarrow> sender = sender' \<and> seq = seq'"
  using split_last_colon [OF colon_not_int colon_not_int] by (auto simp: in_id_def int_str_inj)

lemma in_id_not_out: "in_id sender seq \<noteq> out_id seqs"
  by (simp add: in_id_def out_id_def)

lemma is_new_insert: "is_new st' mid \<longleftrightarrow> is_new st mid \<and> mid \<noteq> mid'"
  if "t_messages st' = insert_or_ignore mid' row (t_messages st)"
  using that by (auto simp: is_new_def dict_get_insert split: option.splits)

definition ingest_keyed ::
  "nacl \<Rightarrow> string \<times> int \<Rightarrow> string \<times> int \<times> string option \<times> json option \<Rightarrow> store \<Rightarrow> bool \<times> store" where
  "ingest_keyed N = (\<lambda>(sender, seq) (conv, ts, body, att). ingest N conv sender seq ts body att)"

interpretation inbox: once_log "ingest_keyed N" "\<lambda>st (sender, seq). \<not> is_new st (in_id sender seq)" for N
proof unfold_locales
  fix k v and s :: store
  show "fst (ingest_keyed N k v s) = (\<not> (case k of (sender, seq) \<Rightarrow> \<not> is_new s (in_id sender seq)))"
    by (cases k; cases v) (simp add: ingest_keyed_def ingest_sel)
next
  fix k v k' and s :: store
  show "(case k' of (sender, seq) \<Rightarrow> \<not> is_new (snd (ingest_keyed N k v s)) (in_id sender seq)) =
      ((case k' of (sender, seq) \<Rightarrow> \<not> is_new s (in_id sender seq)) \<or> k' = k)"
    by (cases k; cases k'; cases v) (auto simp: ingest_keyed_def is_new_insert [OF ingest_sel(2)] in_id_inj)
qed

text \<open>A replayed message changes neither the messages nor which conversations are shown.\<close>

lemma ingest_again:
  assumes "\<not> is_new st (in_id sender seq)" and "dict_get (t_conversations st) conv \<noteq> None"
  shows "fst (ingest N conv sender seq ts body att st) = False"
    and "t_messages (snd (ingest N conv sender seq ts body att st)) = t_messages st"
    and "t_conversations (snd (ingest N conv sender seq ts body att st)) = t_conversations st"
  using assms by (auto simp: ingest_sel is_new_def insert_or_ignore_def ensure_conv_eq)

section \<open>Reading never fails\<close>

lemma is_json_loads: "is_json s \<Longrightarrow> \<exists>v. json_loads s = Ok v"
  by (cases "json_loads s") (auto simp: is_json_def)

lemma readable_json:
  assumes "readable N (box_key st) is_json (Some b)"
  obtains s v where "dec N (Some b) st = Ok (Some s)" "json_loads s = Ok v"
  using assms
proof (rule readable_dec)
  fix s
  assume "dec N (Some b) st = Ok s" "(s = None) = (Some b = None)" "\<And>t. s = Some t \<Longrightarrow> valid_str t \<and> is_json t"
  with that show thesis by (cases s) (auto dest: is_json_loads)
qed

lemma row_to_msg_total:
  assumes "msg_row_ok N (box_key st) m"
  shows "\<exists>v. row_to_msg N st summary (mid, m) = Ok v \<and> v_id v = mid \<and> v_ts v = m_ts m \<and> v_dir v = m_dir m \<and>
    v_delivery v = row_delivery (m_dir m) (dict_get summary mid)"
proof -
  from assms obtain seqs where "json_loads (m_seqs m) = Ok seqs" by (auto simp: msg_row_ok_def dest: is_json_loads)
  moreover from assms obtain t where "dec N (m_text m) st = Ok t"
    by (auto simp: msg_row_ok_def elim: readable_dec)
  moreover have "\<exists>a. (case m_attachment m of None \<Rightarrow> Ok None
      | Some b \<Rightarrow> bind_res (dec N (Some b) st) (\<lambda>s. bind_res (json_loads (the s)) (\<lambda>v. Ok (Some v)))) = Ok a"
  proof (cases "m_attachment m")
    case (Some b)
    with assms have "readable N (box_key st) is_json (Some b)" by (simp add: msg_row_ok_def)
    then show ?thesis using Some by (elim readable_json) simp
  qed simp
  ultimately show ?thesis by (auto simp: row_to_msg_def)
qed

lemma set_conv_rows: "set (conv_rows st conv) = {(mid, m) \<in> set (t_messages st). m_conv m = conv}"
  by (auto simp: conv_rows_def)

lemma messages_total:
  assumes "store_ok N st"
  obtains ms where "messages N st conv = Ok ms" "map v_id ms = map fst (conv_rows st conv)"
    "map v_ts ms = map (\<lambda>(_, m). m_ts m) (conv_rows st conv)"
    "map v_delivery ms = map (\<lambda>(mid, m). row_delivery (m_dir m)
        (dict_get (delivery_summary st (map fst (conv_rows st conv))) mid)) (conv_rows st conv)"
proof -
  let ?sum = "delivery_summary st (map fst (conv_rows st conv))"
  have row: "\<exists>v. row_to_msg N st ?sum (mid, m) = Ok v" if "(mid, m) \<in> set (conv_rows st conv)" for mid m
    using that assms row_to_msg_total [of N st m ?sum mid]
    by (auto simp: set_conv_rows store_ok_def dest: table_ok_mem)
  then have "\<forall>x \<in> set (conv_rows st conv). \<exists>v. row_to_msg N st ?sum x = Ok v" by auto
  then obtain ms where ms: "messages N st conv = Ok ms"
    using traverse_res_total [of "conv_rows st conv" "row_to_msg N st ?sum"]
    by (auto simp: messages_def Let_def)
  then have all2: "list_all2 (\<lambda>x y. row_to_msg N st ?sum x = Ok y) (conv_rows st conv) ms"
    by (simp add: messages_def Let_def traverse_res_list_all2)
  have "list_all2 (\<lambda>(mid, m) v. v_id v = mid \<and> v_ts v = m_ts m \<and>
      v_delivery v = row_delivery (m_dir m) (dict_get ?sum mid)) (conv_rows st conv) ms"
  proof (rule list.rel_mono_strong [OF all2], clarify)
    fix mid m v
    assume "(mid, m) \<in> set (conv_rows st conv)" and v: "row_to_msg N st ?sum (mid, m) = Ok v"
    then have "msg_row_ok N (box_key st) m"
      using assms by (auto simp: set_conv_rows store_ok_def dest: table_ok_mem)
    with v show "v_id v = mid \<and> v_ts v = m_ts m \<and> v_delivery v = row_delivery (m_dir m) (dict_get ?sum mid)"
      using row_to_msg_total [of N st m ?sum mid] by auto
  qed
  note rel = list_all2_map_eq [OF this]
  have "map v_id ms = map fst (conv_rows st conv) \<and> map v_ts ms = map (\<lambda>(_, m). m_ts m) (conv_rows st conv) \<and>
      map v_delivery ms = map (\<lambda>(mid, m). row_delivery (m_dir m) (dict_get ?sum mid)) (conv_rows st conv)"
    by (intro conjI; rule rel) auto
  with ms that show thesis by blast
qed

section \<open>Deliveries\<close>

text \<open>Acknowledging keys sets their flag and leaves everything else as it was.\<close>

definition ack_rows :: "(string \<times> int) set \<Rightarrow> ((string \<times> int) \<times> delivery_row) list \<Rightarrow> ((string \<times> int) \<times> delivery_row) list" where
  "ack_rows A t = map (\<lambda>(k, d). (k, d\<lparr>d_acked := d_acked d \<or> k \<in> A\<rparr>)) t"

lemma ack_rows_keys [simp]: "map fst (ack_rows A t) = map fst t"
  by (induction t) (auto simp: ack_rows_def)

lemma ack_rows_ack_rows: "ack_rows A (ack_rows B t) = ack_rows (B \<union> A) t"
  by (auto simp: ack_rows_def)

lemma ack_rows_done:
  assumes "\<And>k d. (k, d) \<in> set t \<Longrightarrow> k \<in> A \<Longrightarrow> d_acked d"
  shows "ack_rows A t = t"
  unfolding ack_rows_def
proof (rule map_idI)
  fix x assume "x \<in> set t"
  moreover obtain k d where x: "x = (k, d)" by (cases x)
  ultimately have "(d_acked d \<or> k \<in> A) = d_acked d" using assms by blast
  then show "(case x of (k, d) \<Rightarrow> (k, d\<lparr>d_acked := d_acked d \<or> k \<in> A\<rparr>)) = x" by (simp add: x)
qed

lemma ack_rows_empty [simp]: "ack_rows {} t = t"
  by (induction t) (auto simp: ack_rows_def)

lemma mark_delivered_rows:
  assumes "wf_dict (t_deliveries st)"
  shows "t_deliveries (snd (mark_delivered n s st)) = ack_rows {(n, s)} (t_deliveries st)"
proof -
  have row: "dict_get (t_deliveries st) k = Some d" if "(k, d) \<in> set (t_deliveries st)" for k d
    using assms that by (simp add: map_of_is_SomeI)
  show ?thesis
  proof (cases "dict_get (t_deliveries st) (n, s)")
    case None
    then have "ack_rows {(n, s)} (t_deliveries st) = t_deliveries st"
      by (intro ack_rows_done) (auto dest: row)
    with None show ?thesis by (simp add: mark_delivered_def)
  next
    case (Some d)
    show ?thesis
    proof (cases "d_acked d")
      case True
      with Some have "ack_rows {(n, s)} (t_deliveries st) = t_deliveries st"
        by (intro ack_rows_done) (auto dest: row)
      with Some True show ?thesis by (simp add: mark_delivered_def)
    next
      case False
      with Some show ?thesis by (auto simp: mark_delivered_def ack_rows_def update_row_def)
    qed
  qed
qed

definition mark_all :: "(string \<times> int) list \<Rightarrow> store \<Rightarrow> store" where
  "mark_all acks st = fold (\<lambda>(n, s) st. snd (mark_delivered n s st)) acks st"

lemma mark_all_rows:
  "wf_dict (t_deliveries st) \<Longrightarrow> t_deliveries (mark_all acks st) = ack_rows (set acks) (t_deliveries st)"
proof (induction acks arbitrary: st)
  case (Cons a acks)
  obtain n s where a: "a = (n, s)" by (cases a)
  have step: "t_deliveries (snd (mark_delivered n s st)) = ack_rows {(n, s)} (t_deliveries st)"
    using Cons.prems by (rule mark_delivered_rows)
  with Cons.prems have "wf_dict (t_deliveries (snd (mark_delivered n s st)))" by simp
  then have "t_deliveries (mark_all (a # acks) st) = ack_rows ({a} \<union> set acks) (t_deliveries st)"
    using Cons.IH by (simp add: mark_all_def a step ack_rows_ack_rows)
  then show ?case by simp
qed (simp add: mark_all_def)

lemma delivery_rows_fresh:
  assumes "\<And>k. k \<in> set ks \<Longrightarrow> dict_get t k = None" "distinct ks"
  shows "fold (\<lambda>k. insert_or_ignore k d) ks t = t @ map (\<lambda>k. (k, d)) ks"
  using assms
proof (induction ks arbitrary: t)
  case (Cons k ks)
  then have "dict_get (t @ [(k, d)]) k' = None" if "k' \<in> set ks" for k'
    using that Cons.prems by (auto simp: map_add_def)
  with Cons show ?case by (simp add: insert_or_ignore_def)
qed simp

lemma distinct_delivery_key_set: "distinct (delivery_key_set seqs ks)"
  by (simp add: delivery_key_set_def split: option.split)

lemma acked_rows_ack: "acked_rows (ack_rows A (map (\<lambda>k. (k, \<lparr>d_msg_id = m, d_acked = False\<rparr>)) ks)) = length (filter (\<lambda>k. k \<in> A) ks)"
  by (induction ks) (auto simp: acked_rows_def ack_rows_def)

lemma sent_rows_after_acks:
  assumes ok: "store_ok N st" and none: "delivery_rows st (out_id seqs) = []"
    and fresh: "\<And>k. k \<in> set (delivery_key_set seqs ks) \<Longrightarrow> dict_get (t_deliveries st) k = None"
  shows "delivery_rows (mark_all acks (snd (add_sent N conv seqs ts body att ks st))) (out_id seqs) =
    ack_rows (set acks) (map (\<lambda>k. (k, \<lparr>d_msg_id = out_id seqs, d_acked = False\<rparr>)) (delivery_key_set seqs ks))"
proof -
  let ?new = "map (\<lambda>k. (k, \<lparr>d_msg_id = out_id seqs, d_acked = False\<rparr>)) (delivery_key_set seqs ks)"
  let ?st = "snd (add_sent N conv seqs ts body att ks st)"
  have rows: "t_deliveries ?st = t_deliveries st @ ?new"
    by (simp add: add_sent_sel delivery_rows_fresh fresh distinct_delivery_key_set)
  have "table_ok (\<lambda>_. True) (t_deliveries ?st)"
    using ok by (simp add: add_sent_sel table_ok_intros store_ok_def)
  then have "t_deliveries (mark_all acks ?st) = ack_rows (set acks) (t_deliveries ?st)"
    by (intro mark_all_rows) (simp add: table_ok_def)
  moreover have "filter (\<lambda>(_, d). d_msg_id d = m) (ack_rows A t) = ack_rows A (filter (\<lambda>(_, d). d_msg_id d = m) t)" for A m and t :: "((string \<times> int) \<times> delivery_row) list"
    by (induction t) (auto simp: ack_rows_def)
  moreover have "filter (\<lambda>(_, d). d_msg_id d = out_id seqs) ?new = ?new" by (auto simp: filter_id_conv)
  ultimately show ?thesis
    using none by (simp add: delivery_rows_def rows)
qed

section \<open>The summary agrees with the per-message queries\<close>

definition bump :: "store \<Rightarrow> string \<times> string \<Rightarrow> (string, nat \<times> nat) dict \<Rightarrow> (string, nat \<times> nat) dict" where
  "bump st = (\<lambda>(mid, node) summary.
     let (n, k) = (case dict_get summary mid of None \<Rightarrow> (0, 0) | Some p \<Rightarrow> p)
     in dict_set mid (n + 1, k + (if node_done (delivery_rows st mid) node then 1 else 0)) summary)"

lemma bump_fold:
  "dict_get (fold (bump st) gs summary) mid =
     (let nodes = map snd (filter (\<lambda>(m, _). m = mid) gs)
      in if nodes = [] then dict_get summary mid
         else Some (fst (case dict_get summary mid of None \<Rightarrow> (0, 0) | Some p \<Rightarrow> p) + length nodes,
                    snd (case dict_get summary mid of None \<Rightarrow> (0, 0) | Some p \<Rightarrow> p)
                      + length (filter (node_done (delivery_rows st mid)) nodes)))"
proof (induction gs arbitrary: summary)
  case (Cons g gs)
  obtain m n where g: "g = (m, n)" by (cases g)
  show ?case
    unfolding fold_Cons o_apply Cons.IH
    by (auto simp: g bump_def Let_def dict_get_set split: prod.splits option.splits)
qed simp

lemma map_snd_filter_remdups:
  "map snd (filter (\<lambda>(m, _). m = mid) (remdups ps)) = remdups (map snd (filter (\<lambda>(m, _). m = mid) ps))"
proof (induction ps)
  case (Cons p ps)
  obtain m n where p: "p = (m, n)" by (cases p)
  have "n \<in> set (map snd (filter (\<lambda>(m, _). m = mid) ps)) \<longleftrightarrow> (mid, n) \<in> set ps" by force
  with Cons show ?case by (simp add: p)
qed simp

lemma summary_group_nodes:
  "map snd (filter (\<lambda>(m, _). m = mid) (summary_groups st ids)) =
     (if mid \<in> set ids then row_nodes (delivery_rows st mid) else [])"
proof -
  have "map snd (filter (\<lambda>(m, _). m = mid)
        (map (\<lambda>((n, _), d). (d_msg_id d, n)) (filter (\<lambda>(_, d). d_msg_id d \<in> set ids) t))) =
     (if mid \<in> set ids then map (\<lambda>((n, _), _). n) (filter (\<lambda>(_, d). d_msg_id d = mid) t) else [])"
    for t :: "((string \<times> int) \<times> delivery_row) list"
    by (induction t) auto
  then show ?thesis
    by (simp add: summary_groups_def row_nodes_def delivery_rows_def map_snd_filter_remdups)
qed

lemma delivery_summary_members:
  assumes "mid \<in> set mids" and "mid \<noteq> []"
  shows "dict_get (delivery_summary st mids) mid =
    (if delivery_rows st mid = [] then None else Some (delivery_members st mid))"
proof -
  let ?ids = "remdups (filter (\<lambda>m. m \<noteq> []) mids)"
  have "mid \<in> set ?ids" using assms by simp
  then have "?ids \<noteq> []" by (metis empty_iff list.set(1))
  then have "delivery_summary st mids = fold (bump st) (summary_groups st ?ids) []"
    by (simp add: delivery_summary_def bump_def Let_def)
  with \<open>mid \<in> set ?ids\<close> show ?thesis
    by (simp add: bump_fold summary_group_nodes delivery_members_def Let_def row_nodes_def)
qed

section \<open>Unread counts\<close>

lemma sql_max_ge: "x \<in> set xs \<Longrightarrow> x \<le> sql_max xs"
  by (auto simp: sql_max_def)

lemma unread_mark_read: "unread (mark_read conv st) conv = 0"
proof -
  let ?upto = "sql_max (map (\<lambda>(_, m). m_ts m) (filter (\<lambda>(_, m). m_conv m = conv) (t_messages st)))"
  have le: "m_ts m \<le> ?upto" if "(mid, m) \<in> set (t_messages st)" "m_conv m = conv" for mid m
    using that by (intro sql_max_ge) force
  have "?upto \<le> read_upto (mark_read conv st) conv"
    by (simp add: read_upto_def mark_read_def Let_def dict_get_upsert_max split: option.split)
  with le have "\<not> m_ts m > read_upto (mark_read conv st) conv"
    if "(mid, m) \<in> set (t_messages st)" "m_conv m = conv" for mid m
    using that by fastforce
  moreover have "t_messages (mark_read conv st) = t_messages st" by (simp add: mark_read_def Let_def)
  ultimately show ?thesis by (auto simp: unread_def filter_empty_conv)
qed

lemma unread_mark_read_other: "c \<noteq> conv \<Longrightarrow> unread (mark_read conv st) c = unread st c"
  by (simp add: unread_def read_upto_def mark_read_def Let_def dict_get_upsert_max)

lemma unread_ingest:
  "unread (snd (ingest N conv sender seq ts body att st)) c =
     unread st c + (if is_new st (in_id sender seq) \<and> c = conv \<and> ts > read_upto st conv then 1 else 0)"
  by (auto simp: unread_def read_upto_def ingest_sel insert_or_ignore_def is_new_def)

section \<open>Dismissing a conversation\<close>

lemma set_cursor_frame [simp]:
  "t_messages (set_cursor p n st) = t_messages st" "t_conversations (set_cursor p n st) = t_conversations st"
  "t_read_marks (set_cursor p n st) = t_read_marks st" "box_key (set_cursor p n st) = box_key st"
  "t_deliveries (set_cursor p n st) = t_deliveries st"
  by (simp_all add: set_cursor_def)

lemma set_cursor_fold_frame:
  "t_messages (fold (\<lambda>(p, n). set_cursor p n) pts st) = t_messages st \<and>
   t_conversations (fold (\<lambda>(p, n). set_cursor p n) pts st) = t_conversations st"
  by (induction pts arbitrary: st) auto

lemma delete_room_sel:
  "t_messages (delete_room conv pts st) = filter (\<lambda>(_, m). m_conv m \<noteq> conv) (t_messages st)"
  "t_conversations (delete_room conv pts st) = update_row conv (\<lambda>r. r\<lparr>c_hidden := True\<rparr>) (t_conversations st)"
  by (simp_all add: delete_room_def delete_room_points set_cursor_fold_frame)

lemma rooms_iff:
  "wf_dict (t_conversations st) \<Longrightarrow>
   c \<in> set (rooms st) \<longleftrightarrow> (\<exists>row. dict_get (t_conversations st) c = Some row \<and> \<not> c_dm row \<and> \<not> c_hidden row)"
  by (force simp: rooms_def)

lemma conv_rows_delete_room: "conv_rows (delete_room conv pts st) conv = []"
proof -
  have "filter (\<lambda>(_, m). m_conv m = conv) (t_messages (delete_room conv pts st)) = []"
    by (auto simp: delete_room_sel filter_empty_conv)
  then show ?thesis by (simp add: conv_rows_def)
qed

lemma wf_ingest_conversations:
  "wf_dict (t_conversations st) \<Longrightarrow> wf_dict (t_conversations (snd (ingest N conv sender seq ts body att st)))"
  using table_ok_insert [of "\<lambda>_. True" "t_conversations st"]
  by (simp add: ingest_sel ensure_conv_eq Let_def table_ok_def list_all_iff)

section \<open>The queue of pending requests\<close>

text \<open>
  A queue in which a key waits at most once: what the contact-request dialogs rely on.
\<close>

fun pops :: "('s \<Rightarrow> 'r option \<times> 's) \<Rightarrow> nat \<Rightarrow> 's \<Rightarrow> 'r option list" where
  "pops pop 0 s = []"
| "pops pop (Suc n) s = fst (pop s) # pops pop n (snd (pop s))"

locale keyed_queue =
  fixes add :: "'r \<Rightarrow> 's \<Rightarrow> 's"
    and pop :: "'s \<Rightarrow> 'r option \<times> 's"
    and contents :: "'s \<Rightarrow> 'r list"
    and key :: "'r \<Rightarrow> 'k"
    and ok :: "'s \<Rightarrow> bool"
    and valid :: "'r \<Rightarrow> bool"
  assumes add_ok: "ok s \<Longrightarrow> valid r \<Longrightarrow> ok (add r s)"
    and add_contents: "ok s \<Longrightarrow> valid r \<Longrightarrow>
      contents (add r s) = (if key r \<in> key ` set (contents s) then contents s else contents s @ [r])"
    and pop_ok: "ok s \<Longrightarrow> ok (snd (pop s))"
    and pop_empty: "ok s \<Longrightarrow> contents s = [] \<Longrightarrow> fst (pop s) = None"
    and pop_first: "ok s \<Longrightarrow> contents s = r # rs \<Longrightarrow> fst (pop s) = Some r"
    and pop_contents: "ok s \<Longrightarrow> contents (snd (pop s)) = tl (contents s)"
begin

text \<open>Popping as often as there are requests returns them in order and empties the queue.\<close>

lemma drain: "ok s \<Longrightarrow> pops pop (length (contents s)) s = map Some (contents s)"
proof (induction "contents s" arbitrary: s)
  case (Cons r rs)
  from Cons.prems have ok': "ok (snd (pop s))" by (rule pop_ok)
  have rest: "contents (snd (pop s)) = rs" using pop_contents [OF Cons.prems] Cons.hyps(2) by (metis list.sel(3))
  have "fst (pop s) = Some r" using pop_first [OF Cons.prems Cons.hyps(2) [symmetric]] .
  moreover have "pops pop (length rs) (snd (pop s)) = map Some rs"
    using Cons.hyps(1) [OF rest [symmetric] ok'] rest by simp
  ultimately show ?case by (simp add: Cons.hyps(2) [symmetric])
qed simp

lemma add_twice: "ok s \<Longrightarrow> valid r \<Longrightarrow> contents (add r (add r s)) = contents (add r s)"
  by (auto simp: add_contents add_ok)

lemma add_distinct:
  "ok s \<Longrightarrow> valid r \<Longrightarrow> distinct (map key (contents s)) \<Longrightarrow> distinct (map key (contents (add r s)))"
  by (auto simp: add_contents)

end

text \<open>Every waiting blob is a request with a node, stored under that node.\<close>

definition request_of :: "nacl \<Rightarrow> bytes \<Rightarrow> bytes \<Rightarrow> (string, json) dict" where
  "request_of N key b =
     (case bind_res (n_box_decrypt N key b) json_loads_bytes of Ok (JObj kvs) \<Rightarrow> kvs | _ \<Rightarrow> [])"

definition request_ok :: "nacl \<Rightarrow> bytes \<Rightarrow> string option \<times> bytes \<Rightarrow> bool" where
  "request_ok N key = (\<lambda>(node, b). node \<noteq> None \<and> req_node (request_of N key b) = node \<and>
     bind_res (n_box_decrypt N key b) json_loads_bytes = Ok (JObj (request_of N key b)))"

definition queue_ok :: "nacl \<Rightarrow> store \<Rightarrow> bool" where
  "queue_ok N st \<longleftrightarrow> nacl_ok N \<and> length (box_key st) = 32 \<and> distinct (map fst (t_pending st)) \<and>
     list_all (request_ok N (box_key st)) (t_pending st)"

definition pending_contents :: "nacl \<Rightarrow> store \<Rightarrow> (string, json) dict list" where
  "pending_contents N st = map (\<lambda>(_, b). request_of N (box_key st) b) (t_pending st)"

definition pop_request :: "nacl \<Rightarrow> store \<Rightarrow> (string, json) dict option \<times> store" where
  "pop_request N st =
     ((case fst (pending_pop N st) of Ok (Some (JObj r)) \<Rightarrow> Some r | _ \<Rightarrow> None), snd (pending_pop N st))"

definition valid_request :: "(string, json) dict \<Rightarrow> bool" where
  "valid_request req \<longleftrightarrow> valid_json (JObj req) \<and> req_node req \<noteq> None"

lemma dec_json:
  "bind_res (dec N (Some b) st) (\<lambda>s. f (json_loads (the s))) =
   (case n_box_decrypt N (box_key st) b of Err e \<Rightarrow> Err e | Ok pt \<Rightarrow>
      (case decode_utf8 pt of Err e \<Rightarrow> Err e | Ok s \<Rightarrow> f (json_loads s)))"
  by (simp add: dec_def split: res.split)

lemma add_pending_sel:
  assumes "queue_ok N st" "valid_request req"
  obtains b where "request_ok N (box_key st) (req_node req, b)" "request_of N (box_key st) b = req"
    "box_key (add_pending N req st) = box_key st"
    "t_pending (add_pending N req st) =
       (if req_node req \<in> fst ` set (t_pending st) then t_pending st else t_pending st @ [(req_node req, b)])"
proof -
  let ?b = "n_box_encrypt N (box_key st) (draws st) (encode_utf8 (json_dumps (JObj req)))"
  have "bind_res (n_box_decrypt N (box_key st) ?b) json_loads_bytes = Ok (JObj req)"
    using assms by (simp add: nacl_okD queue_ok_def valid_request_def json_loads_bytes_dumps)
  then have req: "request_of N (box_key st) ?b = req"
    "request_ok N (box_key st) (req_node req, ?b)"
    using assms(2) by (simp_all add: request_of_def request_ok_def valid_request_def)
  show thesis
  proof (rule that [OF req(2,1)])
    show "box_key (add_pending N req st) = box_key st"
      by (simp add: add_pending_def case_prod_beta Let_def)
    show "t_pending (add_pending N req st) =
       (if req_node req \<in> fst ` set (t_pending st) then t_pending st else t_pending st @ [(req_node req, ?b)])"
      using assms(2) by (auto simp: add_pending_def enc_def Let_def valid_request_def)
  qed
qed

lemma filter_first_key:
  "distinct (map fst ((k, v) # kvs)) \<Longrightarrow> filter (\<lambda>(k', _). k' \<noteq> k) ((k, v) # kvs) = kvs"
  by (auto simp: filter_id_conv image_iff)

lemma pending_pop_sel:
  assumes "queue_ok N st"
  shows "pending_pop N st = (case t_pending st of [] \<Rightarrow> (Ok None, st)
    | (node, b) # rest \<Rightarrow> (Ok (Some (JObj (request_of N (box_key st) b))), st\<lparr>t_pending := rest\<rparr>))"
proof (cases "t_pending st")
  case (Cons p rest)
  obtain node b where p: "p = (node, b)" by (cases p)
  from assms Cons p obtain n where node: "node = Some n"
    and load: "bind_res (n_box_decrypt N (box_key st) b) json_loads_bytes = Ok (JObj (request_of N (box_key st) b))"
    by (auto simp: queue_ok_def request_ok_def)
  have filter: "filter (\<lambda>(n, _). n \<noteq> node) (t_pending st) = rest"
    using assms filter_first_key [of node b rest] by (simp add: queue_ok_def Cons p)
  from load obtain pt s where "n_box_decrypt N (box_key st) b = Ok pt" "decode_utf8 pt = Ok s"
      "json_loads s = Ok (JObj (request_of N (box_key st) b))"
    by (auto simp: json_loads_bytes_def elim!: bind_res_Ok)
  then show ?thesis
    using node filter by (simp add: pending_pop_def Cons p dec_json [where f = "\<lambda>r. bind_res r (\<lambda>v. Ok (Some v))"])
qed (simp add: pending_pop_def)

interpretation requests:
  keyed_queue "add_pending N" "pop_request N" "pending_contents N" req_node "queue_ok N" valid_request for N
proof unfold_locales
  fix s r assume s: "queue_ok N s" and r: "valid_request r"
  obtain b where b: "request_ok N (box_key s) (req_node r, b)" "request_of N (box_key s) b = r"
      "box_key (add_pending N r s) = box_key s"
      "t_pending (add_pending N r s) =
        (if req_node r \<in> fst ` set (t_pending s) then t_pending s else t_pending s @ [(req_node r, b)])"
    using add_pending_sel [OF s r] by blast
  from s b show "queue_ok N (add_pending N r s)" by (auto simp: queue_ok_def)
  have "req_node (request_of N (box_key s) b') = n" if "(n, b') \<in> set (t_pending s)" for n b'
    using s that by (auto simp: queue_ok_def list_all_iff request_ok_def)
  then have keys: "req_node ` set (pending_contents N s) = fst ` set (t_pending s)"
    by (force simp: pending_contents_def image_iff)
  show "pending_contents N (add_pending N r s) =
      (if req_node r \<in> req_node ` set (pending_contents N s) then pending_contents N s
       else pending_contents N s @ [r])"
    unfolding keys using b by (auto simp: pending_contents_def)
next
  fix s assume s: "queue_ok N s"
  show "queue_ok N (snd (pop_request N s))"
    using s by (auto simp: pop_request_def pending_pop_sel queue_ok_def split: list.splits)
  show "pending_contents N s = [] \<Longrightarrow> fst (pop_request N s) = None"
    using s by (auto simp: pop_request_def pending_pop_sel pending_contents_def)
  show "pending_contents N (snd (pop_request N s)) = tl (pending_contents N s)"
    using s by (auto simp: pop_request_def pending_pop_sel pending_contents_def split: list.split)
  fix r rs
  show "pending_contents N s = r # rs \<Longrightarrow> fst (pop_request N s) = Some r"
    using s by (auto simp: pop_request_def pending_pop_sel pending_contents_def)
qed

lemma length_filter_all: "length (filter P xs) = length xs \<longleftrightarrow> list_all P xs"
  by (metis Ball_set filter_id_conv length_filter_less nat_less_le)

section \<open>Reopening\<close>

lemma set_cursor_fold_meta:
  "t_meta (fold (\<lambda>(p, n). set_cursor p n) pts st) = t_meta st \<and> box_key (fold (\<lambda>(p, n). set_cursor p n) pts st) = box_key st"
  by (induction pts arbitrary: st) (auto simp: set_cursor_def)

lemma store_step_meta: "t_meta (store_step N op st) = t_meta st \<and> box_key (store_step N op st) = box_key st"
  by (cases op) (auto simp: ingest_sel add_sent_sel set_cursor_def ensure_room_def clear_history_def mark_delivered_def
      mark_read_def mute_conversation_def unmute_conversation_def mute_def unmute_def set_blocked_screen_def
      clear_blocked_screen_def add_pending_def pending_pop_def delete_room_def delete_room_points set_cursor_fold_meta
      case_prod_beta Let_def split: option.splits list.splits)

lemma store_steps_meta:
  "t_meta (fold (store_step N) ops st) = t_meta st \<and> box_key (fold (store_step N) ops st) = box_key st"
  by (induction ops arbitrary: st) (simp_all add: store_step_meta)

lemma open_store_again:
  assumes "open_store N passphrase fresh st0 = Ok st" and "t_meta st' = t_meta st" and "box_key st' = box_key st"
  shows "open_store N passphrase fresh' st' = Ok st'"
proof (cases "dict_get (t_meta st0) ''salt''")
  case None
  then have "st = st0\<lparr>t_meta := t_meta st0 @ [(''salt'', b64encode fresh)], box_key := kdf_key N passphrase fresh\<rparr>"
    using assms(1) by (auto simp: open_store_def salt_def)
  then have "dict_get (t_meta st') ''salt'' = Some (b64encode fresh)" "box_key st' = kdf_key N passphrase fresh"
    using assms(2,3) None by (simp_all add: map_add_def)
  then show ?thesis by (simp add: open_store_def salt_def b64decode_encode)
next
  case (Some row)
  then obtain s where "b64decode row = Ok s" "st = st0\<lparr>box_key := kdf_key N passphrase s\<rparr>"
    using assms(1) by (auto simp: open_store_def salt_def elim: bind_res_Ok)
  then show ?thesis using assms(2,3) Some by (simp add: open_store_def salt_def)
qed

lemma readers_total:
  assumes "store_ok N st"
  shows "is_ok (members N st conv)" "is_ok (blocked_screen N st node)" "is_ok (pending_requests N st)"
proof -
  show "is_ok (members N st conv)"
  proof (cases "dict_get (t_conversations st) conv")
    case (Some row)
    with assms have "readable N (box_key st) is_json (c_members row)"
      unfolding store_ok_def by (blast dest: table_ok_get)
    with Some show ?thesis
      by (cases "c_members row") (auto simp: members_def elim!: readable_json)
  qed (simp add: members_def)
  show "is_ok (blocked_screen N st node)"
  proof (cases "dict_get (t_blocked_screens st) node")
    case (Some blob)
    with assms have "readable N (box_key st) (\<lambda>_. True) blob"
      unfolding store_ok_def by (blast dest: table_ok_get)
    with Some show ?thesis by (auto simp: blocked_screen_def elim!: readable_dec)
  qed (simp add: blocked_screen_def)
  have "\<forall>p \<in> set (t_pending st). \<exists>v. (\<lambda>(_, b). bind_res (dec N (Some b) st) (\<lambda>s. json_loads (the s))) p = Ok v"
    using assms by (auto simp: store_ok_def pending_ok_def list_all_iff elim!: readable_json)
  from traverse_res_total [OF this] show "is_ok (pending_requests N st)" by (auto simp: pending_requests_def)
qed

section \<open>Properties\<close>

text \<open>
  C4: after any sequence of store operations on a new store the invariant holds and no read
  can fail: every conversation lists exactly its messages, by time and then identifier, and
  rosters, blocked names and pending requests decrypt and parse. Opening the store again with
  the same passphrase changes nothing.
\<close>

theorem store_always_readable:
  assumes "nacl_ok N" and "open_store N passphrase fresh empty_store = Ok st0" and "list_all valid_op ops"
    and st: "st = fold (store_step N) ops st0"
  shows "(\<exists>ms. messages N st conv = Ok ms \<and> sorted (map (\<lambda>m. (v_ts m, v_id m)) ms) \<and>
      set (map v_id ms) = {mid. \<exists>m. (mid, m) \<in> set (t_messages st) \<and> m_conv m = conv}) \<and>
    is_ok (members N st conv) \<and> is_ok (blocked_screen N st node) \<and> is_ok (pending_requests N st) \<and>
    open_store N passphrase fresh' st = Ok st"
proof -
  have "store_ok N st0" using open_store_ok [OF assms(1), of passphrase fresh] assms(2) by auto
  then have ok: "store_ok N st" unfolding st using assms(1,3) by (intro store_steps_ok)
  then obtain ms where ms: "messages N st conv = Ok ms" "map v_id ms = map fst (conv_rows st conv)"
      "map v_ts ms = map (\<lambda>(_, m). m_ts m) (conv_rows st conv)"
    by (rule messages_total)
  have zip: "zip (map f xs) (map g xs) = map (\<lambda>x. (f x, g x)) xs" for f :: "'a \<Rightarrow> 'b" and g :: "'a \<Rightarrow> 'c" and xs
    by (induction xs) auto
  have "map (\<lambda>m. (v_ts m, v_id m)) ms = zip (map v_ts ms) (map v_id ms)" by (simp add: zip)
  also have "\<dots> = map (\<lambda>(mid, m). (m_ts m, mid)) (conv_rows st conv)"
    unfolding ms by (simp add: zip case_prod_beta)
  finally have "sorted (map (\<lambda>m. (v_ts m, v_id m)) ms)"
    by (simp add: conv_rows_def)
  with ms have "\<exists>ms. messages N st conv = Ok ms \<and> sorted (map (\<lambda>m. (v_ts m, v_id m)) ms) \<and>
      set (map v_id ms) = {mid. \<exists>m. (mid, m) \<in> set (t_messages st) \<and> m_conv m = conv}"
    by (intro exI [of _ ms]) (force simp: set_conv_rows image_iff)
  moreover have "is_ok (members N st conv)" "is_ok (blocked_screen N st node)" "is_ok (pending_requests N st)"
    using ok by (rule readers_total)+
  moreover have "open_store N passphrase fresh' st = Ok st"
    unfolding st using open_store_again [OF assms(2)] store_steps_meta by blast
  ultimately show ?thesis by blast
qed

theorem store_always_readable_witness:
  "\<exists>st0 ms. open_store plain_nacl ''pw'' [1, 2] empty_store = Ok st0 \<and>
     messages plain_nacl (fold (store_step plain_nacl)
       [Ingest ''ann'' ''ann'' 2 7 (Some ''hi'') None, Ingest ''ann'' ''ann'' 1 9 (Some ''yo'') None] st0) ''ann'' = Ok ms \<and>
     sorted (map (\<lambda>m. (v_ts m, v_id m)) ms)"
proof -
  obtain st0 where st0: "open_store plain_nacl ''pw'' [1, 2] empty_store = Ok st0"
    using open_store_ok [OF plain_nacl_ok] by blast
  have "list_all valid_op
      [Ingest ''ann'' ''ann'' 2 7 (Some ''hi'') None, Ingest ''ann'' ''ann'' 1 9 (Some ''yo'') None]"
    by (simp add: valid_str_lit)
  from store_always_readable [OF plain_nacl_ok st0 this refl] st0 show ?thesis by blast
qed


text \<open>
  no store operation moves a peer's ingest cursor backwards, and dismissing a room moves
  it to every scan point given.
\<close>

theorem cursors_only_advance:
  assumes "list_all seqs_nonneg ops"
  shows "cursor st peer \<le> cursor (fold (store_step N) ops st) peer \<and>
    (list_all (\<lambda>(_, n). 0 \<le> n) pts \<and> (peer, n) \<in> set pts \<and> n \<noteq> 0 \<longrightarrow> n \<le> cursor (delete_room conv pts st) peer)"
  using cursor_steps [OF assms] cursor_delete_room(2) by blast

theorem cursors_only_advance_witness:
  "cursor empty_store ''p'' \<le> cursor (fold (store_step plain_nacl) [SetCursor ''p'' 4, SetCursor ''p'' 2] empty_store) ''p'' \<and>
   9 \<le> cursor (delete_room ''r'' [(''p'', 9)] empty_store) ''p''"
  using cursors_only_advance [of "[SetCursor ''p'' 4, SetCursor ''p'' 2]" empty_store "''p''" plain_nacl "[(''p'', 9)]" 9 "''r''"]
  by simp

text \<open>
  C20: an outgoing message is delivered exactly when every tracked chunk has been acknowledged,
  whatever the order and the repetitions of the acknowledgements; the progress counts the
  acknowledged chunks.
\<close>

theorem delivered_when_all_acked:
  assumes "store_ok N st" and "delivery_rows st (out_id seqs) = []"
    and "list_all (\<lambda>k. dict_get (t_deliveries st) k = None) (delivery_key_set seqs ks)"
    and "sent = snd (add_sent N conv seqs ts body att ks st)"
  shows "is_delivered (mark_all acks sent) (out_id seqs) =
      (if delivery_key_set seqs ks = [] then None else Some (set (delivery_key_set seqs ks) \<subseteq> set acks)) \<and>
    delivery_progress (mark_all acks sent) (out_id seqs) =
      (length (delivery_key_set seqs ks), length (filter (\<lambda>k. k \<in> set acks) (delivery_key_set seqs ks)))"
proof -
  let ?ks = "delivery_key_set seqs ks"
  have rows: "delivery_rows (mark_all acks sent) (out_id seqs) =
      ack_rows (set acks) (map (\<lambda>k. (k, \<lparr>d_msg_id = out_id seqs, d_acked = False\<rparr>)) ?ks)"
    unfolding assms(4) using assms(1-3) by (intro sent_rows_after_acks) (auto simp: list_all_iff)
  have len: "length (ack_rows A t) = length t" "ack_rows A t = [] \<longleftrightarrow> t = []" for A t
    by (simp_all add: ack_rows_def)
  have "length (filter (\<lambda>k. k \<in> set acks) ?ks) = length ?ks \<longleftrightarrow> set ?ks \<subseteq> set acks"
    unfolding length_filter_all list_all_iff by blast
  with rows show ?thesis
    by (simp add: is_delivered_def delivery_progress_def acked_rows_ack len Let_def)
qed

theorem delivered_when_all_acked_witness:
  "\<exists>st0. is_delivered (mark_all [(''b'', 2)] (snd (add_sent plain_nacl ''c'' [(''a'', 1), (''b'', 2)] 5 None None None st0)))
      (out_id [(''a'', 1), (''b'', 2)]) = Some False \<and>
    is_delivered (mark_all [(''b'', 2), (''a'', 1), (''b'', 2)]
      (snd (add_sent plain_nacl ''c'' [(''a'', 1), (''b'', 2)] 5 None None None st0))) (out_id [(''a'', 1), (''b'', 2)]) = Some True"
proof -
  obtain st0 where st0: "open_store plain_nacl ''pw'' [1] empty_store = Ok st0" and ok: "store_ok plain_nacl st0"
    using open_store_ok [OF plain_nacl_ok] by blast
  from st0 have none: "t_deliveries st0 = []" by (auto simp: open_store_def salt_def empty_store_def)
  have keys: "delivery_key_set [(''a'', 1), (''b'', 2)] None = [(''a'', 1), (''b'', 2)]"
    by (simp add: delivery_key_set_def)
  show ?thesis
    using delivered_when_all_acked [OF ok _ _ refl, of "[(''a'', 1), (''b'', 2)]" None "[(''b'', 2)]"]
      delivered_when_all_acked [OF ok _ _ refl, of "[(''a'', 1), (''b'', 2)]" None "[(''b'', 2), (''a'', 1), (''b'', 2)]"]
    by (intro exI [of _ st0]) (simp add: none keys delivery_rows_def)
qed

text \<open>
  the delivery marks of a conversation's messages agree with the per-message query: an
  outgoing message carries its number of recipients and how many of them have everything.
\<close>

theorem messages_delivery_marks:
  assumes "store_ok N st" and "list_all (\<lambda>(mid, _). mid \<noteq> []) (t_messages st)"
  shows "\<exists>ms. messages N st conv = Ok ms \<and>
    map v_delivery ms = map (\<lambda>(mid, m). row_delivery (m_dir m)
      (if delivery_rows st mid = [] then None else Some (delivery_members st mid))) (conv_rows st conv)"
proof -
  from assms(1) obtain ms where ms: "messages N st conv = Ok ms"
      "map v_delivery ms = map (\<lambda>(mid, m). row_delivery (m_dir m)
        (dict_get (delivery_summary st (map fst (conv_rows st conv))) mid)) (conv_rows st conv)"
    by (rule messages_total)
  have "dict_get (delivery_summary st (map fst (conv_rows st conv))) mid =
      (if delivery_rows st mid = [] then None else Some (delivery_members st mid))"
    if "(mid, m) \<in> set (conv_rows st conv)" for mid m
  proof (rule delivery_summary_members)
    from that show "mid \<in> set (map fst (conv_rows st conv))" by force
    from that assms(2) show "mid \<noteq> []" unfolding set_conv_rows list_all_iff by blast
  qed
  then have "map (\<lambda>(mid, m). row_delivery (m_dir m)
        (dict_get (delivery_summary st (map fst (conv_rows st conv))) mid)) (conv_rows st conv) =
      map (\<lambda>(mid, m). row_delivery (m_dir m)
        (if delivery_rows st mid = [] then None else Some (delivery_members st mid))) (conv_rows st conv)"
    by (intro map_cong) auto
  with ms show ?thesis by simp
qed

theorem messages_delivery_marks_witness:
  "\<exists>st ms. messages plain_nacl st ''c'' = Ok ms \<and> t_messages st \<noteq> [] \<and>
     map v_delivery ms = map (\<lambda>(mid, m). row_delivery (m_dir m)
       (if delivery_rows st mid = [] then None else Some (delivery_members st mid))) (conv_rows st ''c'')"
proof -
  obtain st0 where st0: "open_store plain_nacl ''pw'' [1] empty_store = Ok st0" and ok: "store_ok plain_nacl st0"
    using open_store_ok [OF plain_nacl_ok] by blast
  let ?st = "snd (add_sent plain_nacl ''c'' [(''a'', 1)] 5 None None None st0)"
  have "store_ok plain_nacl ?st" by (rule add_sent_ok [OF plain_nacl_ok ok]) (simp_all add: valid_str_lit)
  moreover have rows: "t_messages ?st = [(out_id [(''a'', 1)], sent_row plain_nacl ''c'' [(''a'', 1)] 5 None None st0)]"
    using st0 by (auto simp: add_sent_sel insert_or_ignore_def open_store_def salt_def empty_store_def)
  moreover have "list_all (\<lambda>(mid, _). mid \<noteq> []) (t_messages ?st)" by (simp add: rows out_id_def)
  ultimately show ?thesis using messages_delivery_marks [of plain_nacl ?st "''c''"] by fastforce
qed

text \<open>
  marking a conversation read leaves it with no unread message and the others as they
  were; a new inbound message later than the mark adds one, any other leaves the counts alone.
\<close>

theorem unread_counts:
  "unread (mark_read conv st) conv = 0 \<and>
   (if c = conv then True else unread (mark_read conv st) c = unread st c) \<and>
   unread (snd (ingest N conv sender seq ts body att st)) c =
     unread st c + (if is_new st (in_id sender seq) \<and> c = conv \<and> ts > read_upto st conv then 1 else 0)"
  by (simp add: unread_mark_read unread_mark_read_other unread_ingest)

text \<open>
  dismissing a room empties it and takes it off the list; the next message that is new
  to the store brings it back with that message only.
\<close>

theorem dismissed_room_returns:
  assumes "store_ok N st" and "is_room st conv" and "is_new st (in_id sender seq)"
    and "gone = delete_room conv pts st"
    and "back = snd (ingest N conv sender seq ts body att gone)"
  shows "conv \<notin> set (rooms gone) \<and> conv_rows gone conv = [] \<and>
    conv \<in> set (rooms back) \<and> map fst (conv_rows back conv) = [in_id sender seq]"
proof -
  have wf: "wf_dict (t_conversations st)" using assms(1) by (simp add: store_ok_def table_ok_def)
  from assms(2) obtain row where row: "dict_get (t_conversations st) conv = Some row" "\<not> c_dm row"
    by (auto simp: is_room_def split: option.splits)
  have gone_row: "dict_get (t_conversations gone) conv = Some (row\<lparr>c_hidden := True\<rparr>)"
    by (simp add: assms(4) delete_room_sel dict_get_update_row row)
  have wf_gone: "wf_dict (t_conversations gone)" using wf by (simp add: assms(4) delete_room_sel)
  then have wf_back: "wf_dict (t_conversations back)"
    unfolding assms(5) by (rule wf_ingest_conversations)
  have new: "is_new gone (in_id sender seq)"
    using assms(3) by (simp add: is_new_def assms(4) delete_room_sel map_of_eq_None_iff image_iff)
  have "dict_get (t_conversations back) conv = Some (row\<lparr>c_hidden := False\<rparr>)"
    by (simp add: assms(5) ingest_sel new Let_def dict_get_update_row ensure_conv_get gone_row)
  moreover have "filter (\<lambda>(_, m). m_conv m = conv) (t_messages back) =
      [(in_id sender seq, ingest_row N conv sender seq ts body att gone)]"
    using new conv_rows_delete_room [of conv pts st]
    by (auto simp: assms(4,5) ingest_sel insert_or_ignore_def is_new_def delete_room_sel filter_empty_conv)
  ultimately show ?thesis
    using rooms_iff [OF wf_gone, of conv] rooms_iff [OF wf_back, of conv] gone_row row
    by (simp add: assms(4) conv_rows_delete_room, simp add: conv_rows_def flip: assms(4))
qed

text \<open>
  C21: pending contact requests form a queue with one entry per node: a repeated request is not
  queued twice, and popping returns the requests in the order they came.
\<close>

theorem pending_requests_queue:
  assumes "queue_ok N st" and "valid_request req"
  shows "pending_contents N (add_pending N req st) =
      (if req_node req \<in> req_node ` set (pending_contents N st) then pending_contents N st
       else pending_contents N st @ [req]) \<and>
    pops (pop_request N) (length (pending_contents N st)) st = map Some (pending_contents N st) \<and>
    pending_contents N (add_pending N req (add_pending N req st)) = pending_contents N (add_pending N req st)"
  using requests.add_contents [OF assms] requests.drain [OF assms(1)] requests.add_twice [OF assms] by simp

theorem pending_requests_queue_witness:
  "\<exists>st. pending_contents plain_nacl (add_pending plain_nacl [(''node'', JStr ''ab'')] st) = [[(''node'', JStr ''ab'')]]"
proof -
  obtain st0 where st0: "open_store plain_nacl ''pw'' [1] empty_store = Ok st0" and ok: "store_ok plain_nacl st0"
    using open_store_ok [OF plain_nacl_ok] by blast
  then have "queue_ok plain_nacl st0" "t_pending st0 = []"
    by (auto simp: queue_ok_def plain_nacl_ok store_ok_def open_store_def salt_def empty_store_def)
  moreover have "valid_request [(''node'', JStr ''ab'')]"
    by (simp add: valid_request_def req_node_def valid_str_lit)
  ultimately show ?thesis
    using pending_requests_queue [of plain_nacl st0 "[(''node'', JStr ''ab'')]"]
    by (intro exI [of _ st0]) (simp add: pending_contents_def)
qed

theorem dismissed_room_returns_witness:
  "\<exists>st. ''r'' \<notin> set (rooms (delete_room ''r'' [(''p'', 3)] st)) \<and>
     ''r'' \<in> set (rooms (snd (ingest plain_nacl ''r'' ''p'' 4 9 None None (delete_room ''r'' [(''p'', 3)] st))))"
proof -
  obtain st0 where ok: "store_ok plain_nacl st0" and st0: "open_store plain_nacl ''pw'' [1] empty_store = Ok st0"
    using open_store_ok [OF plain_nacl_ok] by blast
  let ?st = "ensure_room plain_nacl ''r'' (JObj []) st0"
  have "store_ok plain_nacl ?st" by (rule ensure_room_ok [OF plain_nacl_ok ok]) simp
  moreover from st0 have "is_room ?st ''r''" "is_new ?st (in_id ''p'' 4)"
    by (auto simp: is_room_def is_new_def ensure_room_def enc_def open_store_def salt_def empty_store_def)
  ultimately show ?thesis
    using dismissed_room_returns [OF _ _ _ refl refl, of plain_nacl ?st "''r''" "''p''" 4 "[(''p'', 3)]" 9 None None]
    by blast
qed

lemma ingest_messages:
  assumes "nacl_ok N" and "store_ok N st" and "valid_str sender"
    and "pred_option valid_str body" and "pred_option valid_json att" and "is_new st (in_id sender seq)"
    and st': "st' = snd (ingest N conv sender seq ts body att st)"
  shows "\<exists>ms v. messages N st' conv = Ok ms \<and> v \<in> set ms \<and> v_id v = in_id sender seq \<and> v_dir v = In \<and>
    v_sender v = sender \<and> v_ts v = ts \<and> v_text v = body \<and>
    v_attachment v = (case att of None \<Rightarrow> None | Some a \<Rightarrow> if json_truthy a then Some a else None)"
proof -
  let ?row = "ingest_row N conv sender seq ts body att st" and ?e = "ensure_conv N conv (conv = sender) st"
  have ok: "store_ok N st'" unfolding st' using assms by (intro ingest_ok)
  have key: "length (box_key st) = 32" using assms(2) by (simp add: store_ok_def)
  have mem: "(in_id sender seq, ?row) \<in> set (conv_rows st' conv)"
    using assms(6) by (simp add: set_conv_rows st' ingest_sel insert_or_ignore_def is_new_def)
  from ok obtain ms where ms: "messages N st' conv = Ok ms" by (rule messages_total)
  then have "list_all2 (\<lambda>x y. row_to_msg N st' (delivery_summary st' (map fst (conv_rows st' conv))) x = Ok y)
      (conv_rows st' conv) ms"
    by (simp add: messages_def Let_def traverse_res_list_all2)
  with mem obtain v where v: "v \<in> set ms"
      "row_to_msg N st' (delivery_summary st' (map fst (conv_rows st' conv))) (in_id sender seq, ?row) = Ok v"
    by (blast dest: list_all2_mem)
  have body: "dec N (m_text ?row) st' = Ok body"
    using assms(1,4) key by (simp add: ingest_row_def encrypted_row_eq dec_enc st' ingest_sel)
  have att: "dec N (m_attachment ?row) st' = Ok (attachment_text att)"
    using assms(1,5) key attachment_text_json [OF assms(5)]
    by (simp add: ingest_row_def encrypted_row_eq dec_enc st' ingest_sel option.pred_mono_strong)
  have "m_attachment ?row = None \<longleftrightarrow> attachment_text att = None"
    by (simp add: ingest_row_def encrypted_row_eq enc_def split: option.split)
  moreover have "json_loads (json_dumps a) = Ok a" if "att = Some a" for a
    using assms(5) that by (simp add: json_loads_dumps)
  moreover have "json_loads (m_seqs ?row) = Ok (JObj [(sender, JInt seq)])"
    using assms(3) by (simp add: ingest_row_def encrypted_row_eq json_loads_dumps)
  ultimately have "v_id v = in_id sender seq \<and> v_dir v = In \<and> v_sender v = sender \<and> v_ts v = ts \<and> v_text v = body \<and>
      v_attachment v = (case att of None \<Rightarrow> None | Some a \<Rightarrow> if json_truthy a then Some a else None)"
    using v(2) body att
    by (auto simp: row_to_msg_def attachment_text_def split: option.splits if_splits)
  with ms v(1) show ?thesis by blast
qed

text \<open>
  a message that is new to the store can be read back from its conversation with the
  sender, time, text and attachment it was stored with.
\<close>

theorem ingest_readback:
  assumes "nacl_ok N" and "store_ok N st" and "valid_str sender"
    and "pred_option valid_str body" and "pred_option valid_json att" and "is_new st (in_id sender seq)"
    and st': "st' = snd (ingest N conv sender seq ts body att st)"
  shows "\<exists>ms v. messages N st' conv = Ok ms \<and> v \<in> set ms \<and> v_id v = in_id sender seq \<and> v_dir v = In \<and>
    v_sender v = sender \<and> v_ts v = ts \<and> v_text v = body \<and>
    v_attachment v = (case att of None \<Rightarrow> None | Some a \<Rightarrow> if json_truthy a then Some a else None)"
  using assms by (rule ingest_messages)

theorem ingest_readback_witness:
  "\<exists>st ms v. messages plain_nacl (snd (ingest plain_nacl ''ann'' ''ann'' 3 7 (Some ''hi'') None st)) ''ann'' = Ok ms \<and>
     v \<in> set ms \<and> v_text v = Some ''hi''"
proof -
  obtain st0 where ok: "store_ok plain_nacl st0" and st0: "open_store plain_nacl ''pw'' [1] empty_store = Ok st0"
    using open_store_ok [OF plain_nacl_ok] by blast
  from st0 have "is_new st0 (in_id ''ann'' 3)"
    by (auto simp: is_new_def open_store_def salt_def empty_store_def)
  with ingest_readback [OF plain_nacl_ok ok, of "''ann''" "Some ''hi''" None 3 _ "''ann''" 7]
  show ?thesis by (auto simp: valid_str_lit)
qed
end
