(* ===== verification/Service.thy ===== *)
theory Service
  imports Store Protocol
begin

text \<open>
  \<open>client/aimless/service.py\<close>: the synchronisation of the daemon's journal into the store.

  What a peer signed and what the daemon answers are JSON values, so each step checks the types
  as Python and SQLite would when the value is used. A raised exception leaves the changes made
  before it, hence every operation returns a result together with the store. SQLite's storing of
  a number as a conversation id, or of a text or a float as a time, is not modelled: such values
  count as refused by the binding, as lists and objects are.
\<close>

section \<open>Values on their way into SQLite\<close>

fun sql_text :: "json \<Rightarrow> string res" where
  "sql_text (JStr s) = Ok s"
| "sql_text _ = Err (SqliteError ''type is not supported'')"

text \<open>A \<open>NULL\<close> time makes \<open>INSERT OR IGNORE\<close> skip the row: the column is \<open>NOT NULL\<close>.\<close>

fun sql_ts :: "json \<Rightarrow> int option res" where
  "sql_ts (JInt i) = Ok (Some i)"
| "sql_ts (JBool b) = Ok (Some (if b then 1 else 0))"
| "sql_ts JNull = Ok None"
| "sql_ts _ = Err (SqliteError ''type is not supported'')"

text \<open>The argument of \<open>_enc\<close>: \<open>None\<close> or a string, anything else has no \<open>encode\<close>.\<close>

fun enc_arg :: "json \<Rightarrow> string option res" where
  "enc_arg JNull = Ok None"
| "enc_arg (JStr s) = Ok (Some s)"
| "enc_arg _ = Err (AttributeError ''object has no attribute encode'')"

text \<open>Iterating over a JSON value.\<close>

fun json_iter :: "json \<Rightarrow> json list res" where
  "json_iter (JArr xs) = Ok xs"
| "json_iter (JObj kvs) = Ok (map (\<lambda>(k, _). JStr k) kvs)"
| "json_iter (JStr s) = Ok (map (\<lambda>n. JStr (utf8_cp n)) (utf8_cps s))"
| "json_iter _ = Err (TypeError ''object is not iterable'')"

text \<open>A dict key as \<open>json.dumps\<close> will write it; lists and objects are not hashable.\<close>

fun json_key :: "json \<Rightarrow> string res" where
  "json_key (JStr s) = Ok s"
| "json_key (JInt i) = Ok (int_str i)"
| "json_key (JFloat s) = Ok s"
| "json_key (JBool b) = Ok (if b then ''true'' else ''false'')"
| "json_key JNull = Ok ''null''"
| "json_key _ = Err (TypeError ''unhashable type'')"

text \<open>\<open>{m["node"]: m for m in members}\<close>\<close>

definition member_dict :: "json \<Rightarrow> json res" where
  "member_dict mems =
     bind_res (json_iter mems) (\<lambda>ms.
     bind_res (traverse_res (\<lambda>m. bind_res (json_item m ''node'') (\<lambda>n. bind_res (json_key n) (\<lambda>k. Ok (k, m)))) ms)
       (\<lambda>kvs. Ok (JObj (fold (\<lambda>(k, m). dict_set k m) kvs []))))"

definition open_message_json :: "nacl \<Rightarrow> bytes \<Rightarrow> json \<Rightarrow> (string, json) dict res" where
  "open_message_json N identity payload =
     (case payload of
        JStr p \<Rightarrow> open_message N identity p
      | _ \<Rightarrow> Err (TypeError ''argument should be a bytes-like object or ASCII string''))"

section \<open>Routing one message\<close>

definition ingest_json ::
  "nacl \<Rightarrow> json \<Rightarrow> string \<Rightarrow> int \<Rightarrow> json \<Rightarrow> json \<Rightarrow> store \<Rightarrow> (string \<times> bool) res \<times> store" where
  "ingest_json N conv_v sender seq ts body st =
     (case sql_text conv_v of
        Err e \<Rightarrow> (Err e, st)
      | Ok conv \<Rightarrow>
          (case enc_arg body of
             Err e \<Rightarrow> (Err e, ensure_conv N conv (conv = sender) st)
           | Ok b \<Rightarrow>
               (case sql_ts ts of
                  Err e \<Rightarrow> (Err e, snd (enc N b (ensure_conv N conv (conv = sender) st)))
                | Ok None \<Rightarrow> (Ok (conv, False), snd (enc N b (ensure_conv N conv (conv = sender) st)))
                | Ok (Some t) \<Rightarrow>
                    let (new, st') = ingest N conv sender seq t b None st in (Ok (conv, new), st'))))"

definition opened_conv :: "string \<Rightarrow> (string, json) dict \<Rightarrow> json" where
  "opened_conv peer opened =
     (case dict_get opened ''conv'' of
        None \<Rightarrow> JStr peer
      | Some v \<Rightarrow> if json_truthy v then v else JStr peer)"

text \<open>A message that names members makes or updates the room first.\<close>

definition route_room :: "nacl \<Rightarrow> string \<Rightarrow> (string, json) dict \<Rightarrow> store \<Rightarrow> store res" where
  "route_room N peer opened st =
     (case dict_get opened ''members'' of
        None \<Rightarrow> Ok st
      | Some ms \<Rightarrow>
          if json_truthy ms
          then bind_res (member_dict ms) (\<lambda>d.
               bind_res (sql_text (opened_conv peer opened)) (\<lambda>c. Ok (ensure_room N c d st)))
          else Ok st)"

definition route :: "nacl \<Rightarrow> string \<Rightarrow> int \<Rightarrow> (string, json) dict \<Rightarrow> store \<Rightarrow> (string \<times> bool) res \<times> store" where
  "route N peer seq opened st =
     (case route_room N peer opened st of
        Err e \<Rightarrow> (Err e, st)
      | Ok st1 \<Rightarrow>
          (case bind_res (json_item (JObj opened) ''ts'') (\<lambda>ts.
                bind_res (json_item (JObj opened) ''text'') (\<lambda>body. Ok (ts, body))) of
             Err e \<Rightarrow> (Err e, st1)
           | Ok (ts, body) \<Rightarrow> ingest_json N (opened_conv peer opened) peer seq ts body st1))"

section \<open>Fetching and applying\<close>

text \<open>The daemon's answer to a history request is an argument.\<close>

fun fetch_loop ::
  "(string \<Rightarrow> int \<Rightarrow> json res) \<Rightarrow> string list \<Rightarrow> store \<Rightarrow> (string, json) dict \<Rightarrow> (string, json) dict res" where
  "fetch_loop history [] st d = Ok d"
| "fetch_loop history (p # ps) st d =
     bind_res (history p (cursor st p)) (\<lambda>r. fetch_loop history ps st (dict_set p r d))"

definition fetch :: "(string \<Rightarrow> int \<Rightarrow> json res) \<Rightarrow> string list \<Rightarrow> store \<Rightarrow> (string, json) dict res" where
  "fetch history peers st = fetch_loop history peers st []"

text \<open>\<open>m.get("seq", 0)\<close> compared with an integer.\<close>

definition entry_seq :: "json \<Rightarrow> int res" where
  "entry_seq m =
     bind_res (json_get m ''seq'') (\<lambda>s. case s of None \<Rightarrow> Ok 0 | Some v \<Rightarrow> json_int v)"

fun apply_msgs ::
  "nacl \<Rightarrow> bytes \<Rightarrow> string \<Rightarrow> json list \<Rightarrow> int \<Rightarrow> nat \<Rightarrow> store \<Rightarrow> (int \<times> nat) res \<times> store" where
  "apply_msgs N identity peer [] max_seen added st = (Ok (max_seen, added), st)"
| "apply_msgs N identity peer (m # ms) max_seen added st =
     (case entry_seq m of
        Err e \<Rightarrow> (Err e, st)
      | Ok seq \<Rightarrow>
          let max_seen' = (if seq > max_seen then seq else max_seen)
          in case bind_res (json_item m ''payload'') (open_message_json N identity) of
               Err e \<Rightarrow>
                 if is_ValueError e \<or> is_KeyError e
                 then apply_msgs N identity peer ms max_seen' added st
                 else (Err e, st)
             | Ok opened \<Rightarrow>
                 (case route N peer seq opened st of
                    (Err e, st1) \<Rightarrow> (Err e, st1)
                  | (Ok (_, new), st1) \<Rightarrow>
                      apply_msgs N identity peer ms max_seen' (if new then added + 1 else added) st1))"

definition sync_apply :: "nacl \<Rightarrow> bytes \<Rightarrow> string \<Rightarrow> json \<Rightarrow> store \<Rightarrow> nat res \<times> store" where
  "sync_apply N identity peer resp st =
     (let after = cursor st peer
      in case bind_res (json_get resp ''msgs'') (\<lambda>ms. case ms of None \<Rightarrow> Ok [] | Some v \<Rightarrow> json_iter v) of
           Err e \<Rightarrow> (Err e, st)
         | Ok msgs \<Rightarrow>
             (case apply_msgs N identity peer msgs after 0 st of
                (Err e, st1) \<Rightarrow> (Err e, st1)
              | (Ok (max_seen, added), st1) \<Rightarrow>
                  (Ok added, if max_seen > after then set_cursor peer max_seen st1 else st1)))"

definition sync_peer :: "nacl \<Rightarrow> bytes \<Rightarrow> (string \<Rightarrow> int \<Rightarrow> json res) \<Rightarrow> string \<Rightarrow> store \<Rightarrow> nat res \<times> store" where
  "sync_peer N identity history peer st =
     (case fetch history [peer] st of
        Err e \<Rightarrow> (Err e, st)
      | Ok d \<Rightarrow> (case dict_get d peer of None \<Rightarrow> (Err (KeyError peer), st)
          | Some resp \<Rightarrow> sync_apply N identity peer resp st))"

fun apply_all :: "nacl \<Rightarrow> bytes \<Rightarrow> (string, json) dict \<Rightarrow> store \<Rightarrow> nat res \<times> store" where
  "apply_all N identity [] st = (Ok 0, st)"
| "apply_all N identity ((p, r) # prs) st =
     (case sync_apply N identity p r st of
        (Err e, st1) \<Rightarrow> (Err e, st1)
      | (Ok n, st1) \<Rightarrow>
          (case apply_all N identity prs st1 of
             (Err e, st2) \<Rightarrow> (Err e, st2)
           | (Ok k, st2) \<Rightarrow> (Ok (n + k), st2)))"

definition sync_peers :: "nacl \<Rightarrow> bytes \<Rightarrow> (string \<Rightarrow> int \<Rightarrow> json res) \<Rightarrow> string list \<Rightarrow> store \<Rightarrow> nat res \<times> store" where
  "sync_peers N identity history peers st =
     (case fetch history peers st of Err e \<Rightarrow> (Err e, st) | Ok d \<Rightarrow> apply_all N identity d st)"

section \<open>Live events\<close>

definition ingest_opened ::
  "nacl \<Rightarrow> string \<Rightarrow> int \<Rightarrow> (string, json) dict \<Rightarrow> store \<Rightarrow> (string \<times> bool) res \<times> store" where
  "ingest_opened N peer seq opened st =
     (case route N peer seq opened st of
        (Err e, st1) \<Rightarrow> (Err e, st1)
      | (Ok r, st1) \<Rightarrow> (Ok r, if seq > cursor st1 peer then set_cursor peer seq st1 else st1))"

text \<open>
  A peer name in an event is a string; an absent or empty one is ignored, as is a message
  that does not open.
\<close>

definition on_event :: "nacl \<Rightarrow> bytes \<Rightarrow> (string, json) dict \<Rightarrow> store \<Rightarrow> (string option \<times> bool) res \<times> store" where
  "on_event N identity event st =
     (case dict_get event ''from'' of
        Some (JStr peer) \<Rightarrow>
          if peer = [] then (Ok (None, False), st)
          else
            (case bind_res (json_item (JObj event) ''payload'') (open_message_json N identity) of
               Err e \<Rightarrow> if is_ValueError e \<or> is_KeyError e then (Ok (None, False), st) else (Err e, st)
             | Ok opened \<Rightarrow>
                 (case entry_seq (JObj event) of
                    Err e \<Rightarrow> (Err e, st)
                  | Ok seq \<Rightarrow>
                      (case ingest_opened N peer seq opened st of
                         (Err e, st1) \<Rightarrow> (Err e, st1)
                       | (Ok (conv, new), st1) \<Rightarrow> (Ok (Some conv, new), st1))))
      | Some v \<Rightarrow>
          if json_truthy v then (Err (SqliteError ''type is not supported''), st) else (Ok (None, False), st)
      | None \<Rightarrow> (Ok (None, False), st))"

section \<open>What decides the outcome of a message\<close>

text \<open>
  Whether a message raises, and whether it can add a row, depends on the message alone;
  whether it does add a row depends on the store only through its identifier.
\<close>

definition room_check :: "string \<Rightarrow> (string, json) dict \<Rightarrow> unit res" where
  "room_check peer opened =
     (case dict_get opened ''members'' of
        None \<Rightarrow> Ok ()
      | Some ms \<Rightarrow>
          if json_truthy ms
          then bind_res (member_dict ms) (\<lambda>_. bind_res (sql_text (opened_conv peer opened)) (\<lambda>_. Ok ()))
          else Ok ())"

definition route_check :: "string \<Rightarrow> (string, json) dict \<Rightarrow> (string \<times> bool) res" where
  "route_check peer opened =
     bind_res (room_check peer opened) (\<lambda>_.
     bind_res (json_item (JObj opened) ''ts'') (\<lambda>ts.
     bind_res (json_item (JObj opened) ''text'') (\<lambda>body.
     bind_res (sql_text (opened_conv peer opened)) (\<lambda>c.
     bind_res (enc_arg body) (\<lambda>_.
     bind_res (sql_ts ts) (\<lambda>t. Ok (c, t \<noteq> None)))))))"

definition entry_plan :: "nacl \<Rightarrow> bytes \<Rightarrow> string \<Rightarrow> json \<Rightarrow> (int \<times> bool) res" where
  "entry_plan N identity peer m =
     bind_res (entry_seq m) (\<lambda>seq.
       case bind_res (json_item m ''payload'') (open_message_json N identity) of
         Err e \<Rightarrow> if is_ValueError e \<or> is_KeyError e then Ok (seq, False) else Err e
       | Ok opened \<Rightarrow> bind_res (route_check peer opened) (\<lambda>(_, ins). Ok (seq, ins)))"

lemma bind_res_cases: "bind_res r f = (case r of Ok x \<Rightarrow> f x | Err e \<Rightarrow> Err e)"
  by (cases r) auto

lemma ensure_room_frame [simp]:
  "t_messages (ensure_room N c d st) = t_messages st" "t_watermark (ensure_room N c d st) = t_watermark st"
  by (simp_all add: ensure_room_def case_prod_beta Let_def)

lemma ingest_json_result:
  "fst (ingest_json N conv_v peer seq ts body st) =
     bind_res (sql_text conv_v) (\<lambda>c. bind_res (enc_arg body) (\<lambda>_. bind_res (sql_ts ts) (\<lambda>t.
       Ok (c, t \<noteq> None \<and> is_new st (in_id peer seq)))))"
  by (auto simp: ingest_json_def case_prod_beta Let_def ingest_sel split: res.split option.split)

lemma ingest_json_watermark: "t_watermark (snd (ingest_json N conv_v peer seq ts body st)) = t_watermark st"
  by (auto simp: ingest_json_def case_prod_beta Let_def ingest_sel split: res.split option.split)

lemma ingest_json_new:
  "is_new (snd (ingest_json N conv_v peer seq ts body st)) mid \<longleftrightarrow> is_new st mid \<and>
     \<not> (is_ok (sql_text conv_v) \<and> is_ok (enc_arg body) \<and> (\<exists>t. sql_ts ts = Ok (Some t)) \<and> mid = in_id peer seq)"
proof -
  have frame: "is_new (snd (enc N b (ensure_conv N c d st))) mid = is_new st mid"
    "is_new (ensure_conv N c d st) mid = is_new st mid" for b c d
    by (simp_all add: is_new_def)
  show ?thesis
    by (auto simp: ingest_json_def case_prod_beta Let_def frame is_new_insert [OF ingest_sel(2)] split: res.split option.split)
qed

lemma route_room_Err: "route_room N peer opened st = Err e \<longleftrightarrow> room_check peer opened = Err e"
  by (cases "member_dict (the (dict_get opened ''members''))"; cases "sql_text (opened_conv peer opened)")
     (auto simp: route_room_def room_check_def split: option.split)

lemma route_room_Ok:
  "route_room N peer opened st = Ok st1 \<Longrightarrow>
   room_check peer opened = Ok () \<and> t_messages st1 = t_messages st \<and> t_watermark st1 = t_watermark st"
  by (auto simp: route_room_def room_check_def elim!: bind_res_Ok split: option.splits if_splits)

lemma route_cases:
  "route N peer seq opened st = (case route_room N peer opened st of
     Err e \<Rightarrow> (Err e, st)
   | Ok st1 \<Rightarrow> (case json_item (JObj opened) ''ts'' of Err e \<Rightarrow> (Err e, st1)
       | Ok ts \<Rightarrow> (case json_item (JObj opened) ''text'' of Err e \<Rightarrow> (Err e, st1)
           | Ok body \<Rightarrow> ingest_json N (opened_conv peer opened) peer seq ts body st1)))"
  by (cases "json_item (JObj opened) ''ts''"; cases "json_item (JObj opened) ''text''")
     (simp_all add: route_def del: json_item.simps split: res.split)

lemma route_result:
  "fst (route N peer seq opened st) =
     bind_res (route_check peer opened) (\<lambda>(c, ins). Ok (c, ins \<and> is_new st (in_id peer seq)))"
proof (cases "route_room N peer opened st")
  case (Ok st1)
  from route_room_Ok [OF this] have "room_check peer opened = Ok ()" "is_new st1 mid = is_new st mid" for mid
    by (simp_all add: is_new_def)
  with Ok show ?thesis
    by (simp add: route_cases route_check_def ingest_json_result del: json_item.simps split: res.split)
       (auto elim: bind_res_Ok simp del: json_item.simps simp: bind_res_cases split: res.split)
next
  case (Err e)
  with route_room_Err [THEN iffD1, OF Err] show ?thesis by (simp add: route_cases route_check_def)
qed

lemma route_watermark: "t_watermark (snd (route N peer seq opened st)) = t_watermark st"
  by (auto simp: route_cases ingest_json_watermark dest: route_room_Ok split: res.split simp del: json_item.simps)

lemma route_new:
  "is_new (snd (route N peer seq opened st)) mid \<longleftrightarrow> is_new st mid \<and>
     \<not> ((\<exists>c. route_check peer opened = Ok (c, True)) \<and> mid = in_id peer seq)"
proof (cases "route_room N peer opened st")
  case (Ok st1)
  from route_room_Ok [OF this] have "room_check peer opened = Ok ()" "is_new st1 mid = is_new st mid" for mid
    by (simp_all add: is_new_def)
  with Ok show ?thesis
    by (auto simp: route_cases route_check_def ingest_json_new bind_res_cases
        simp del: json_item.simps split: res.split option.split)
next
  case (Err e)
  with route_room_Err [THEN iffD1, OF Err] show ?thesis by (simp add: route_cases route_check_def)
qed

section \<open>A whole response\<close>

definition plan_new :: "store \<Rightarrow> string \<Rightarrow> (int \<times> bool) list \<Rightarrow> int set" where
  "plan_new st peer ps = {seq. (seq, True) \<in> set ps \<and> is_new st (in_id peer seq)}"

lemma apply_msgs_watermark: "t_watermark (snd (apply_msgs N identity peer ms mx added st)) = t_watermark st"
proof (induction ms arbitrary: mx added st)
  case (Cons m ms)
  have "t_watermark st1 = t_watermark st" if "route N peer seq opened st = (r, st1)" for seq opened r st1
    using route_watermark [of N peer seq opened st] that by simp
  then show ?case
    by (auto simp: Let_def Cons.IH split: res.split prod.split)
qed simp

lemma finite_plan_new: "finite (plan_new st peer ps)"
proof (rule finite_subset)
  show "plan_new st peer ps \<subseteq> fst ` set ps" by (force simp: plan_new_def)
qed simp

lemma apply_msgs_step:
  assumes "entry_plan N identity peer m = Ok (seq, ins)"
  obtains st1 where
    "\<And>ms mx added. apply_msgs N identity peer (m # ms) mx added st =
       apply_msgs N identity peer ms (max seq mx) (if ins \<and> is_new st (in_id peer seq) then added + 1 else added) st1"
    "\<And>mid. is_new st1 mid \<longleftrightarrow> is_new st mid \<and> \<not> (ins \<and> mid = in_id peer seq)"
proof -
  from assms have seq: "entry_seq m = Ok seq"
    by (auto simp: entry_plan_def elim!: bind_res_Ok split: res.splits if_splits)
  show thesis
  proof (cases "bind_res (json_item m ''payload'') (open_message_json N identity)")
    case (Err e)
    with assms seq have "ins = False" "is_ValueError e \<or> is_KeyError e"
      by (auto simp: entry_plan_def split: if_splits)
    with that [of st] seq Err show thesis by (auto simp: max_def Let_def)
  next
    case (Ok opened)
    with assms seq obtain c where c: "route_check peer opened = Ok (c, ins)"
      by (auto simp: entry_plan_def elim!: bind_res_Ok)
    obtain r st1 where r: "route N peer seq opened st = (r, st1)" by (cases "route N peer seq opened st")
    with c route_result [of N peer seq opened st] have "r = Ok (c, ins \<and> is_new st (in_id peer seq))" by simp
    moreover have "is_new st1 mid \<longleftrightarrow> is_new st mid \<and> \<not> (ins \<and> mid = in_id peer seq)" for mid
      using route_new [of N peer seq opened st mid] r c by auto
    ultimately show thesis using that [of st1] seq Ok r by (simp add: max_def Let_def)
  qed
qed

lemma apply_msgs_plan:
  assumes "traverse_res (entry_plan N identity peer) ms = Ok ps"
  obtains st1 where
    "\<And>mx added. apply_msgs N identity peer ms mx added st =
       (Ok (fold max (map fst ps) mx, added + card (plan_new st peer ps)), st1)"
    "\<And>mid. is_new st1 mid \<longleftrightarrow> is_new st mid \<and> \<not> (\<exists>seq. (seq, True) \<in> set ps \<and> mid = in_id peer seq)"
  using assms
proof (induction ms arbitrary: ps st thesis)
  case Nil
  then show ?case by (simp add: plan_new_def)
next
  case (Cons m ms)
  from Cons.prems(2) obtain seq ins ps' where plan: "entry_plan N identity peer m = Ok (seq, ins)"
    "traverse_res (entry_plan N identity peer) ms = Ok ps'" and ps: "ps = (seq, ins) # ps'"
    by (auto elim!: bind_res_Ok)
  obtain st1 where step: "\<And>ms mx added. apply_msgs N identity peer (m # ms) mx added st =
       apply_msgs N identity peer ms (max seq mx) (if ins \<and> is_new st (in_id peer seq) then added + 1 else added) st1"
    and new1: "\<And>mid. is_new st1 mid \<longleftrightarrow> is_new st mid \<and> \<not> (ins \<and> mid = in_id peer seq)"
    using apply_msgs_step [OF plan(1)] by blast
  obtain st2 where rest: "\<And>mx added. apply_msgs N identity peer ms mx added st1 =
       (Ok (fold max (map fst ps') mx, added + card (plan_new st1 peer ps')), st2)"
    and new2: "\<And>mid. is_new st2 mid \<longleftrightarrow> is_new st1 mid \<and> \<not> (\<exists>seq. (seq, True) \<in> set ps' \<and> mid = in_id peer seq)"
    using Cons.IH [OF _ plan(2), of st1] by blast
  have split: "plan_new st peer ps =
      (if ins \<and> is_new st (in_id peer seq) then insert seq (plan_new st1 peer ps') else plan_new st1 peer ps')"
    by (auto simp: plan_new_def ps new1 in_id_inj)
  have "seq \<notin> plan_new st1 peer ps'" if "ins" using that by (simp add: plan_new_def new1)
  then have "card (plan_new st peer ps) =
      (if ins \<and> is_new st (in_id peer seq) then 1 else 0) + card (plan_new st1 peer ps')"
    unfolding split by (simp add: finite_plan_new)
  then have "apply_msgs N identity peer (m # ms) mx added st =
      (Ok (fold max (map fst ps) mx, added + card (plan_new st peer ps)), st2)" for mx added
    by (simp only: step rest) (simp add: ps)
  moreover have "is_new st2 mid \<longleftrightarrow> is_new st mid \<and> \<not> (\<exists>seq. (seq, True) \<in> set ps \<and> mid = in_id peer seq)" for mid
    by (auto simp: new2 new1 ps)
  ultimately show ?case by (rule Cons.prems(1))
qed

lemma fold_max_ge: "(mx :: int) \<le> fold max xs mx"
  by (induction xs arbitrary: mx) (simp_all, metis max.bounded_iff)

lemma fold_max_id: "list_all (\<lambda>x. x \<le> mx) xs \<Longrightarrow> fold max xs (mx :: int) = mx"
  by (induction xs) (auto simp: max_def)

lemma fold_max_all: "list_all (\<lambda>x. x \<le> fold max xs mx) (xs :: int list)"
  by (induction xs arbitrary: mx)
     (auto simp: intro: order_trans [OF max.cobounded1 fold_max_ge])

lemma sync_apply_plan:
  assumes resp: "json_get resp ''msgs'' = Ok (Some (JArr ms))"
    and plan: "traverse_res (entry_plan N identity peer) ms = Ok ps"
  obtains st' where "sync_apply N identity peer resp st = (Ok (card (plan_new st peer ps)), st')"
    "\<And>q. cursor st' q = (if q = peer then fold max (map fst ps) (cursor st peer) else cursor st q)"
    "\<And>mid. is_new st' mid \<longleftrightarrow> is_new st mid \<and> \<not> (\<exists>seq. (seq, True) \<in> set ps \<and> mid = in_id peer seq)"
proof -
  obtain st1 where st1: "apply_msgs N identity peer ms (cursor st peer) 0 st =
       (Ok (fold max (map fst ps) (cursor st peer), card (plan_new st peer ps)), st1)"
    and new: "\<And>mid. is_new st1 mid \<longleftrightarrow> is_new st mid \<and> \<not> (\<exists>seq. (seq, True) \<in> set ps \<and> mid = in_id peer seq)"
    using apply_msgs_plan [OF plan] by (metis add_0)
  have cur: "cursor st1 = cursor st"
    using apply_msgs_watermark [of N identity peer ms "cursor st peer" 0 st] st1 by (intro cursor_cong) simp
  let ?mx = "fold max (map fst ps) (cursor st peer)"
  let ?st = "if ?mx > cursor st peer then set_cursor peer ?mx st1 else st1"
  have "cursor ?st q = (if q = peer then ?mx else cursor st q)" for q
    using fold_max_ge [of "cursor st peer" "map fst ps"] watermark.adv_to_max [of st1 peer ?mx q] cur by auto
  moreover have "is_new ?st mid = is_new st1 mid" for mid by (simp add: is_new_def)
  moreover have "sync_apply N identity peer resp st = (Ok (card (plan_new st peer ps)), ?st)"
    by (simp add: sync_apply_def resp st1 Let_def)
  ultimately show thesis using that [of ?st] new by blast
qed

lemma apply_msgs_Err:
  "traverse_res (entry_plan N identity peer) ms = Err e \<Longrightarrow> fst (apply_msgs N identity peer ms mx added st) = Err e"
proof (induction ms arbitrary: mx added st)
  case (Cons m ms)
  show ?case
  proof (cases "entry_plan N identity peer m")
    case (Ok p)
    obtain seq ins where p: "p = (seq, ins)" by (cases p)
    with Ok Cons.prems have "traverse_res (entry_plan N identity peer) ms = Err e"
      by (cases "traverse_res (entry_plan N identity peer) ms") auto
    with Cons.IH apply_msgs_step [OF Ok [unfolded p], of st] show ?thesis by metis
  next
    case (Err e')
    with Cons.prems have e: "e' = e" by simp
    from Err show ?thesis
      unfolding entry_plan_def e
      by (auto simp: Let_def bind_res_cases route_result split: res.splits if_splits prod.splits
          dest!: arg_cong [of "route N peer _ _ _" _ fst])
  qed
qed simp

lemma sync_apply_Err:
  assumes "json_get resp ''msgs'' = Ok (Some (JArr ms))" and "traverse_res (entry_plan N identity peer) ms = Err e"
  shows "fst (sync_apply N identity peer resp st) = Err e \<and> cursor (snd (sync_apply N identity peer resp st)) = cursor st"
proof -
  obtain st1 where st1: "apply_msgs N identity peer ms (cursor st peer) 0 st = (Err e, st1)"
    using apply_msgs_Err [OF assms(2)] by (metis prod.collapse)
  then have "cursor st1 = cursor st"
    using apply_msgs_watermark [of N identity peer ms "cursor st peer" 0 st] by (intro cursor_cong) simp
  with st1 assms(1) show ?thesis by (simp add: sync_apply_def Let_def)
qed

section \<open>Properties\<close>

text \<open>
  C5: applying a fetched response in which no entry raises stores every message that can be
  stored, counts the new ones, moves this peer's watermark to the highest sequence number seen,
  skipped entries included, leaves the other watermarks alone, and applying the same response
  again adds nothing.
\<close>

theorem sync_applies_once:
  assumes "json_get resp ''msgs'' = Ok (Some (JArr ms))"
    and "traverse_res (entry_plan N identity peer) ms = Ok ps"
    and "sync_apply N identity peer resp st = (r, st')"
  shows "r = Ok (card (plan_new st peer ps)) \<and>
    cursor st' = (cursor st)(peer := fold max (map fst ps) (cursor st peer)) \<and>
    list_all (\<lambda>(seq, ins). ins \<longrightarrow> \<not> is_new st' (in_id peer seq)) ps \<and>
    fst (sync_apply N identity peer resp st') = Ok 0 \<and>
    cursor (snd (sync_apply N identity peer resp st')) = cursor st'"
proof -
  obtain st1 where one: "sync_apply N identity peer resp st = (Ok (card (plan_new st peer ps)), st1)"
    "\<And>q. cursor st1 q = (if q = peer then fold max (map fst ps) (cursor st peer) else cursor st q)"
    "\<And>mid. is_new st1 mid \<longleftrightarrow> is_new st mid \<and> \<not> (\<exists>seq. (seq, True) \<in> set ps \<and> mid = in_id peer seq)"
    using sync_apply_plan [OF assms(1,2)] by blast
  from one(1) assms(3) have st': "st1 = st'" "r = Ok (card (plan_new st peer ps))" by simp_all
  obtain st2 where two: "sync_apply N identity peer resp st' = (Ok (card (plan_new st' peer ps)), st2)"
    "\<And>q. cursor st2 q = (if q = peer then fold max (map fst ps) (cursor st' peer) else cursor st' q)"
    "\<And>mid. is_new st2 mid \<longleftrightarrow> is_new st' mid \<and> \<not> (\<exists>seq. (seq, True) \<in> set ps \<and> mid = in_id peer seq)"
    using sync_apply_plan [OF assms(1,2)] by blast
  have "plan_new st' peer ps = {}" using one(3) unfolding plan_new_def st' by blast
  moreover have "fold max (map fst ps) (cursor st' peer) = cursor st' peer"
    using one(2) [of peer] fold_max_all [of "map fst ps" "cursor st peer"]
    by (intro fold_max_id) (simp add: st' list_all_iff)
  ultimately have again: "fst (sync_apply N identity peer resp st') = Ok 0"
    "cursor (snd (sync_apply N identity peer resp st')) = cursor st'"
    using two by (simp_all add: fun_eq_iff)
  have "cursor st' = (cursor st)(peer := fold max (map fst ps) (cursor st peer))"
    using one(2) by (simp add: st' fun_eq_iff)
  moreover have "list_all (\<lambda>(seq, ins). ins \<longrightarrow> \<not> is_new st' (in_id peer seq)) ps"
    using one(3) by (auto simp: list_all_iff st')
  ultimately show ?thesis using st'(2) again by blast
qed

theorem sync_applies_once_witness:
  "\<exists>r st'. sync_apply plain_nacl (replicate 32 2) ''p'' (JObj [(''msgs'', JArr [JObj [(''seq'', JInt 5)]])]) empty_store = (r, st') \<and>
     r = Ok 0 \<and> cursor st' ''p'' = 5"
proof -
  let ?resp = "JObj [(''msgs'', JArr [JObj [(''seq'', JInt 5)]])]"
  have plan: "traverse_res (entry_plan plain_nacl (replicate 32 2) ''p'') [JObj [(''seq'', JInt 5)]] = Ok [(5, False)]"
    by (simp add: entry_plan_def entry_seq_def)
  obtain r st' where run: "sync_apply plain_nacl (replicate 32 2) ''p'' ?resp empty_store = (r, st')" by fastforce
  have "cursor empty_store ''p'' = 0" "plan_new empty_store ''p'' [(5, False)] = {}"
    by (simp_all add: cursor_def empty_store_def plan_new_def)
  with sync_applies_once [OF _ plan run] run show ?thesis by simp
qed

text \<open>
  C6: a message that cannot be decrypted stops the whole synchronisation of its peer: the
  exception of the sealed box is not one of those caught, so from any store the response raises
  and the watermark stays where it was, in spite of the comment in \<open>apply\<close> that it advances.
\<close>

theorem undecryptable_blocks_sync:
  assumes "json_get resp ''msgs'' = Ok (Some (JArr (good @ m # rest)))"
    and "traverse_res (entry_plan N identity peer) good = Ok ps"
    and "entry_seq m = Ok seq" and "json_item m ''payload'' = Ok (JStr payload)" and "b64decode payload = Ok ct"
    and "curve_keys N identity = Ok (curve_pk, curve_sk)" and "n_seal_open N curve_sk ct = Err (CryptoError why)"
  shows "fst (sync_apply N identity peer resp st) = Err (CryptoError why) \<and>
    cursor (snd (sync_apply N identity peer resp st)) = cursor st"
proof -
  have "entry_plan N identity peer m = Err (CryptoError why)"
    using assms(3-7) by (simp add: entry_plan_def open_message_json_def open_message_def open_envelope_def)
  with assms(2) have "traverse_res (entry_plan N identity peer) (good @ m # rest) = Err (CryptoError why)"
    by (rule traverse_res_append_Err)
  with sync_apply_Err [OF assms(1)] show ?thesis by blast
qed

theorem undecryptable_blocks_sync_witness:
  "fst (sync_apply plain_nacl (replicate 32 2) ''p''
     (JObj [(''msgs'', JArr [JObj [(''seq'', JInt 5), (''payload'', JStr ''AAAA'')]])]) empty_store)
     = Err (CryptoError ''An error occurred trying to decrypt the message'')"
proof -
  have "b64decode ''AAAA'' = Ok [0, 0, 0]" using b64decode_encode [of "[0, 0, 0]"]
    by (simp add: b64_char_def b64_alphabet_def)
  moreover have "curve_keys plain_nacl (replicate 32 2) = Ok (replicate 32 2, replicate 32 2)"
    by (simp add: curve_keys_def plain_nacl_def Let_def)
  moreover have "n_seal_open plain_nacl (replicate 32 2) [0, 0, 0] =
      Err (CryptoError ''An error occurred trying to decrypt the message'')"
    by (simp add: plain_nacl_def numeral_eq_Suc)
  ultimately show ?thesis
    using undecryptable_blocks_sync [of "JObj [(''msgs'', JArr [JObj [(''seq'', JInt 5), (''payload'', JStr ''AAAA'')]])]"
        "[]" "JObj [(''seq'', JInt 5), (''payload'', JStr ''AAAA'')]" "[]" plain_nacl "replicate 32 2" "''p''" "[]" 5
        "''AAAA''" "[0, 0, 0]" "replicate 32 2" "replicate 32 2"]
    by (simp add: entry_seq_def)
qed

text \<open>
  C7: a live event and the journal agree: once an event has been stored, synchronising a
  response that holds the same entry adds nothing and leaves the watermark where the event put it.
\<close>

theorem live_event_then_sync:
  assumes "on_event N identity event st = (Ok (Some conv, new), st')"
    and "dict_get event ''from'' = Some (JStr peer)" and "dict_get event ''seq'' = Some (JInt seq)"
  shows "cursor st' peer = max (cursor st peer) seq \<and>
    fst (sync_apply N identity peer (JObj [(''msgs'', JArr [JObj event])]) st') = Ok 0 \<and>
    cursor (snd (sync_apply N identity peer (JObj [(''msgs'', JArr [JObj event])]) st')) = cursor st'"
proof -
  let ?resp = "JObj [(''msgs'', JArr [JObj event])]"
  have seq: "entry_seq (JObj event) = Ok seq" using assms(3) by (simp add: entry_seq_def)
  from assms(1,2) seq obtain opened st1 where opened:
      "bind_res (json_item (JObj event) ''payload'') (open_message_json N identity) = Ok opened"
    and route: "route N peer seq opened st = (Ok (conv, new), st1)"
    and st': "st' = (if seq > cursor st1 peer then set_cursor peer seq st1 else st1)"
    by (auto simp: on_event_def ingest_opened_def simp del: json_item.simps split: res.splits if_splits prod.splits)
  have "t_watermark st1 = t_watermark st" using route_watermark [of N peer seq opened st] route by simp
  then have cur: "cursor st' peer = max (cursor st peer) seq"
    using watermark.adv_to_max [of st1 peer seq peer] cursor_cong [of st1 st] by (simp add: st' max_def)
  from route_result [of N peer seq opened st] route obtain ins where ins: "route_check peer opened = Ok (conv, ins)"
    by (cases "route_check peer opened") auto
  then have plan: "traverse_res (entry_plan N identity peer) [JObj event] = Ok [(seq, ins)]"
    using seq opened by (simp add: entry_plan_def del: json_item.simps)
  have "\<not> is_new st' (in_id peer seq)" if "ins"
    using route_new [of N peer seq opened st "in_id peer seq"] route ins that by (simp add: st' is_new_def)
  then have none: "plan_new st' peer [(seq, ins)] = {}" by (auto simp: plan_new_def)
  obtain st3 where "sync_apply N identity peer ?resp st' = (Ok (card (plan_new st' peer [(seq, ins)])), st3)"
    "\<And>q. cursor st3 q = (if q = peer then fold max (map fst [(seq, ins)]) (cursor st' peer) else cursor st' q)"
    "\<And>mid. is_new st3 mid \<longleftrightarrow> is_new st' mid \<and> \<not> (\<exists>s. (s, True) \<in> set [(seq, ins)] \<and> mid = in_id peer s)"
    using sync_apply_plan [OF _ plan, of ?resp] by auto
  with none cur show ?thesis by (auto simp: fun_eq_iff)
qed

theorem live_event_then_sync_witness:
  "\<exists>payload st'. cursor st' ''p'' = 5 \<and>
     fst (sync_apply plain_nacl (replicate 32 2) ''p'' (JObj [(''msgs'', JArr [JObj
       [(''from'', JStr ''p''), (''seq'', JInt 5), (''payload'', JStr payload)]])]) st') = Ok 0"
proof -
  have obj: "valid_json (JObj (message_body ''hi'' 7 None None None))"
    by (rule message_body_valid) (auto simp: valid_str_lit)
  obtain payload where open_it: "open_message plain_nacl (replicate 32 2) payload =
      Ok (opened_message (bytes_hex (n_verify_key plain_nacl (replicate 32 1))) ''hi'' 7 None None None)"
    using open_seal_message [OF plain_nacl_ok _ _ obj, of "replicate 32 1" "replicate 32 2"] by auto
  let ?event = "[(''from'', JStr ''p''), (''seq'', JInt 5), (''payload'', JStr payload)]"
  obtain new st1 where "ingest plain_nacl ''p'' ''p'' 5 7 (Some ''hi'') None empty_store = (new, st1)" by fastforce
  then obtain st' where run: "on_event plain_nacl (replicate 32 2) ?event empty_store = (Ok (Some ''p'', new), st')"
    by (simp add: on_event_def open_message_json_def open_it opened_message_def opt_field_def entry_seq_def
        ingest_opened_def route_def route_room_def opened_conv_def ingest_json_def)
  have "cursor empty_store ''p'' = 0" by (simp add: cursor_def empty_store_def)
  with live_event_then_sync [OF run, of "''p''" 5] show ?thesis by auto
qed
end
