(* ===== verification/DaemonClient.thy ===== *)
theory DaemonClient
  imports Json Protocol
begin

text \<open>
  \<open>class DaemonClient\<close> of \<open>client/aimless/daemon.py\<close>: the connection to the daemon shared by a
  reader thread and any number of requesting threads.

  The fields of the object are the record \<open>dclient\<close>; \<open>wire\<close> is what was written to the
  socket. What the threads do between two points
  where another thread may run is one step: one pass of the reader's loop, one pass of a
  request's loop, the entry and the exit of a request. What a pass observes of the world (the
  clock, whether a connect or a send succeeds, whether the wait for a new connection ends in
  one) is an argument, \<open>tick\<close>, so a run of a request is a fold over its ticks and interleavings
  are sequences of steps.
\<close>

section \<open>State\<close>

record dclient =
  events :: "json list"
  raw :: "json list"
  stash :: "json list"
  id_counter :: nat
  pending :: "(string, json list) dict"
  multiplex :: bool
  stop :: bool
  want_reconnect :: bool
  sock :: bool
  generation :: nat
  wire :: "string list"
  reader_alive :: bool

definition EVENT_OPS :: "string list" where
  "EVENT_OPS = [''recv'', ''acked'']"

definition RESPONSE_MAP :: "(string, string) dict" where
  "RESPONSE_MAP = [(''send'', ''queued''), (''sendfile'', ''queued''), (''watch'', ''watching''),
     (''setstatus'', ''statusset''), (''pendingattachments'', ''pendingattachments''),
     (''fetchattachment'', ''fetchattachment''), (''ackfile'', ''ackfile'')]"

definition expected_op :: "string \<Rightarrow> string" where
  "expected_op op = (case dict_get RESPONSE_MAP op of Some r \<Rightarrow> r | None \<Rightarrow> op)"

text \<open>The constructor connects before it starts the reader; a failure closes and raises.\<close>

definition dclient_init :: "bool \<Rightarrow> dclient res" where
  "dclient_init connected =
     (if connected
      then Ok \<lparr>events = [], raw = [], stash = [], id_counter = 0, pending = [], multiplex = False,
         stop = False, want_reconnect = False, sock = True, generation = 1, wire = [], reader_alive = True\<rparr>
      else Err (OSError ''connect''))"

definition new_id :: "dclient \<Rightarrow> string \<times> dclient" where
  "new_id c = (''r'' @ nat_digits (id_counter c + 1), c\<lparr>id_counter := id_counter c + 1\<rparr>)"

definition connect :: "dclient \<Rightarrow> dclient" where
  "connect c = c\<lparr>sock := True, generation := generation c + 1\<rparr>"

definition close_socket :: "dclient \<Rightarrow> dclient" where
  "close_socket c = c\<lparr>sock := False\<rparr>"

definition close_client :: "dclient \<Rightarrow> dclient" where
  "close_client c = close_socket (c\<lparr>stop := True\<rparr>)"

section \<open>The reader\<close>

text \<open>
  Dispatch of one parsed line. A message that is not an object has no \<open>get\<close>, and one whose id
  is a list or an object cannot be looked up: either exception ends the reader thread.
\<close>

definition is_event :: "(string, json) dict \<Rightarrow> bool" where
  "is_event m \<longleftrightarrow> (\<exists>op \<in> set EVENT_OPS. dict_get m ''op'' = Some (JStr op))"

fun hashable :: "json \<Rightarrow> bool" where
  "hashable (JArr _) = False"
| "hashable (JObj _) = False"
| "hashable _ = True"

definition dispatch :: "json \<Rightarrow> dclient \<Rightarrow> dclient" where
  "dispatch msg c =
     (case msg of
        JObj m \<Rightarrow>
          if is_event m then c\<lparr>events := events c @ [msg]\<rparr>
          else
            (case dict_get m ''id'' of
               None \<Rightarrow> c\<lparr>raw := raw c @ [msg]\<rparr>
             | Some JNull \<Rightarrow> c\<lparr>raw := raw c @ [msg]\<rparr>
             | Some (JStr rid) \<Rightarrow>
                 (case dict_get (pending c) rid of
                    Some mb \<Rightarrow> c\<lparr>pending := dict_set rid (mb @ [msg]) (pending c)\<rparr>
                  | None \<Rightarrow> c\<lparr>raw := raw c @ [msg]\<rparr>)
             | Some v \<Rightarrow> if hashable v then c\<lparr>raw := raw c @ [msg]\<rparr> else c\<lparr>reader_alive := False\<rparr>)
      | _ \<Rightarrow> c\<lparr>reader_alive := False\<rparr>)"

text \<open>\<open>readline\<close> gives a line, the empty text at end of file, or an error.\<close>

definition read_line :: "string option \<Rightarrow> dclient \<Rightarrow> dclient" where
  "read_line line c =
     (case line of
        None \<Rightarrow> c\<lparr>want_reconnect := True\<rparr>
      | Some l \<Rightarrow>
          if l = [] then c\<lparr>want_reconnect := True\<rparr>
          else (case json_loads l of Err _ \<Rightarrow> c | Ok msg \<Rightarrow> dispatch msg c))"

text \<open>
  One pass of \<open>_reader_reconnect\<close>: the socket is closed first, then a connect is tried; when it
  fails the loop waits and comes back.
\<close>

definition reader_reconnect :: "bool \<Rightarrow> dclient \<Rightarrow> dclient" where
  "reader_reconnect connected c =
     (let c1 = close_socket c
      in if stop c1 then c1\<lparr>reader_alive := False\<rparr>
         else if connected then (connect c1)\<lparr>want_reconnect := False\<rparr> else c1)"

definition read_loop_pass :: "bool \<Rightarrow> string option \<Rightarrow> dclient \<Rightarrow> dclient" where
  "read_loop_pass connected line c =
     (if \<not> reader_alive c then c
      else if stop c then c\<lparr>reader_alive := False\<rparr>
      else if want_reconnect c \<or> \<not> sock c then reader_reconnect connected c
      else read_line line c)"

section \<open>Requests\<close>

text \<open>
  The local variables of a request and the outcome of one pass of its loop. A pass may wait
  for a new connection twice, before and after an attempt to send: each wait is what the other
  threads did to the client meanwhile and what \<open>_wait_generation_change\<close> returned. Times are in
  milliseconds.
\<close>

record request_state =
  q_deadline :: int
  q_sent_gen :: nat
  q_sent :: bool

record tick =
  now :: int
  wait_before :: "(dclient \<Rightarrow> dclient) \<times> bool"
  send_ok :: bool
  wait_after :: "(dclient \<Rightarrow> dclient) \<times> bool"

datatype outcome = Continue | Return json | Raise exn

definition build_request :: "string \<Rightarrow> (string, json) dict \<Rightarrow> string \<Rightarrow> json" where
  "build_request op args rid =
     JObj (dict_set ''id'' (JStr rid) (fold (\<lambda>(k, v). dict_set k v) args [(''op'', JStr op)]))"

definition begin_request :: "int \<Rightarrow> int \<Rightarrow> dclient \<Rightarrow> request_state" where
  "begin_request start timeout c = \<lparr>q_deadline = start + timeout, q_sent_gen = generation c, q_sent = False\<rparr>"

definition unreachable :: "string \<Rightarrow> exn" where
  "unreachable op = DaemonError (''daemon unreachable ('' @ op @ '')'')"

definition timed_out :: "string \<Rightarrow> exn" where
  "timed_out op = DaemonError (''timeout waiting for response to '' @ op)"

text \<open>
  The part both paths share: wait for the connection, send when not yet sent, give up at the
  deadline. \<open>Inl\<close> ends the pass, \<open>Inr\<close> goes on to the queue.
\<close>

definition await_sent ::
  "string \<Rightarrow> json \<Rightarrow> int \<Rightarrow> tick \<Rightarrow> request_state \<Rightarrow> dclient \<Rightarrow> (outcome \<times> request_state \<times> dclient) + (request_state \<times> dclient)" where
  "await_sent op req timeout t q c =
     (let lost = (\<not> sock c \<or> want_reconnect c);
          c1 = (if lost then fst (wait_before t) c else c)
      in if lost \<and> \<not> snd (wait_before t) then Inl (Raise (unreachable op), q, c1)
         else
           let q1 = (if lost then q\<lparr>q_deadline := now t + timeout, q_sent := False\<rparr> else q)
           in if \<not> q_sent q1 \<and> \<not> (send_ok t \<and> sock c1)
              then
                let c2 = fst (wait_after t) (c1\<lparr>want_reconnect := True\<rparr>)
                in if snd (wait_after t)
                   then Inl (Continue, q1\<lparr>q_deadline := now t + timeout, q_sent := False\<rparr>, c2)
                   else Inl (Raise (unreachable op), q1, c2)
              else
                let q2 = (if q_sent q1 then q1 else q1\<lparr>q_sent := True, q_sent_gen := generation c1\<rparr>);
                    c2 = (if q_sent q1 then c1 else c1\<lparr>wire := wire c1 @ [json_dumps req @ [CHR 0x0A]]\<rparr>)
                in if q_deadline q2 - now t \<le> 0 then Inl (Raise (timed_out op), q2, c2)
                   else Inr (q2, c2))"

text \<open>\<open>DaemonError(msg.get("error", "unknown error"))\<close>\<close>

definition reply_error :: "(string, json) dict \<Rightarrow> exn" where
  "reply_error m =
     DaemonError (case dict_get m ''error'' of Some (JStr e) \<Rightarrow> e | Some v \<Rightarrow> json_dumps v | None \<Rightarrow> ''unknown error'')"

definition has_id :: "(string, json) dict \<Rightarrow> bool" where
  "has_id m = (case dict_get m ''id'' of None \<Rightarrow> False | Some v \<Rightarrow> json_truthy v)"

text \<open>What the serialised path does with a message taken from the raw queue.\<close>

definition legacy_message :: "string \<Rightarrow> json \<Rightarrow> dclient \<Rightarrow> outcome \<times> dclient" where
  "legacy_message expected msg c =
     (case msg of
        JObj m \<Rightarrow>
          if is_event m then (Continue, c\<lparr>events := events c @ [msg]\<rparr>)
          else if dict_get m ''op'' \<noteq> Some (JStr expected) then (Continue, c\<lparr>stash := stash c @ [msg]\<rparr>)
          else
            let c1 = (if has_id m then c\<lparr>multiplex := True\<rparr> else c)
            in if dict_get m ''op'' = Some (JStr ''error'') then (Raise (reply_error m), c1)
               else (Return msg, c1)
      | _ \<Rightarrow> (Raise (AttributeError ''object has no attribute get''), c))"

definition legacy_pass ::
  "string \<Rightarrow> json \<Rightarrow> int \<Rightarrow> tick \<Rightarrow> request_state \<Rightarrow> dclient \<Rightarrow> outcome \<times> request_state \<times> dclient" where
  "legacy_pass op req timeout t q c =
     (case await_sent op req timeout t q c of
        Inl r \<Rightarrow> r
      | Inr (q1, c1) \<Rightarrow>
          (case raw c1 of
             [] \<Rightarrow> (Continue, q1, c1)
           | msg # rest \<Rightarrow>
               let (out, c2) = legacy_message (expected_op op) msg (c1\<lparr>raw := rest\<rparr>) in (out, q1, c2)))"

text \<open>The correlated path: only the mailbox of the request's own id is read.\<close>

definition mailbox_message :: "json \<Rightarrow> outcome" where
  "mailbox_message msg =
     (case msg of
        JObj m \<Rightarrow> if dict_get m ''op'' = Some (JStr ''error'') then Raise (reply_error m) else Return msg
      | _ \<Rightarrow> Raise (AttributeError ''object has no attribute get''))"

definition multiplex_pass ::
  "string \<Rightarrow> json \<Rightarrow> string \<Rightarrow> int \<Rightarrow> tick \<Rightarrow> request_state \<Rightarrow> dclient \<Rightarrow> outcome \<times> request_state \<times> dclient" where
  "multiplex_pass op req rid timeout t q c =
     (case await_sent op req timeout t q c of
        Inl r \<Rightarrow> r
      | Inr (q1, c1) \<Rightarrow>
          (case dict_get (pending c1) rid of
             Some (msg # rest) \<Rightarrow>
               (mailbox_message msg, q1, c1\<lparr>pending := dict_set rid rest (pending c1)\<rparr>)
           | _ \<Rightarrow> (Continue, q1, c1)))"

text \<open>A run of a request: its passes until one ends it; between two passes other threads act.\<close>

fun run_passes ::
  "(tick \<Rightarrow> request_state \<Rightarrow> dclient \<Rightarrow> outcome \<times> request_state \<times> dclient) \<Rightarrow>
   ((dclient \<Rightarrow> dclient) \<times> tick) list \<Rightarrow> request_state \<Rightarrow> dclient \<Rightarrow> outcome \<times> dclient" where
  "run_passes pass [] q c = (Continue, c)"
| "run_passes pass ((others, t) # ts) q c =
     (case pass t q (others c) of
        (Continue, q1, c1) \<Rightarrow> run_passes pass ts q1 c1
      | (out, _, c1) \<Rightarrow> (out, c1))"

definition request_legacy ::
  "string \<Rightarrow> (string, json) dict \<Rightarrow> int \<Rightarrow> int \<Rightarrow> ((dclient \<Rightarrow> dclient) \<times> tick) list \<Rightarrow> dclient \<Rightarrow> outcome \<times> dclient" where
  "request_legacy op args start timeout ts c =
     (let (rid, c1) = new_id c
      in run_passes (legacy_pass op (build_request op args rid) timeout) ts (begin_request start timeout c1) c1)"

text \<open>The mailbox is registered on entry and removed whatever the outcome.\<close>

definition request_multiplex ::
  "string \<Rightarrow> (string, json) dict \<Rightarrow> int \<Rightarrow> int \<Rightarrow> ((dclient \<Rightarrow> dclient) \<times> tick) list \<Rightarrow> dclient \<Rightarrow> outcome \<times> dclient" where
  "request_multiplex op args start timeout ts c =
     (let (rid, c1) = new_id c;
          c2 = c1\<lparr>pending := dict_set rid [] (pending c1)\<rparr>;
          (out, c3) = run_passes (multiplex_pass op (build_request op args rid) rid timeout) ts (begin_request start timeout c2) c2
      in (out, c3\<lparr>pending := dict_del rid (pending c3)\<rparr>))"

definition request ::
  "string \<Rightarrow> (string, json) dict \<Rightarrow> int \<Rightarrow> int \<Rightarrow> ((dclient \<Rightarrow> dclient) \<times> tick) list \<Rightarrow> dclient \<Rightarrow> outcome \<times> dclient" where
  "request op args start timeout ts c =
     (if multiplex c then request_multiplex op args start timeout ts c else request_legacy op args start timeout ts c)"

definition next_event :: "dclient \<Rightarrow> json option \<times> dclient" where
  "next_event c = (case events c of [] \<Rightarrow> (None, c) | e # es \<Rightarrow> (Some e, c\<lparr>events := es\<rparr>))"

section \<open>The connection invariant\<close>

text \<open>
  Mailboxes exist only for ids already issued and hold only replies to their id; the event
  queue holds only events, the raw queue only other objects.
\<close>

definition reply_to :: "string \<Rightarrow> json \<Rightarrow> bool" where
  "reply_to rid msg \<longleftrightarrow> (\<exists>m. msg = JObj m \<and> dict_get m ''id'' = Some (JStr rid) \<and> \<not> is_event m)"

definition issued :: "nat \<Rightarrow> string \<Rightarrow> bool" where
  "issued n rid \<longleftrightarrow> (\<exists>k. 1 \<le> k \<and> k \<le> n \<and> rid = ''r'' @ nat_digits k)"

definition conn_ok :: "dclient \<Rightarrow> bool" where
  "conn_ok c \<longleftrightarrow> wf_dict (pending c) \<and>
     list_all (\<lambda>(rid, mb). issued (id_counter c) rid \<and> list_all (reply_to rid) mb) (pending c) \<and>
     list_all (\<lambda>e. \<exists>m. e = JObj m \<and> is_event m) (events c) \<and>
     list_all (\<lambda>e. \<exists>m. e = JObj m \<and> \<not> is_event m) (raw c)"

text \<open>What any thread may do to the shared object.\<close>

inductive client_step :: "dclient \<Rightarrow> dclient \<Rightarrow> bool" where
  Reader: "client_step c (read_loop_pass connected line c)"
| Register: "new_id c = (rid, c1) \<Longrightarrow> client_step c (c1\<lparr>pending := dict_set rid [] (pending c1)\<rparr>)"
| Take: "dict_get (pending c) rid = Some (msg # rest) \<Longrightarrow>
    client_step c (c\<lparr>pending := dict_set rid rest (pending c)\<rparr>)"
| Release: "client_step c (c\<lparr>pending := dict_del rid (pending c)\<rparr>)"
| Legacy: "raw c = msg # rest \<Longrightarrow> client_step c (snd (legacy_message expected msg (c\<lparr>raw := rest\<rparr>)))"
| NewId: "client_step c (snd (new_id c))"
| Sent: "client_step c (c\<lparr>wire := wire c @ [line]\<rparr>)"
| Lost: "client_step c (c\<lparr>want_reconnect := True\<rparr>)"
| NextEvent: "client_step c (snd (next_event c))"
| Close: "client_step c (close_client c)"

inductive client_steps :: "dclient \<Rightarrow> dclient \<Rightarrow> bool" where
  refl: "client_steps c c"
| step: "client_steps c c' \<Longrightarrow> client_step c' c'' \<Longrightarrow> client_steps c c''"

inductive_cases client_stepE: "client_step c c'"

lemma issued_mono: "issued n rid \<Longrightarrow> n \<le> n' \<Longrightarrow> issued n' rid"
  by (auto simp: issued_def)

lemma list_all_dict_set_pair:
  "list_all (\<lambda>(k, v). P k v) t \<Longrightarrow> P k v \<Longrightarrow> list_all (\<lambda>(k, v). P k v) (dict_set k v t)"
  by (induction t) auto

lemma conn_ok_mailbox: "conn_ok c \<Longrightarrow> dict_get (pending c) rid = Some mb \<Longrightarrow> list_all (reply_to rid) mb \<and> issued (id_counter c) rid"
  by (auto simp: conn_ok_def list_all_iff dest!: map_of_SomeD)

lemma conn_ok_set:
  "conn_ok c \<Longrightarrow> issued (id_counter c) rid \<Longrightarrow> list_all (reply_to rid) mb \<Longrightarrow>
   conn_ok (c\<lparr>pending := dict_set rid mb (pending c)\<rparr>)"
  by (auto simp: conn_ok_def distinct_update
      intro!: list_all_dict_set_pair [where P = "\<lambda>rid mb. issued (id_counter c) rid \<and> list_all (reply_to rid) mb"])

lemma conn_ok_del: "conn_ok c \<Longrightarrow> conn_ok (c\<lparr>pending := dict_del rid (pending c)\<rparr>)"
  by (simp add: conn_ok_def distinct_delete list_all_dict_del)

lemma conn_ok_new_id: "conn_ok c \<Longrightarrow> conn_ok (snd (new_id c)) \<and> issued (id_counter (snd (new_id c))) (fst (new_id c))"
  by (auto simp: conn_ok_def new_id_def list_all_iff issued_def) fastforce

lemma conn_ok_flags [simp]:
  "conn_ok (c\<lparr>want_reconnect := b\<rparr>) = conn_ok c" "conn_ok (c\<lparr>reader_alive := b\<rparr>) = conn_ok c"
  "conn_ok (c\<lparr>sock := b\<rparr>) = conn_ok c" "conn_ok (c\<lparr>stop := b\<rparr>) = conn_ok c"
  "conn_ok (c\<lparr>multiplex := b\<rparr>) = conn_ok c" "conn_ok (c\<lparr>stash := s\<rparr>) = conn_ok c"
  "conn_ok (c\<lparr>generation := n\<rparr>) = conn_ok c" "conn_ok (c\<lparr>wire := ls\<rparr>) = conn_ok c"
  by (simp_all add: conn_ok_def)

lemma dispatch_ok:
  assumes "conn_ok c" shows "conn_ok (dispatch msg c)"
proof (cases msg)
  case (JObj m)
  show ?thesis
  proof (cases "is_event m")
    case False
    have raw: "conn_ok (c\<lparr>raw := raw c @ [msg]\<rparr>)" using assms JObj False by (simp add: conn_ok_def)
    show ?thesis
    proof (cases "\<exists>rid mb. dict_get m ''id'' = Some (JStr rid) \<and> dict_get (pending c) rid = Some mb")
      case True
      then obtain rid mb where id: "dict_get m ''id'' = Some (JStr rid)" "dict_get (pending c) rid = Some mb" by blast
      then have "reply_to rid msg" using JObj False by (simp add: reply_to_def)
      with id conn_ok_mailbox [OF assms id(2)] show ?thesis
        using JObj False by (simp add: dispatch_def conn_ok_set [OF assms])
    qed (use raw assms JObj False in \<open>auto simp: dispatch_def split: option.split json.split\<close>)
  qed (use assms JObj in \<open>simp add: dispatch_def conn_ok_def\<close>)
qed (use assms in \<open>simp_all add: dispatch_def\<close>)

lemma read_loop_pass_ok: "conn_ok c \<Longrightarrow> conn_ok (read_loop_pass connected line c)"
  by (auto simp: read_loop_pass_def read_line_def reader_reconnect_def connect_def close_socket_def Let_def dispatch_ok
      split: option.split res.split)

lemma legacy_message_ok:
  assumes "conn_ok c" "raw c = msg # rest"
  shows "conn_ok (snd (legacy_message expected msg (c\<lparr>raw := rest\<rparr>)))"
proof -
  from assms obtain m where m: "msg = JObj m" "\<not> is_event m" by (auto simp: conn_ok_def)
  have "conn_ok (c\<lparr>raw := rest\<rparr>)" using assms by (simp add: conn_ok_def)
  with m show ?thesis by (simp add: legacy_message_def Let_def)
qed

lemma client_step_ok: "client_step c c' \<Longrightarrow> conn_ok c \<Longrightarrow> conn_ok c'"
proof (induction rule: client_step.induct)
  case (Register c rid c1)
  then have "conn_ok c1" "issued (id_counter c1) rid" using conn_ok_new_id [of c] by simp_all
  then show ?case by (simp add: conn_ok_set)
next
  case (Take c rid msg rest)
  with conn_ok_mailbox [OF Take.prems Take.hyps] show ?case by (intro conn_ok_set) auto
next
  case (NextEvent c)
  then show ?case by (auto simp: next_event_def conn_ok_def split: list.split)
qed (simp_all add: read_loop_pass_ok conn_ok_del conn_ok_new_id legacy_message_ok close_client_def close_socket_def)

lemma client_steps_ok: "client_steps c c' \<Longrightarrow> conn_ok c \<Longrightarrow> conn_ok c'"
  by (induction rule: client_steps.induct) (auto intro: client_step_ok)

lemma dclient_init_ok: "dclient_init connected = Ok c \<Longrightarrow> conn_ok c"
  by (auto simp: dclient_init_def conn_ok_def split: if_splits)

text \<open>A new id is not among those in use.\<close>

lemma new_id_fresh: "conn_ok c \<Longrightarrow> dict_get (pending c) (fst (new_id c)) = None"
proof (rule ccontr)
  assume ok: "conn_ok c" and "dict_get (pending c) (fst (new_id c)) \<noteq> None"
  then obtain mb where "dict_get (pending c) (fst (new_id c)) = Some mb" by blast
  with ok have "issued (id_counter c) (fst (new_id c))" using conn_ok_mailbox by blast
  then show False by (auto simp: issued_def new_id_def nat_digits_inj)
qed

section \<open>Runs of a request\<close>

text \<open>Between two points of a request the other threads take any number of steps.\<close>

definition by_steps :: "(dclient \<Rightarrow> dclient) \<Rightarrow> bool" where
  "by_steps f \<longleftrightarrow> (\<forall>c. client_steps c (f c))"

definition threads_ok :: "((dclient \<Rightarrow> dclient) \<times> tick) list \<Rightarrow> bool" where
  "threads_ok ts \<longleftrightarrow> list_all (\<lambda>(f, t). by_steps f \<and> by_steps (fst (wait_before t)) \<and> by_steps (fst (wait_after t))) ts"

lemma by_steps_ok: "by_steps f \<Longrightarrow> conn_ok c \<Longrightarrow> conn_ok (f c)"
  by (auto simp: by_steps_def intro: client_steps_ok)

lemma by_steps_id: "by_steps (\<lambda>c. c)"
  by (simp add: by_steps_def client_steps.refl)

lemma await_sent_sound:
  assumes "conn_ok c" "by_steps (fst (wait_before t))" "by_steps (fst (wait_after t))"
  shows "case await_sent op req timeout t q c of
      Inl (out, q1, c1) \<Rightarrow> conn_ok c1 \<and> out \<in> {Continue, Raise (unreachable op), Raise (timed_out op)}
    | Inr (q1, c1) \<Rightarrow> conn_ok c1"
  using assms by (auto simp: await_sent_def Let_def by_steps_ok)

lemma multiplex_pass_sound:
  assumes "conn_ok c" "by_steps (fst (wait_before t))" "by_steps (fst (wait_after t))"
    and "multiplex_pass op req rid timeout t q c = (out, q1, c1)"
  shows "conn_ok c1 \<and> (\<forall>msg. out = Return msg \<longrightarrow> reply_to rid msg)"
proof (cases "await_sent op req timeout t q c")
  case (Inl r)
  with assms await_sent_sound [OF assms(1-3), of op req timeout q] show ?thesis by (auto simp: multiplex_pass_def)
next
  case (Inr p)
  obtain q2 c2 where p: "p = (q2, c2)" by (cases p)
  have ok: "conn_ok c2" using await_sent_sound [OF assms(1-3), of op req timeout q] Inr p by simp
  show ?thesis
  proof (cases "\<exists>msg rest. dict_get (pending c2) rid = Some (msg # rest)")
    case True
    then obtain msg rest where mb: "dict_get (pending c2) rid = Some (msg # rest)" by blast
    with conn_ok_mailbox [OF ok mb] have reply: "reply_to rid msg" "list_all (reply_to rid) rest" "issued (id_counter c2) rid"
      by simp_all
    from assms(4) Inr p mb have out: "out = mailbox_message msg" "c1 = c2\<lparr>pending := dict_set rid rest (pending c2)\<rparr>"
      by (simp_all add: multiplex_pass_def)
    have "conn_ok c1" using ok reply out by (simp add: conn_ok_set)
    moreover from out(1) reply(1) have "\<forall>m. out = Return m \<longrightarrow> m = msg"
      by (auto simp: mailbox_message_def split: json.splits if_splits)
    ultimately show ?thesis using reply(1) by blast
  next
    case False
    then have "(out, q1, c1) = (Continue, q2, c2)"
      using assms(4) Inr p by (auto simp: multiplex_pass_def split: option.splits list.splits)
    with ok show ?thesis by simp
  qed
qed

lemma run_passes_sound:
  assumes "\<And>t q c out q1 c1. conn_ok c \<Longrightarrow> by_steps (fst (wait_before t)) \<Longrightarrow> by_steps (fst (wait_after t)) \<Longrightarrow>
      pass t q c = (out, q1, c1) \<Longrightarrow> conn_ok c1 \<and> P out"
    and "P Continue" and "threads_ok ts" and "conn_ok c"
  shows "conn_ok (snd (run_passes pass ts q c)) \<and> P (fst (run_passes pass ts q c))"
  using assms(3,4)
proof (induction ts arbitrary: q c)
  case (Cons ft ts)
  obtain f t where ft: "ft = (f, t)" by (cases ft)
  with Cons.prems have steps: "by_steps f" "by_steps (fst (wait_before t))" "by_steps (fst (wait_after t))" "threads_ok ts"
    by (simp_all add: threads_ok_def)
  obtain out q1 c1 where pass: "pass t q (f c) = (out, q1, c1)" by (cases "pass t q (f c)")
  from steps Cons.prems(2) have "conn_ok (f c)" by (simp add: by_steps_ok)
  with assms(1) steps pass have one: "conn_ok c1 \<and> P out" by blast
  show ?case
  proof (cases out)
    case Continue
    with Cons.IH [OF steps(4)] one show ?thesis by (simp add: ft pass)
  qed (use one in \<open>simp_all add: ft pass\<close>)
qed (simp add: assms(2))

lemma legacy_pass_sound:
  assumes "conn_ok c" "by_steps (fst (wait_before t))" "by_steps (fst (wait_after t))"
    and "legacy_pass op req timeout t q c = (out, q1, c1)"
  shows "conn_ok c1 \<and> (case out of
      Continue \<Rightarrow> True
    | Return msg \<Rightarrow> (\<exists>m. msg = JObj m \<and> dict_get m ''op'' = Some (JStr (expected_op op)))
    | Raise e \<Rightarrow> e = unreachable op \<or> e = timed_out op \<or> expected_op op = ''error'')"
proof (cases "await_sent op req timeout t q c")
  case (Inl r)
  with assms await_sent_sound [OF assms(1-3), of op req timeout q] show ?thesis by (auto simp: legacy_pass_def)
next
  case (Inr p)
  obtain q2 c2 where p: "p = (q2, c2)" by (cases p)
  have ok: "conn_ok c2" using await_sent_sound [OF assms(1-3), of op req timeout q] Inr p by simp
  show ?thesis
  proof (cases "raw c2")
    case Nil
    with assms(4) Inr p ok show ?thesis by (simp add: legacy_pass_def)
  next
    case (Cons msg rest)
    then obtain m where m: "msg = JObj m" "\<not> is_event m" using ok by (auto simp: conn_ok_def)
    have out: "legacy_message (expected_op op) msg (c2\<lparr>raw := rest\<rparr>) = (out, c1)"
      using assms(4) Inr p Cons by (auto simp: legacy_pass_def Let_def split: prod.splits)
    with legacy_message_ok [OF ok Cons, of "expected_op op"] have "conn_ok c1" by simp
    moreover from out m have "case out of Continue \<Rightarrow> True
      | Return msg \<Rightarrow> (\<exists>m. msg = JObj m \<and> dict_get m ''op'' = Some (JStr (expected_op op)))
      | Raise e \<Rightarrow> e = unreachable op \<or> e = timed_out op \<or> expected_op op = ''error''"
      by (auto simp: legacy_message_def Let_def split: if_splits)
    ultimately show ?thesis by simp
  qed
qed

lemma multiplex_run_sound:
  assumes "threads_ok ts" "conn_ok c"
  shows "\<forall>msg. fst (run_passes (multiplex_pass op req rid timeout) ts q c) = Return msg \<longrightarrow> reply_to rid msg"
proof (rule run_passes_sound [where P = "\<lambda>out. \<forall>msg. out = Return msg \<longrightarrow> reply_to rid msg", THEN conjunct2])
  show "conn_ok c1 \<and> (\<forall>msg. out = Return msg \<longrightarrow> reply_to rid msg)"
    if "conn_ok c" "by_steps (fst (wait_before t))" "by_steps (fst (wait_after t))"
      "multiplex_pass op req rid timeout t q c = (out, q1, c1)" for t q c out q1 c1
    using that by (rule multiplex_pass_sound)
qed (use assms in simp_all)

lemma legacy_run_sound:
  assumes "threads_ok ts" "conn_ok c"
  shows "case fst (run_passes (legacy_pass op req timeout) ts q c) of
      Continue \<Rightarrow> True
    | Return msg \<Rightarrow> (\<exists>m. msg = JObj m \<and> dict_get m ''op'' = Some (JStr (expected_op op)))
    | Raise e \<Rightarrow> e = unreachable op \<or> e = timed_out op \<or> expected_op op = ''error''"
proof (rule run_passes_sound [where P = "\<lambda>out. case out of
      Continue \<Rightarrow> True
    | Return msg \<Rightarrow> (\<exists>m. msg = JObj m \<and> dict_get m ''op'' = Some (JStr (expected_op op)))
    | Raise e \<Rightarrow> e = unreachable op \<or> e = timed_out op \<or> expected_op op = ''error''", THEN conjunct2])
  show "conn_ok c1 \<and> (case out of Continue \<Rightarrow> True
    | Return msg \<Rightarrow> (\<exists>m. msg = JObj m \<and> dict_get m ''op'' = Some (JStr (expected_op op)))
    | Raise e \<Rightarrow> e = unreachable op \<or> e = timed_out op \<or> expected_op op = ''error'')"
    if "conn_ok c" "by_steps (fst (wait_before t))" "by_steps (fst (wait_after t))"
      "legacy_pass op req timeout t q c = (out, q1, c1)" for t q c out q1 c1
    using that by (rule legacy_pass_sound)
qed (use assms in simp_all)

lemma expected_op_error: "expected_op op = ''error'' \<longleftrightarrow> op = ''error''"
  by (auto simp: expected_op_def RESPONSE_MAP_def split: if_splits)

section \<open>Properties\<close>

text \<open>
  C25: a correlated request returns only a reply that carries its own id, whatever the other
  threads do meanwhile; its id was not in use before, and its mailbox is gone afterwards.
\<close>

theorem multiplex_reply_is_own:
  assumes "dclient_init connected = Ok c0" and "client_steps c0 c" and "threads_ok ts"
    and "request_multiplex op args start timeout ts c = (out, c')"
  shows "(case out of Return msg \<Rightarrow> reply_to (fst (new_id c)) msg | _ \<Rightarrow> True) \<and>
    dict_get (pending c) (fst (new_id c)) = None \<and> dict_get (pending c') (fst (new_id c)) = None"
proof -
  have ok: "conn_ok c" using assms(1,2) dclient_init_ok client_steps_ok by blast
  obtain rid c1 where new: "new_id c = (rid, c1)" by (cases "new_id c")
  let ?c = "c1\<lparr>pending := dict_set rid [] (pending c1)\<rparr>"
  have "conn_ok ?c" using conn_ok_new_id [OF ok] new by (simp add: conn_ok_set)
  with multiplex_run_sound [OF assms(3)]
  have "\<forall>msg. fst (run_passes (multiplex_pass op (build_request op args rid) rid timeout) ts (begin_request start timeout ?c) ?c) = Return msg
      \<longrightarrow> reply_to rid msg" by blast
  moreover from assms(4) new have "fst (run_passes (multiplex_pass op (build_request op args rid) rid timeout) ts (begin_request start timeout ?c) ?c) = out"
    "dict_get (pending c') rid = None"
    by (auto simp: request_multiplex_def Let_def dict_get_del split: prod.splits)
  ultimately show ?thesis
    using new_id_fresh [OF ok] new by (cases out) simp_all
qed

theorem multiplex_reply_is_own_witness:
  "\<exists>c0. dclient_init True = Ok c0 \<and> (\<exists>out c'. request_multiplex ''whoami'' [] 0 10
      [(\<lambda>c. c, \<lparr>now = 1, wait_before = (\<lambda>c. c, False), send_ok = True, wait_after = (\<lambda>c. c, False)\<rparr>),
       (\<lambda>c. c, \<lparr>now = 20, wait_before = (\<lambda>c. c, False), send_ok = True, wait_after = (\<lambda>c. c, False)\<rparr>)] c0 = (out, c') \<and>
     dict_get (pending c') ''r1'' = None)"
proof -
  let ?ts = "[(\<lambda>c. c, \<lparr>now = 1, wait_before = (\<lambda>c. c, False), send_ok = True, wait_after = (\<lambda>c. c, False)\<rparr>),
       (\<lambda>c. c, \<lparr>now = 20, wait_before = (\<lambda>c. c, False), send_ok = True, wait_after = (\<lambda>c. c, False)\<rparr>)]"
  obtain c0 where c0: "dclient_init True = Ok c0" by (simp add: dclient_init_def)
  have "nat_digits (Suc 0) = ''1''" by (subst nat_digits.simps) (simp add: hex_digit_def hex_digits_def)
  with c0 have rid: "fst (new_id c0) = ''r1''" by (auto simp: dclient_init_def new_id_def)
  have "threads_ok ?ts" by (simp add: threads_ok_def by_steps_id)
  moreover obtain out c' where run: "request_multiplex ''whoami'' [] 0 10 ?ts c0 = (out, c')" by fastforce
  ultimately have "dict_get (pending c') ''r1'' = None"
    using multiplex_reply_is_own [OF c0 client_steps.refl _ run] rid by simp
  with c0 run show ?thesis by blast
qed

text \<open>
  C26: on the serialised path a reply is returned only if its operation is the expected one, and
  an error reply of the daemon is never reported: it is stashed, and the request ends, if at all
  without a reply, in a timeout or an unreachable daemon.
\<close>

theorem legacy_error_reply_lost:
  assumes "dclient_init connected = Ok c0" and "client_steps c0 c" and "threads_ok ts" and "op \<noteq> ''error''"
    and "request_legacy op args start timeout ts c = (out, c')"
  shows "(case out of
      Continue \<Rightarrow> True
    | Return msg \<Rightarrow> (\<exists>m. msg = JObj m \<and> dict_get m ''op'' = Some (JStr (expected_op op)))
    | Raise e \<Rightarrow> e = unreachable op \<or> e = timed_out op) \<and>
    legacy_message (expected_op op) (JObj [(''op'', JStr ''error''), (''error'', JStr why)]) c =
      (Continue, c\<lparr>stash := stash c @ [JObj [(''op'', JStr ''error''), (''error'', JStr why)]]\<rparr>)"
proof -
  have ok: "conn_ok c" using assms(1,2) dclient_init_ok client_steps_ok by blast
  have "expected_op op \<noteq> ''error''" using assms(4) by (simp add: expected_op_error)
  moreover note legacy_run_sound [OF assms(3) conn_ok_new_id [OF ok, THEN conjunct1], of op "build_request op args (fst (new_id c))" timeout
      "begin_request start timeout (snd (new_id c))"]
  ultimately show ?thesis
    using assms(5) by (auto simp: request_legacy_def case_prod_beta legacy_message_def is_event_def EVENT_OPS_def split: outcome.splits)
qed

theorem legacy_error_reply_lost_witness:
  "\<exists>c0 out c'. dclient_init True = Ok c0 \<and> request_legacy ''send'' [] 0 10
      [(\<lambda>c. c, \<lparr>now = 1, wait_before = (\<lambda>c. c, False), send_ok = False, wait_after = (\<lambda>c. c, False)\<rparr>)] c0 = (out, c') \<and>
     legacy_message ''queued'' (JObj [(''op'', JStr ''error''), (''error'', JStr ''blocked'')]) c0 =
      (Continue, c0\<lparr>stash := stash c0 @ [JObj [(''op'', JStr ''error''), (''error'', JStr ''blocked'')]]\<rparr>)"
proof -
  let ?ts = "[(\<lambda>c. c, \<lparr>now = 1, wait_before = (\<lambda>c. c, False), send_ok = False, wait_after = (\<lambda>c. c, False)\<rparr>)]"
  obtain c0 where c0: "dclient_init True = Ok c0" by (simp add: dclient_init_def)
  have "threads_ok ?ts" by (simp add: threads_ok_def by_steps_id)
  moreover obtain out c' where run: "request_legacy ''send'' [] 0 10 ?ts c0 = (out, c')" by fastforce
  moreover have "expected_op ''send'' = ''queued''" by (simp add: expected_op_def RESPONSE_MAP_def)
  ultimately show ?thesis
    using legacy_error_reply_lost [OF c0 client_steps.refl, of ?ts "''send''" "[]" 0 10 out c' "''blocked''"] c0 by auto
qed

text \<open>
  C27: a reply that arrives for a waiting correlated request reaches exactly that request: its
  next pass, before the deadline on a live connection, returns it.
\<close>

theorem multiplex_reply_delivered:
  assumes "dict_get (pending c) rid = Some []" and "json_loads line = Ok (JObj m)"
    and "dict_get m ''id'' = Some (JStr rid)" and "\<not> is_event m" and "dict_get m ''op'' \<noteq> Some (JStr ''error'')"
    and "line \<noteq> []" and "reader_alive c" and "\<not> stop c" and "sock c" and "\<not> want_reconnect c"
    and "q_sent q" and "now t < q_deadline q"
  shows "\<exists>c1. multiplex_pass op req rid timeout t q (read_loop_pass connected (Some line) c) = (Return (JObj m), q, c1) \<and>
    dict_get (pending c1) rid = Some []"
  using assms
  by (simp add: read_loop_pass_def read_line_def dispatch_def multiplex_pass_def await_sent_def mailbox_message_def
      dict_get_set Let_def)

theorem multiplex_reply_delivered_witness:
  "\<exists>c0 c1 m. dclient_init True = Ok c0 \<and>
     multiplex_pass ''whoami'' (build_request ''whoami'' [] ''r1'') ''r1'' 10
       \<lparr>now = 1, wait_before = (\<lambda>c. c, False), send_ok = True, wait_after = (\<lambda>c. c, False)\<rparr>
       \<lparr>q_deadline = 10, q_sent_gen = 1, q_sent = True\<rparr>
       (read_loop_pass True (Some (json_dumps (JObj [(''op'', JStr ''whoami''), (''id'', JStr ''r1'')])))
         (c0\<lparr>pending := [(''r1'', [])]\<rparr>)) = (Return (JObj m), \<lparr>q_deadline = 10, q_sent_gen = 1, q_sent = True\<rparr>, c1)"
proof -
  obtain c0 where c0: "dclient_init True = Ok c0" by (simp add: dclient_init_def)
  have "json_loads (json_dumps (JObj [(''op'', JStr ''whoami''), (''id'', JStr ''r1'')])) =
      Ok (JObj [(''op'', JStr ''whoami''), (''id'', JStr ''r1'')])"
    by (rule json_loads_dumps) (simp add: valid_str_lit)
  moreover have "json_dumps (JObj [(''op'', JStr ''whoami''), (''id'', JStr ''r1'')]) \<noteq> []"
    by (simp add: json_dumps_def)
  moreover have "\<not> is_event [(''op'', JStr ''whoami''), (''id'', JStr ''r1'')]"
    by (simp add: is_event_def EVENT_OPS_def)
  moreover have "reader_alive c0" "\<not> stop c0" "sock c0" "\<not> want_reconnect c0"
    using c0 by (auto simp: dclient_init_def)
  ultimately show ?thesis
    using c0 multiplex_reply_delivered [of "c0\<lparr>pending := [(''r1'', [])]\<rparr>" "''r1''"
      "json_dumps (JObj [(''op'', JStr ''whoami''), (''id'', JStr ''r1'')])" "[(''op'', JStr ''whoami''), (''id'', JStr ''r1'')]"
      "\<lparr>q_deadline = 10, q_sent_gen = 1, q_sent = True\<rparr>"
      "\<lparr>now = 1, wait_before = (\<lambda>c. c, False), send_ok = True, wait_after = (\<lambda>c. c, False)\<rparr>" "''whoami''" "build_request ''whoami'' [] ''r1''" 10 True]
    by auto
qed
end
