(* ===== verification/Client.thy ===== *)
theory Client
  imports Protocol
begin

text \<open>
  \<open>class Client\<close> of \<open>client/aimless/daemon.py\<close>: the operations the user interfaces call, on top
  of the daemon connection's \<open>request\<close>, which is an argument here: a function on the state of
  the world with a JSON answer or an exception. \<open>c_draws\<close> selects the nonce of the next
  sealed box.
\<close>

type_synonym 'w request_fn = "string \<Rightarrow> (string, json) dict \<Rightarrow> ('w, json) act"

record client =
  identity :: bytes
  pubkey_hex :: string
  screen_name :: string
  node_key_cache :: "json option"
  c_draws :: nat

definition client_init :: "nacl \<Rightarrow> bytes \<Rightarrow> string \<Rightarrow> client" where
  "client_init N seed screen =
     \<lparr>identity = seed, pubkey_hex = bytes_hex (n_verify_key N seed), screen_name = screen,
      node_key_cache = None, c_draws = 0\<rparr>"

text \<open>A request leaves the client's own fields alone.\<close>

definition ask :: "'w request_fn \<Rightarrow> string \<Rightarrow> (string, json) dict \<Rightarrow> (client \<times> 'w, json) act" where
  "ask req op args = (\<lambda>(c, w). case req op args w of (r, w1) \<Rightarrow> (r, (c, w1)))"

text \<open>\<open>resp.get(key, default)\<close>\<close>

definition get_default :: "json \<Rightarrow> string \<Rightarrow> json \<Rightarrow> json res" where
  "get_default v k d = bind_res (json_get v k) (\<lambda>r. Ok (case r of None \<Rightarrow> d | Some x \<Rightarrow> x))"

definition whoami :: "'w request_fn \<Rightarrow> (client \<times> 'w, json) act" where
  "whoami req = ask req ''whoami'' []"

definition node_key :: "'w request_fn \<Rightarrow> (client \<times> 'w, json) act" where
  "node_key req = (\<lambda>(c, w).
     case node_key_cache c of
       Some k \<Rightarrow> (Ok k, (c, w))
     | None \<Rightarrow>
         bind_act (whoami req) (\<lambda>r. bind_act (lift_res (json_item r ''key'')) (\<lambda>k.
           (\<lambda>(c, w). (Ok k, (c\<lparr>node_key_cache := Some k\<rparr>, w))))) (c, w))"

definition add_contact :: "'w request_fn \<Rightarrow> string \<Rightarrow> (client \<times> 'w, json) act" where
  "add_contact req buddy_node_hex = ask req ''watch'' [(''to'', JStr buddy_node_hex)]"

definition block :: "'w request_fn \<Rightarrow> string \<Rightarrow> (client \<times> 'w, json) act" where
  "block req node_hex = ask req ''block'' [(''to'', JStr node_hex)]"

definition unblock :: "'w request_fn \<Rightarrow> string \<Rightarrow> (client \<times> 'w, json) act" where
  "unblock req node_hex = ask req ''unblock'' [(''to'', JStr node_hex)]"

definition blocklist :: "'w request_fn \<Rightarrow> (client \<times> 'w, json) act" where
  "blocklist req = bind_act (ask req ''blocklist'' []) (\<lambda>r. lift_res (get_default r ''blocked'' (JArr [])))"

text \<open>Sealing for a key read from JSON; the sealed box draws a nonce.\<close>

definition seal_for ::
  "(nat \<Rightarrow> string \<Rightarrow> 'a res) \<Rightarrow> json \<Rightarrow> (client \<times> 'w, 'a) act" where
  "seal_for seal pubkey = (\<lambda>(c, w).
     ((case pubkey of JStr p \<Rightarrow> seal (c_draws c) p
       | _ \<Rightarrow> Err (TypeError ''fromhex() argument must be str'')), (c\<lparr>c_draws := c_draws c + 1\<rparr>, w)))"

definition send ::
  "nacl \<Rightarrow> 'w request_fn \<Rightarrow> string \<Rightarrow> string \<Rightarrow> string \<Rightarrow> int \<Rightarrow> (client \<times> 'w, json) act" where
  "send N req buddy_client_hex buddy_node_hex body ts = (\<lambda>(c, w).
     bind_act (seal_for (\<lambda>d p. seal_message N d (identity c) p body ts (Some (screen_name c)) None None) (JStr buddy_client_hex))
       (\<lambda>payload. ask req ''send'' [(''to'', JStr buddy_node_hex), (''payload'', JStr payload)]) (c, w))"

definition send_file :: "'w request_fn \<Rightarrow> string \<Rightarrow> string \<Rightarrow> (client \<times> 'w, json) act" where
  "send_file req buddy_node_hex payload_b64 =
     ask req ''sendfile'' [(''to'', JStr buddy_node_hex), (''payload'', JStr payload_b64)]"

section \<open>Fan-out to a room\<close>

text \<open>\<open>seqs[m["node"]] = resp.get("seq", 0)\<close> for a node that is a string.\<close>

fun dict_key :: "json \<Rightarrow> string res" where
  "dict_key (JStr s) = Ok s"
| "dict_key _ = Err (TypeError ''node is not a string'')"

definition room_triplet :: "json \<Rightarrow> (json \<times> json \<times> json) res" where
  "room_triplet m =
     bind_res (json_item m ''node'') (\<lambda>node.
     bind_res (json_item m ''pubkey'') (\<lambda>pubkey.
     bind_res (get_default m ''screen'' (JStr [])) (\<lambda>screen. Ok (node, pubkey, screen))))"

definition triplet_json :: "json \<times> json \<times> json \<Rightarrow> json" where
  "triplet_json = (\<lambda>(node, pubkey, screen). JObj [(''node'', node), (''pubkey'', pubkey), (''screen'', screen)])"

fun send_room_loop ::
  "nacl \<Rightarrow> 'w request_fn \<Rightarrow> json \<Rightarrow> (nat \<Rightarrow> string \<Rightarrow> string res) \<Rightarrow> (json \<times> json \<times> json) list \<Rightarrow> (string, json) dict
   \<Rightarrow> (client \<times> 'w, (string, json) dict) act" where
  "send_room_loop N req my_node seal [] seqs = ret_act seqs"
| "send_room_loop N req my_node seal ((node, pubkey, screen) # ms) seqs =
     (if node = my_node then send_room_loop N req my_node seal ms seqs
      else
        bind_act (seal_for seal pubkey) (\<lambda>payload.
        bind_act (ask req ''send'' [(''to'', node), (''payload'', JStr payload)]) (\<lambda>resp.
        bind_act (lift_res (get_default resp ''seq'' (JInt 0))) (\<lambda>seq.
        bind_act (lift_res (dict_key node)) (\<lambda>k.
          send_room_loop N req my_node seal ms (dict_set k seq seqs))))))"

definition send_room ::
  "nacl \<Rightarrow> 'w request_fn \<Rightarrow> json list \<Rightarrow> string \<Rightarrow> string \<Rightarrow> int \<Rightarrow> (client \<times> 'w, (string, json) dict) act" where
  "send_room N req members conv body ts = (\<lambda>(c, w).
     bind_act (lift_res (traverse_res room_triplet members)) (\<lambda>triplets.
     bind_act (node_key req) (\<lambda>my_node.
       send_room_loop N req my_node
         (\<lambda>d p. seal_message N d (identity c) p body ts (Some (screen_name c)) (Some conv)
                  (Some (JArr (map triplet_json triplets)))) triplets [])) (c, w))"

fun send_file_room_loop ::
  "nacl \<Rightarrow> 'w request_fn \<Rightarrow> json \<Rightarrow> bytes \<Rightarrow> (nat \<Rightarrow> string \<Rightarrow> bytes res) \<Rightarrow> json list \<Rightarrow> (string, json) dict
   \<Rightarrow> (client \<times> 'w, (string, json) dict) act" where
  "send_file_room_loop N req my_node header seal [] seqs = ret_act seqs"
| "send_file_room_loop N req my_node header seal (m # ms) seqs =
     bind_act (lift_res (json_item m ''node'')) (\<lambda>node.
       if node = my_node then send_file_room_loop N req my_node header seal ms seqs
       else
         bind_act (lift_res (json_item m ''pubkey'')) (\<lambda>pubkey.
         bind_act (seal_for seal pubkey) (\<lambda>sealed.
         bind_act (ask req ''sendfile'' [(''to'', node), (''payload'', JStr (b64encode (header @ sealed)))]) (\<lambda>resp.
         bind_act (lift_res (get_default resp ''seq'' (JInt 0))) (\<lambda>seq.
         bind_act (lift_res (dict_key node)) (\<lambda>k.
           send_file_room_loop N req my_node header seal ms (dict_set k seq seqs)))))))"

definition send_file_room ::
  "nacl \<Rightarrow> 'w request_fn \<Rightarrow> json list \<Rightarrow> string \<Rightarrow> (string, json) dict \<Rightarrow> (client \<times> 'w, (string, json) dict) act" where
  "send_file_room N req members conv chunk = (\<lambda>(c, w).
     bind_act (node_key req) (\<lambda>my_node.
       let body = dict_set ''conv'' (JStr conv) chunk
       in bind_act (lift_res (bind_res (json_item (JObj body) ''transfer_id'') fromhex_json)) (\<lambda>tid.
          bind_act (lift_res (bind_res (json_item (JObj body) ''index'') json_int)) (\<lambda>index.
          bind_act (lift_res (bind_res (json_item (JObj body) ''total'') json_int)) (\<lambda>tot.
          bind_act (lift_res (file_header tid index tot)) (\<lambda>header.
            send_file_room_loop N req my_node header (\<lambda>d p. seal_file_chunk N d (identity c) p body) members []))))) (c, w))"

section \<open>Attachments, status, history\<close>

definition pending_attachments :: "'w request_fn \<Rightarrow> string \<Rightarrow> (client \<times> 'w, json) act" where
  "pending_attachments req node_hex =
     bind_act (ask req ''pendingattachments'' [(''from'', JStr node_hex)]) (\<lambda>r. lift_res (get_default r ''transfers'' (JArr [])))"

definition fetch_attachment :: "'w request_fn \<Rightarrow> string \<Rightarrow> string \<Rightarrow> (client \<times> 'w, json) act" where
  "fetch_attachment req node_hex tid =
     bind_act (ask req ''fetchattachment'' [(''from'', JStr node_hex), (''tid'', JStr tid)])
       (\<lambda>r. lift_res (get_default r ''chunks'' (JArr [])))"

definition ack_attachment :: "'w request_fn \<Rightarrow> string \<Rightarrow> string \<Rightarrow> (client \<times> 'w, json) act" where
  "ack_attachment req node_hex tid = ask req ''ackfile'' [(''from'', JStr node_hex), (''tid'', JStr tid)]"

definition set_status ::
  "nacl \<Rightarrow> 'w request_fn \<Rightarrow> string \<Rightarrow> string \<Rightarrow> json \<Rightarrow> int \<Rightarrow> (client \<times> 'w, json) act" where
  "set_status N req buddy_client_hex buddy_node_hex away now_ms = (\<lambda>(c, w).
     bind_act (seal_for (\<lambda>d p. seal_status N d (identity c) p (screen_name c) away now_ms) (JStr buddy_client_hex))
       (\<lambda>payload. ask req ''setstatus'' [(''to'', JStr buddy_node_hex), (''payload'', JStr payload)]) (c, w))"

definition history :: "'w request_fn \<Rightarrow> string \<Rightarrow> int \<Rightarrow> (client \<times> 'w, json) act" where
  "history req buddy_node_hex after_seq = ask req ''history'' [(''from'', JStr buddy_node_hex), (''seq'', JInt after_seq)]"

definition presence :: "'w request_fn \<Rightarrow> (client \<times> 'w, json) act" where
  "presence req = bind_act (ask req ''presence'' []) (\<lambda>r. lift_res (get_default r ''presence'' (JArr [])))"

definition decrypt_recv :: "nacl \<Rightarrow> client \<Rightarrow> (string, json) dict \<Rightarrow> (string, json) dict res" where
  "decrypt_recv N c event =
     bind_res (json_item (JObj event) ''payload'') (\<lambda>p.
       case p of JStr payload \<Rightarrow> open_message N (identity c) payload
       | _ \<Rightarrow> Err (TypeError ''argument should be a bytes-like object or ASCII string''))"

definition decrypt_status :: "nacl \<Rightarrow> client \<Rightarrow> string \<Rightarrow> (string, json) dict res" where
  "decrypt_status N c payload_b64 = open_status N (identity c) payload_b64"

section \<open>What a fan-out sends\<close>

text \<open>The same daemon with a log of the requests made.\<close>

definition traced :: "'w request_fn \<Rightarrow> ('w \<times> (string \<times> (string, json) dict) list) request_fn" where
  "traced req op args = (\<lambda>(w, log). case req op args w of (r, w1) \<Rightarrow> (r, (w1, log @ [(op, args)])))"

text \<open>One request per member other than this node, with a payload sealed for that member.\<close>

definition sealed_send ::
  "(nat \<Rightarrow> string \<Rightarrow> string res) \<Rightarrow> json \<times> json \<times> json \<Rightarrow> string \<times> (string, json) dict \<Rightarrow> bool" where
  "sealed_send seal = (\<lambda>(node, pubkey, _) (op, args). op = ''send'' \<and>
     (\<exists>d p payload. pubkey = JStr p \<and> seal d p = Ok payload \<and> args = [(''to'', node), (''payload'', JStr payload)]))"

lemma ask_traced_Ok:
  assumes "ask (traced req) op args (c, (w, log)) = (Ok r, s)"
  obtains w1 where "s = (c, (w1, log @ [(op, args)]))"
  using assms by (auto simp: ask_def traced_def split: prod.splits)

lemma seal_for_Ok:
  assumes "seal_for seal pubkey (c, w) = (Ok x, s)"
  obtains p where "pubkey = JStr p" "seal (c_draws c) p = Ok x" "s = (c\<lparr>c_draws := c_draws c + 1\<rparr>, w)"
  using assms by (auto simp: seal_for_def split: json.splits)

lemma lift_res_Ok: "lift_res r s = (Ok x, s') \<longleftrightarrow> r = Ok x \<and> s' = s"
  by (auto simp: lift_res_def)

lemma send_room_loop_sends:
  assumes "send_room_loop N (traced req) my_node seal ms seqs (c, (w, log)) = (Ok out, (c', (w', log')))"
  shows "\<exists>sent. log' = log @ sent \<and> list_all2 (sealed_send seal) (filter (\<lambda>(n, _). n \<noteq> my_node) ms) sent"
  using assms
proof (induction ms arbitrary: seqs c w log)
  case (Cons m ms)
  obtain node pubkey screen where m: "m = (node, pubkey, screen)" by (cases m)
  show ?case
  proof (cases "node = my_node")
    case False
    with Cons.prems m obtain payload s1 resp s2 seq s3 k s4 where
        seal: "seal_for seal pubkey (c, (w, log)) = (Ok payload, s1)"
      and ask: "ask (traced req) ''send'' [(''to'', node), (''payload'', JStr payload)] s1 = (Ok resp, s2)"
      and rest: "lift_res (get_default resp ''seq'' (JInt 0)) s2 = (Ok seq, s3)" "lift_res (dict_key node) s3 = (Ok k, s4)"
        "send_room_loop N (traced req) my_node seal ms (dict_set k seq seqs) s4 = (Ok out, (c', (w', log')))"
      by (auto elim!: bind_act_Ok)
    obtain p where p: "pubkey = JStr p" "seal (c_draws c) p = Ok payload" "s1 = (c\<lparr>c_draws := c_draws c + 1\<rparr>, (w, log))"
      using seal by (rule seal_for_Ok)
    obtain w1 where s2: "s2 = (c\<lparr>c_draws := c_draws c + 1\<rparr>, (w1, log @ [(''send'', [(''to'', node), (''payload'', JStr payload)])]))"
      using ask unfolding p(3) by (rule ask_traced_Ok)
    from rest(1,2) have "s4 = s2" by (simp add: lift_res_Ok)
    from Cons.IH [OF rest(3) [unfolded this s2]] obtain sent where
        sent: "log' = (log @ [(''send'', [(''to'', node), (''payload'', JStr payload)])]) @ sent"
          "list_all2 (sealed_send seal) (filter (\<lambda>(n, _). n \<noteq> my_node) ms) sent" by blast
    moreover have "sealed_send seal m (''send'', [(''to'', node), (''payload'', JStr payload)])"
      using p by (auto simp: sealed_send_def m)
    ultimately show ?thesis
      using False m by (intro exI [of _ "(''send'', [(''to'', node), (''payload'', JStr payload)]) # sent"]) simp
  qed (use Cons m in simp)
qed (simp add: ret_act_def)

section \<open>Properties\<close>

text \<open>
  C28: a room message goes out as one sealed copy to every member other than this node, in
  roster order and nothing else; and each copy opens for the member whose key it was sealed to,
  with the text, the conversation and the whole roster.
\<close>

theorem room_fanout:
  assumes "nacl_ok N" and "length (identity c) = 32" and "node_key_cache c = Some my_node"
    and "traverse_res room_triplet members = Ok ts"
    and "valid_json (JObj (message_body body t (Some (screen_name c)) (Some conv) (Some (JArr (map triplet_json ts)))))"
    and "send_room N (traced req) members conv body t (c, (w, [])) = (Ok seqs, (c', (w', log)))"
  shows "list_all2 (\<lambda>(node, pubkey, _) (op, args). op = ''send'' \<and>
      (\<exists>payload. args = [(''to'', node), (''payload'', JStr payload)] \<and>
        (\<forall>seed. length seed = 32 \<and> pubkey = JStr (bytes_hex (n_verify_key N seed)) \<longrightarrow>
           open_message N seed payload = Ok (opened_message (bytes_hex (n_verify_key N (identity c))) body t
             (Some (screen_name c)) (Some conv) (Some (JArr (map triplet_json ts)))))))
    (filter (\<lambda>(n, _). n \<noteq> my_node) ts) log"
proof -
  let ?roster = "Some (JArr (map triplet_json ts))"
  let ?seal = "\<lambda>d p. seal_message N d (identity c) p body t (Some (screen_name c)) (Some conv) ?roster"
  from assms(3,4,6) have "send_room_loop N (traced req) my_node ?seal ts [] (c, (w, [])) = (Ok seqs, (c', (w', log)))"
    by (simp add: send_room_def node_key_def bind_act_def [of "\<lambda>_. _"] lift_res_def bind_act_def split: prod.splits res.splits)
  then have sent: "list_all2 (sealed_send ?seal) (filter (\<lambda>(n, _). n \<noteq> my_node) ts) log"
    using send_room_loop_sends by fastforce
  have opens: "open_message N seed payload = Ok (opened_message (bytes_hex (n_verify_key N (identity c))) body t
      (Some (screen_name c)) (Some conv) ?roster)"
    if "length seed = 32" "?seal d (bytes_hex (n_verify_key N seed)) = Ok payload" for seed d payload
    using open_seal_message [OF assms(1,2) that(1) assms(5), of d] that(2) by auto
  show ?thesis
    by (rule list.rel_mono_strong [OF sent]) (use opens in \<open>auto simp: sealed_send_def\<close>)
qed

theorem room_fanout_witness:
  "\<exists>seqs s log. send_room plain_nacl (traced (\<lambda>op args w. (Ok (JObj [(''seq'', JInt 4)]), w)))
      [JObj [(''node'', JStr ''me''), (''pubkey'', JStr ''00'')],
       JObj [(''node'', JStr ''b''), (''pubkey'', JStr (bytes_hex (replicate 32 2)))]] ''room'' ''hi'' 7
      ((client_init plain_nacl (replicate 32 1) ''ann'')\<lparr>node_key_cache := Some (JStr ''me'')\<rparr>, ((), []))
      = (Ok seqs, (s, ((), log))) \<and> length log = 1"
proof -
  let ?ms = "[JObj [(''node'', JStr ''me''), (''pubkey'', JStr ''00'')],
      JObj [(''node'', JStr ''b''), (''pubkey'', JStr (bytes_hex (replicate 32 2)))]]"
  let ?ts = "[(JStr ''me'', JStr ''00'', JStr []), (JStr ''b'', JStr (bytes_hex (replicate 32 2)), JStr [])]"
  let ?c = "(client_init plain_nacl (replicate 32 1) ''ann'')\<lparr>node_key_cache := Some (JStr ''me'')\<rparr>"
  let ?req = "traced (\<lambda>op args w. (Ok (JObj [(''seq'', JInt 4)]), w)) :: (unit \<times> (string \<times> (string, json) dict) list) request_fn"
  have ts: "traverse_res room_triplet ?ms = Ok ?ts" by (simp add: room_triplet_def get_default_def)
  have valid: "valid_json (JObj (message_body ''hi'' 7 (Some ''ann'') (Some ''room'') (Some (JArr (map triplet_json ?ts)))))"
    by (rule message_body_valid) (auto simp: valid_str_lit triplet_json_def)
  have c: "identity ?c = replicate 32 1" "screen_name ?c = ''ann''" "node_key_cache ?c = Some (JStr ''me'')" "c_draws ?c = 0"
    by (simp_all add: client_init_def)
  obtain payload where "seal_message plain_nacl 0 (replicate 32 1) (bytes_hex (replicate 32 2)) ''hi'' 7
      (Some ''ann'') (Some ''room'') (Some (JArr (map triplet_json ?ts))) = Ok payload"
    using open_seal_message [OF plain_nacl_ok _ _ valid, of "replicate 32 1" "replicate 32 2" 0] by (auto simp: plain_nacl_def)
  then obtain seqs s log where run: "send_room plain_nacl ?req ?ms ''room'' ''hi'' 7 (?c, ((), [])) = (Ok seqs, (s, ((), log)))"
    unfolding send_room_def ts
    by (simp add: node_key_def c bind_act_def seal_for_def ask_def traced_def get_default_def lift_res_def ret_act_def)
  have "length log = length (filter (\<lambda>(n, _). n \<noteq> JStr ''me'') ?ts)"
    using room_fanout [OF plain_nacl_ok _ c(3) ts _ run, THEN list_all2_lengthD] valid by (simp add: c)
  with run show ?thesis by fastforce
qed
end
