(* ===== verification/Processes.thy ===== *)
theory Processes
  imports Paths Json
begin

text \<open>
  The operating system's processes as the client sees them: signals, \<open>/proc\<close>, pid files and
  waiting. A process either ends on \<open>SIGTERM\<close> within the grace period the client gives it or
  has to be killed. Every signal the client sends is logged, so that what it may signal can be
  stated. Process groups (pids below 1) do not exist here.
\<close>

section \<open>Processes and signals\<close>

datatype sig = SIGTERM | SIGKILL | SIGUSR1

record proc =
  argv :: "string list"
  zombie :: bool
  dies_on_term :: bool

record host =
  procs :: "int \<rightharpoonup> proc"
  signals :: "(int \<times> sig) list"
  hfs :: fs

definition pid_zombie :: "host \<Rightarrow> int \<Rightarrow> bool" where
  "pid_zombie h pid = (case procs h pid of Some p \<Rightarrow> zombie p | None \<Rightarrow> False)"

definition pid_exists :: "host \<Rightarrow> int \<Rightarrow> bool" where
  "pid_exists h pid = (procs h pid \<noteq> None)"

definition pid_alive :: "host \<Rightarrow> int \<Rightarrow> bool" where
  "pid_alive h pid = (if \<not> pid_exists h pid then False else \<not> pid_zombie h pid)"

text \<open>\<open>/proc/<pid>/cmdline\<close> ends every argument with a zero byte; a zombie's is empty.\<close>

definition cmdline :: "host \<Rightarrow> int \<Rightarrow> string list" where
  "cmdline h pid = (case procs h pid of None \<Rightarrow> []
     | Some p \<Rightarrow> if zombie p then [[]] else argv p @ [[]])"

text \<open>
  \<open>os.kill\<close>: no such process is an \<open>OSError\<close>, which every caller ignores. A process that ends
  stays as a zombie until it is waited for. \<open>SIGUSR1\<close> goes to the application, which handles it.
\<close>

definition os_kill :: "int \<Rightarrow> sig \<Rightarrow> host \<Rightarrow> host" where
  "os_kill pid sg h =
     (case procs h pid of
        None \<Rightarrow> h
      | Some p \<Rightarrow>
          h\<lparr>signals := signals h @ [(pid, sg)],
            procs := (if sg = SIGKILL \<or> sg = SIGTERM \<and> dies_on_term p
                      then (procs h)(pid \<mapsto> p\<lparr>zombie := True\<rparr>) else procs h)\<rparr>)"

text \<open>\<open>Popen.wait(timeout)\<close>: reaps a child that has ended, raises \<open>TimeoutExpired\<close> otherwise.\<close>

definition wait_child :: "int \<Rightarrow> host \<Rightarrow> bool \<times> host" where
  "wait_child pid h =
     (case procs h pid of
        None \<Rightarrow> (True, h)
      | Some p \<Rightarrow> if zombie p then (True, h\<lparr>procs := (procs h)(pid := None)\<rparr>) else (False, h))"

text \<open>\<open>Popen.poll() is None\<close>: the child is still running; an ended child is reaped.\<close>

definition child_running :: "int \<Rightarrow> host \<Rightarrow> bool" where
  "child_running pid h = pid_alive h pid"

lemma pid_alive_iff: "pid_alive h pid \<longleftrightarrow> (\<exists>p. procs h pid = Some p \<and> \<not> zombie p)"
  by (auto simp: pid_alive_def pid_exists_def pid_zombie_def split: option.splits)

lemma os_kill_signals: "signals (os_kill pid sg h) = signals h @ (if pid_exists h pid then [(pid, sg)] else [])"
  by (simp add: os_kill_def pid_exists_def split: option.split)

lemma os_kill_other: "q \<noteq> pid \<Longrightarrow> procs (os_kill pid sg h) q = procs h q"
  by (simp add: os_kill_def split: option.split)

lemma os_kill_fs [simp]: "hfs (os_kill pid sg h) = hfs h"
  by (simp add: os_kill_def split: option.split)

lemma sigkill_ends: "\<not> pid_alive (os_kill pid SIGKILL h) pid"
  by (auto simp: pid_alive_iff os_kill_def split: option.splits)

section \<open>Pid files\<close>

text \<open>
  \<open>int(s.strip())\<close>: an optional sign and decimal digits, single underscores allowed between
  digits. Digits outside ASCII are not modelled.
\<close>

fun py_digits :: "bool \<Rightarrow> string \<Rightarrow> string option" where
  "py_digits ok [] = (if ok then Some [] else None)"
| "py_digits ok (c # s) =
     (if c \<in> set decimal_digits then map_option (\<lambda>r. c # r) (py_digits True s)
      else if c = CHR ''_'' \<and> ok \<and> s \<noteq> [] then py_digits False s
      else None)"

definition py_int :: "string \<Rightarrow> int option" where
  "py_int s =
     (let t = py_strip s
      in if t \<noteq> [] \<and> hd t = CHR ''-'' then map_option (\<lambda>d. - int (digits_val 0 d)) (py_digits False (tl t))
         else if t \<noteq> [] \<and> hd t = CHR ''+'' then map_option (\<lambda>d. int (digits_val 0 d)) (py_digits False (tl t))
         else map_option (\<lambda>d. int (digits_val 0 d)) (py_digits False t))"

text \<open>Reading a pid file: whatever goes wrong, the answer is \<open>None\<close>.\<close>

definition read_pid_file :: "string \<Rightarrow> host \<Rightarrow> int option" where
  "read_pid_file path h =
     (case os_read path (hfs h) of
        Err _ \<Rightarrow> None
      | Ok bs \<Rightarrow> (case decode_utf8 bs of Err _ \<Rightarrow> None | Ok t \<Rightarrow> py_int t))"

definition write_file :: "string \<Rightarrow> bytes \<Rightarrow> fs \<Rightarrow> fs" where
  "write_file path bs s = run_ops [OpenTrunc path 420, WriteData path bs] s"

definition remove_file :: "string \<Rightarrow> fs \<Rightarrow> fs" where
  "remove_file path s = fs_step (Remove path) s"

lemma write_file_read: "os_read p (write_file p bs s) = Ok bs"
  by (simp add: write_file_def run_ops_def os_read_def split: option.split)

lemma write_file_other: "q \<noteq> p \<Longrightarrow> files (write_file p bs s) q = files s q"
  by (simp add: write_file_def run_ops_def split: option.split)

lemma py_digits_digits: "set s \<subseteq> set decimal_digits \<Longrightarrow> s \<noteq> [] \<or> b \<Longrightarrow> py_digits b s = Some s"
  by (induction s arbitrary: b) auto

lemma py_int_digits: "py_int (nat_digits n) = Some (int n)"
proof -
  have "hd (nat_digits n) \<in> set decimal_digits" using nat_digits_chars [of n] by (meson hd_in_set nat_digits_nonempty subsetD)
  then have "hd (nat_digits n) \<noteq> CHR ''-''" "hd (nat_digits n) \<noteq> CHR ''+''" by (auto simp: decimal_digits_def)
  then show ?thesis
    by (simp add: py_int_def py_strip_digits nat_digits_chars py_digits_digits digits_val_nat)
qed

end
