(* ===== verification/Tunnel.thy ===== *)
theory Tunnel
  imports Processes Logging
begin

text \<open>
  \<open>client/aimless/tunnel.py\<close>: where the client connects, and the supervisor of the one \<open>ssh\<close>
  process that forwards the remote daemon's socket.

  What the world contributes to a step is an argument: the pid of a new process and whether the
  spawn works, what the polls of a waiting loop observe, whether a probe's round trip succeeds.
  The theory shows that only the supervisor's own \<open>ssh\<close> is ever signalled, that stopping leaves
  nothing of the tunnel behind, and the exact sequence of the retry delays.
\<close>

section \<open>Configuration\<close>

definition SSH_OPTS :: "string list" where
  "SSH_OPTS = [''-o'', ''BatchMode=yes'', ''-o'', ''ExitOnForwardFailure=yes'',
     ''-o'', ''StrictHostKeyChecking=accept-new'', ''-o'', ''StreamLocalBindUnlink=yes'',
     ''-o'', ''ServerAliveInterval=15'', ''-o'', ''ServerAliveCountMax=3'', ''-o'', ''TCPKeepAlive=yes'']"

definition BACKOFF :: "nat list" where
  "BACKOFF = [2, 4, 8, 15, 30]"

definition default_local_socket :: "pyenv \<Rightarrow> string" where
  "default_local_socket e =
     (case environ e ''XDG_RUNTIME_DIR'' of
        Some runtime \<Rightarrow>
          if runtime \<noteq> [] then path_join (path_join runtime ''aimless'') ''remote.sock''
          else path_join (run_dir e) ''remote.sock''
      | None \<Rightarrow> path_join (run_dir e) ''remote.sock'')"

record remote =
  r_host :: string
  r_socket :: string
  r_local_socket :: string

text \<open>\<open>str(v)\<close> of a JSON scalar; for a list or an object its JSON text stands in for Python's.\<close>

fun py_str :: "json \<Rightarrow> string" where
  "py_str (JStr s) = s"
| "py_str (JInt i) = int_str i"
| "py_str (JFloat s) = s"
| "py_str (JBool b) = (if b then ''True'' else ''False'')"
| "py_str JNull = ''None''"
| "py_str v = json_dumps v"

text \<open>\<open>d.get(k)\<close> as a truth value.\<close>

definition truthy_field :: "(string, json) dict \<Rightarrow> string \<Rightarrow> bool" where
  "truthy_field d k = (case dict_get d k of Some v \<Rightarrow> json_truthy v | None \<Rightarrow> False)"

text \<open>
  An unreadable or malformed preferences file means no remote; a file that holds something other
  than an object raises, outside the \<open>try\<close>.
\<close>

definition remote_of_prefs :: "pyenv \<Rightarrow> json \<Rightarrow> remote option res" where
  "remote_of_prefs e prefs =
     bind_res (json_get prefs ''remote'') (\<lambda>r.
       case r of
         Some (JObj d) \<Rightarrow>
           if \<not> truthy_field d ''host'' \<or> \<not> truthy_field d ''socket'' then Ok None
           else Ok (Some \<lparr>r_host = py_str (the (dict_get d ''host'')), r_socket = py_str (the (dict_get d ''socket'')),
                  r_local_socket = (if truthy_field d ''local_socket'' then py_str (the (dict_get d ''local_socket''))
                     else default_local_socket e)\<rparr>)
       | _ \<Rightarrow> Ok None)"

definition remote_config :: "pyenv \<Rightarrow> fs \<Rightarrow> remote option res" where
  "remote_config e s =
     (case bind_res (os_read (prefs_path e) s) json_loads_bytes of
        Err _ \<Rightarrow> Ok None
      | Ok prefs \<Rightarrow> remote_of_prefs e prefs)"

definition local_socket :: "pyenv \<Rightarrow> fs \<Rightarrow> string option res" where
  "local_socket e s = bind_res (remote_config e s) (\<lambda>r. Ok (map_option r_local_socket r))"

definition client_socket :: "pyenv \<Rightarrow> fs \<Rightarrow> string res" where
  "client_socket e s =
     (case environ e ''AIMLESS_SOCK'' of
        Some v \<Rightarrow> if v \<noteq> [] then Ok v
          else bind_res (remote_config e s) (\<lambda>r. Ok (case r of Some r \<Rightarrow> r_local_socket r | None \<Rightarrow> sock_path e))
      | None \<Rightarrow> bind_res (remote_config e s) (\<lambda>r. Ok (case r of Some r \<Rightarrow> r_local_socket r | None \<Rightarrow> sock_path e)))"

section \<open>The supervisor\<close>

definition is_our_ssh :: "host \<Rightarrow> int \<Rightarrow> string \<Rightarrow> bool" where
  "is_our_ssh h pid local_socket_path =
     (let parts = cmdline h pid
      in if parts = [] \<or> path_basename (hd parts) \<noteq> ''ssh'' then False
         else list_ex (\<lambda>p. sublist local_socket_path p) parts)"

record tunnel =
  t_remote :: remote
  t_child :: "int option"
  t_restarts :: nat
  t_last_error :: string
  t_last_ok :: int
  t_backoff_index :: nat

definition tunnel_init :: "remote \<Rightarrow> tunnel" where
  "tunnel_init r = \<lparr>t_remote = r, t_child = None, t_restarts = 0, t_last_error = [], t_last_ok = 0, t_backoff_index = 0\<rparr>"

definition ssh_argv :: "tunnel \<Rightarrow> string list" where
  "ssh_argv t = [''ssh'', ''-N''] @ SSH_OPTS @
     [''-L'', r_local_socket (t_remote t) @ '':'' @ r_socket (t_remote t), r_host (t_remote t)]"

definition pid_from_file :: "pyenv \<Rightarrow> host \<Rightarrow> int option" where
  "pid_from_file e h = read_pid_file (tunnel_pid_path e) h"

definition write_pid :: "pyenv \<Rightarrow> int \<Rightarrow> host \<Rightarrow> host" where
  "write_pid e pid h =
     h\<lparr>hfs := write_file (tunnel_pid_path e) (encode_utf8 (int_str pid))
        ((hfs h)\<lparr>dirs := makedirs 511 (run_dir e) (dirs (hfs h))\<rparr>)\<rparr>"

definition remove_pid :: "pyenv \<Rightarrow> host \<Rightarrow> host" where
  "remove_pid e h = h\<lparr>hfs := remove_file (tunnel_pid_path e) (hfs h)\<rparr>"

definition socket_present :: "tunnel \<Rightarrow> host \<Rightarrow> bool" where
  "socket_present t h = os_exists (r_local_socket (t_remote t)) (hfs h)"

definition is_running :: "pyenv \<Rightarrow> tunnel \<Rightarrow> host \<Rightarrow> bool" where
  "is_running e t h =
     (case t_child t of
        Some pid \<Rightarrow>
          if child_running pid h then socket_present t h
          else (case pid_from_file e h of None \<Rightarrow> False
                | Some q \<Rightarrow> q \<noteq> 0 \<and> pid_alive h q \<and> socket_present t h)
      | None \<Rightarrow>
          (case pid_from_file e h of None \<Rightarrow> False
           | Some q \<Rightarrow> q \<noteq> 0 \<and> pid_alive h q \<and> socket_present t h))"

text \<open>
  \<open>spawn\<close>: reap a replaced child, make the directories and the log file, start \<open>ssh\<close> and record
  its pid. \<open>fresh = None\<close> when \<open>Popen\<close> raises.
\<close>

definition spawn :: "pyenv \<Rightarrow> int option \<Rightarrow> proc \<Rightarrow> tunnel \<Rightarrow> host \<Rightarrow> int res \<times> tunnel \<times> host" where
  "spawn e fresh behaviour t h =
     (let h1 = (case t_child t of None \<Rightarrow> h | Some pid \<Rightarrow> snd (wait_child pid h));
          dir = path_dirname (r_local_socket (t_remote t));
          h2 = h1\<lparr>hfs := (hfs h1)\<lparr>dirs := makedirs 511 (logs_dir e)
                 (makedirs 448 (if dir = [] then ''.'' else dir) (dirs (hfs h1)))\<rparr>\<rparr>;
          h3 = h2\<lparr>hfs := append_file (tunnel_log_path e) [] (hfs h2)\<rparr>
      in case fresh of
           None \<Rightarrow> (Err (FileNotFoundError ''ssh''), t, h3)
         | Some pid \<Rightarrow>
             (Ok pid, t\<lparr>t_child := Some pid\<rparr>,
              write_pid e pid (h3\<lparr>procs := (procs h3)(pid \<mapsto> behaviour\<lparr>argv := ssh_argv t, zombie := False\<rparr>)\<rparr>)))"

text \<open>\<open>probe\<close>: a \<open>whoami\<close> through the tunnel; the answer or the exception is an argument.\<close>

definition probe :: "json res \<Rightarrow> int \<Rightarrow> tunnel \<Rightarrow> bool \<times> tunnel" where
  "probe answer now_time t =
     (case answer of
        Ok _ \<Rightarrow> (True, t\<lparr>t_last_ok := now_time, t_backoff_index := 0\<rparr>)
      | Err ex \<Rightarrow> (False, t\<lparr>t_last_error := exn_str ex\<rparr>))"

text \<open>
  The waiting loop: each observation is whether the child has exited and whether the socket
  exists at that poll; the list ends at the deadline.
\<close>

fun wait_for_socket :: "(bool \<times> bool) list \<Rightarrow> tunnel \<Rightarrow> bool \<times> tunnel" where
  "wait_for_socket [] t = (False, t\<lparr>t_last_error := ''tunnel socket did not appear''\<rparr>)"
| "wait_for_socket ((exited, present) # polls) t =
     (if t_child t \<noteq> None \<and> exited then (False, t\<lparr>t_last_error := ''ssh exited immediately''\<rparr>)
      else if present then (True, t)
      else wait_for_socket polls t)"

text \<open>
  \<open>_reap\<close>: an own child is waited for and killed if it does not end; another process is polled
  until the deadline, \<open>ended\<close> saying whether it is gone (or a zombie) by then.
\<close>

definition reap :: "int \<Rightarrow> tunnel \<Rightarrow> host \<Rightarrow> host" where
  "reap pid t h =
     (case t_child t of
        Some c \<Rightarrow>
          (case wait_child c h of
             (True, h1) \<Rightarrow> h1
           | (False, h1) \<Rightarrow> snd (wait_child c (os_kill pid SIGKILL h1)))
      | None \<Rightarrow> if pid_alive h pid then os_kill pid SIGKILL h else h)"

definition stop_tunnel :: "pyenv \<Rightarrow> tunnel \<Rightarrow> host \<Rightarrow> tunnel \<times> host" where
  "stop_tunnel e t h =
     (let pid = (case t_child t of Some c \<Rightarrow> Some c | None \<Rightarrow> pid_from_file e h);
          ours = (case t_child t of Some _ \<Rightarrow> True
                  | None \<Rightarrow> (case pid of None \<Rightarrow> False
                      | Some p \<Rightarrow> p \<noteq> 0 \<and> is_our_ssh h p (r_local_socket (t_remote t))));
          h1 = (case pid of None \<Rightarrow> h
                | Some p \<Rightarrow> if p \<noteq> 0 \<and> ours then reap p t (os_kill p SIGTERM h) else h);
          h2 = remove_pid e h1
      in (t\<lparr>t_child := None\<rparr>, h2\<lparr>hfs := remove_file (r_local_socket (t_remote t)) (hfs h2)\<rparr>))"

record restart_env =
  e_pid :: "int option"
  e_proc :: proc
  e_polls :: "(bool \<times> bool) list"
  e_socket :: fileobj

text \<open>
  The lines for the log are returned. When the wait sees the socket, the socket is there: it
  is put into the file system by the world.
\<close>

definition restart :: "pyenv \<Rightarrow> restart_env \<Rightarrow> tunnel \<Rightarrow> host \<Rightarrow> (bool \<times> string) res \<times> tunnel \<times> host" where
  "restart e env t h =
     (let (t1, h1) = stop_tunnel e t h;
          t2 = t1\<lparr>t_restarts := t_restarts t1 + 1\<rparr>
      in case spawn e (e_pid env) (e_proc env) t2 h1 of
           (Err ex, t3, h3) \<Rightarrow> (Err ex, t3, h3)
         | (Ok _, t3, h3) \<Rightarrow>
             (case wait_for_socket (e_polls env) t3 of
                (True, t4) \<Rightarrow>
                  (Ok (True, ''tunnel: up ('' @ r_host (t_remote t4) @ '')''), t4\<lparr>t_backoff_index := 0\<rparr>,
                   h3\<lparr>hfs := (hfs h3)\<lparr>files := (files (hfs h3))(r_local_socket (t_remote t4) \<mapsto> e_socket env)\<rparr>\<rparr>)
              | (False, t4) \<Rightarrow>
                  (Ok (False, ''tunnel: not up ('' @ r_host (t_remote t4) @ ''): '' @ t_last_error t4), t4, h3)))"

definition ensure :: "pyenv \<Rightarrow> restart_env \<Rightarrow> tunnel \<Rightarrow> host \<Rightarrow> bool res \<times> tunnel \<times> host" where
  "ensure e env t h =
     (if is_running e t h then (Ok True, t, h)
      else case restart e env t h of
             (Ok (up, _), t1, h1) \<Rightarrow> (Ok up, t1, h1)
           | (Err ex, t1, h1) \<Rightarrow> (Err ex, t1, h1))"

definition next_backoff :: "tunnel \<Rightarrow> nat \<times> tunnel" where
  "next_backoff t = (BACKOFF ! min (t_backoff_index t) (length BACKOFF - 1), t\<lparr>t_backoff_index := t_backoff_index t + 1\<rparr>)"

definition reset_backoff :: "tunnel \<Rightarrow> tunnel" where
  "reset_backoff t = t\<lparr>t_backoff_index := 0\<rparr>"

definition tunnel_state :: "pyenv \<Rightarrow> tunnel \<Rightarrow> host \<Rightarrow> (string, json) dict" where
  "tunnel_state e t h =
     [(''up'', JBool (is_running e t h)), (''host'', JStr (r_host (t_remote t))),
      (''remote_socket'', JStr (r_socket (t_remote t))), (''local_socket'', JStr (r_local_socket (t_remote t))),
      (''restarts'', JInt (int (t_restarts t))), (''last_error'', JStr (t_last_error t)),
      (''last_ok'', JInt (t_last_ok t))]"

section \<open>Stopping\<close>

text \<open>The process a stop may signal: the own child, or the recorded one if it is this tunnel's ssh.\<close>

definition stop_target :: "pyenv \<Rightarrow> tunnel \<Rightarrow> host \<Rightarrow> int option" where
  "stop_target e t h =
     (case t_child t of
        Some c \<Rightarrow> if c \<noteq> 0 then Some c else None
      | None \<Rightarrow> (case pid_from_file e h of None \<Rightarrow> None
          | Some p \<Rightarrow> if p \<noteq> 0 \<and> is_our_ssh h p (r_local_socket (t_remote t)) then Some p else None))"

lemma stop_tunnel_target:
  "stop_tunnel e t h =
     (let h1 = (case stop_target e t h of None \<Rightarrow> h | Some p \<Rightarrow> reap p t (os_kill p SIGTERM h));
          h2 = remove_pid e h1
      in (t\<lparr>t_child := None\<rparr>, h2\<lparr>hfs := remove_file (r_local_socket (t_remote t)) (hfs h2)\<rparr>))"
  by (simp add: stop_tunnel_def stop_target_def Let_def split: option.split)

lemma wait_child_sel:
  "signals (snd (wait_child c h)) = signals h" "hfs (snd (wait_child c h)) = hfs h"
  "q \<noteq> c \<Longrightarrow> procs (snd (wait_child c h)) q = procs h q"
  by (simp_all add: wait_child_def split: option.split)

lemma wait_child_dead: "fst (wait_child c h) \<Longrightarrow> \<not> pid_alive (snd (wait_child c h)) c"
  by (auto simp: wait_child_def pid_alive_iff split: option.splits if_splits)

lemma wait_child_keeps_dead: "\<not> pid_alive h c \<Longrightarrow> \<not> pid_alive (snd (wait_child c h)) c"
  by (auto simp: wait_child_def pid_alive_iff split: option.splits if_splits)

text \<open>Terminating and reaping one process: only it is signalled or changed, and it ends.\<close>

lemma reap_target:
  assumes "t_child t = None \<or> t_child t = Some p"
  shows "\<exists>sent. signals (reap p t (os_kill p SIGTERM h)) = signals h @ sent \<and> fst ` set sent \<subseteq> {p}"
    and "q \<noteq> p \<Longrightarrow> procs (reap p t (os_kill p SIGTERM h)) q = procs h q"
    and "\<not> pid_alive (reap p t (os_kill p SIGTERM h)) p"
proof -
  let ?h = "os_kill p SIGTERM h"
  consider (other) "t_child t = None" | (child) "t_child t = Some p" using assms by auto
  then have "(\<exists>sent. signals (reap p t ?h) = signals h @ sent \<and> fst ` set sent \<subseteq> {p}) \<and>
      (\<forall>q. q \<noteq> p \<longrightarrow> procs (reap p t ?h) q = procs h q) \<and> \<not> pid_alive (reap p t ?h) p"
  proof cases
    case other
    then show ?thesis
      by (auto simp: reap_def os_kill_signals os_kill_other sigkill_ends)
  next
    case child
    obtain ended h1 where w: "wait_child p ?h = (ended, h1)" by (cases "wait_child p ?h")
    have h1: "signals h1 = signals ?h" "\<And>q. q \<noteq> p \<Longrightarrow> procs h1 q = procs ?h q"
      using wait_child_sel [where c = p and h = ?h] w by simp_all
    show ?thesis
    proof (cases ended)
      case True
      with child w h1 wait_child_dead [of p ?h] show ?thesis
        by (auto simp: reap_def os_kill_signals os_kill_other)
    next
      case False
      with child w h1 show ?thesis
        by (auto simp: reap_def os_kill_signals os_kill_other wait_child_sel
            intro: wait_child_keeps_dead [OF sigkill_ends, THEN notE])
    qed
  qed
  then show "\<exists>sent. signals (reap p t ?h) = signals h @ sent \<and> fst ` set sent \<subseteq> {p}"
    and "q \<noteq> p \<Longrightarrow> procs (reap p t ?h) q = procs h q" and "\<not> pid_alive (reap p t ?h) p" by blast+
qed

lemma stop_target_child: "stop_target e t h = Some p \<Longrightarrow> t_child t = None \<or> t_child t = Some p"
  by (auto simp: stop_target_def split: option.splits if_splits)

section \<open>Retry delays\<close>

fun delays :: "nat \<Rightarrow> tunnel \<Rightarrow> nat list" where
  "delays 0 t = []"
| "delays (Suc n) t = (let (d, t1) = next_backoff t in d # delays n t1)"

lemma last_BACKOFF: "length BACKOFF - Suc 0 = 4"
  by (simp add: BACKOFF_def)

lemma delays_nth: "delays n t = map (\<lambda>i. BACKOFF ! min (t_backoff_index t + i) 4) [0..<n]"
proof (induction n arbitrary: t)
  case (Suc n)
  have "[0..<Suc n] = 0 # map Suc [0..<n]" by (simp add: map_Suc_upt upt_conv_Cons del: upt_Suc)
  then show ?case by (simp add: next_backoff_def last_BACKOFF Suc.IH comp_def del: upt_Suc)
qed simp

lemma stop_tunnel_effect:
  assumes "stop_tunnel e t h = (t', h')"
  shows "\<exists>sent. signals h' = signals h @ sent \<and> fst ` set sent \<subseteq> set_option (stop_target e t h)"
    and "if stop_target e t h = Some q then \<not> pid_alive h' q else procs h' q = procs h q"
    and "t' = t\<lparr>t_child := None\<rparr>" and "files (hfs h') (tunnel_pid_path e) = None"
    and "files (hfs h') (r_local_socket (t_remote t)) = None"
proof -
  let ?h1 = "case stop_target e t h of None \<Rightarrow> h | Some p \<Rightarrow> reap p t (os_kill p SIGTERM h)"
  from assms show h': "t' = t\<lparr>t_child := None\<rparr>"
    "files (hfs h') (tunnel_pid_path e) = None" "files (hfs h') (r_local_socket (t_remote t)) = None"
    by (auto simp: stop_tunnel_target Let_def remove_pid_def remove_file_def)
  from assms have host: "signals h' = signals ?h1" "procs h' = procs ?h1"
    by (auto simp: stop_tunnel_target Let_def remove_pid_def remove_file_def)
  have alive: "pid_alive h' q = pid_alive ?h1 q" for q by (simp add: pid_alive_iff host(2))
  have "(\<exists>sent. signals h' = signals h @ sent \<and> fst ` set sent \<subseteq> set_option (stop_target e t h)) \<and>
    (if stop_target e t h = Some q then \<not> pid_alive h' q else procs h' q = procs h q)"
  proof (cases "stop_target e t h")
    case (Some p)
    note target = reap_target [OF stop_target_child [OF Some], where h = h]
    show ?thesis using target(1,3) target(2) [where q = q] by (auto simp: Some alive host)
  qed (simp add: host)
  then show "\<exists>sent. signals h' = signals h @ sent \<and> fst ` set sent \<subseteq> set_option (stop_target e t h)"
    and "if stop_target e t h = Some q then \<not> pid_alive h' q else procs h' q = procs h q" by blast+
qed

lemma wait_for_socket_True: "wait_for_socket polls t = (True, t') \<Longrightarrow> t' = t"
  by (induction polls t rule: wait_for_socket.induct) (auto split: if_splits)

lemma BACKOFF_nth:
  "BACKOFF ! min i 4 = (if i = 0 then 2 else if i = 1 then 4 else if i = 2 then 8 else if i = 3 then 15 else 30)"
proof -
  consider "i = 0" | "i = 1" | "i = 2" | "i = 3" | "4 \<le> i" by linarith
  then show ?thesis by cases (auto simp: BACKOFF_def min_def)
qed

lemma fixed_delays_nth:
  "i < n \<Longrightarrow> take n ([2, 4, 8, 15] @ replicate n 30) ! i =
    (if i = 0 then 2 else if i = 1 then 4 else if i = 2 then 8 else if i = 3 then 15 else (30 :: nat))"
proof -
  assume "i < n"
  consider "i = 0" | "i = 1" | "i = 2" | "i = 3" | "4 \<le> i" by linarith
  with \<open>i < n\<close> show ?thesis by cases (auto simp: nth_append)
qed

section \<open>Properties\<close>

text \<open>
  C29: stopping the tunnel signals no process but the supervisor's own child or, without one, the
  recorded process when it is an \<open>ssh\<close> for this socket; that process is no longer alive
  afterwards, every other process is untouched, and the pid file and the socket are gone.
\<close>

theorem stop_only_our_ssh:
  assumes "stop_tunnel e t h = (t', h')"
  shows "(\<exists>sent. signals h' = signals h @ sent \<and> fst ` set sent \<subseteq> set_option (stop_target e t h)) \<and>
    list_all (\<lambda>q. if stop_target e t h = Some q then \<not> pid_alive h' q else procs h' q = procs h q) qs \<and>
    t_child t' = None \<and> files (hfs h') (tunnel_pid_path e) = None \<and>
    files (hfs h') (r_local_socket (t_remote t)) = None"
  using stop_tunnel_effect [OF assms] by (simp add: list_all_iff)

theorem stop_only_our_ssh_witness:
  "\<exists>t' h'. stop_tunnel \<lparr>environ = Map.empty, home_dir = ''/h''\<rparr>
      (tunnel_init \<lparr>r_host = ''u'', r_socket = ''/s'', r_local_socket = ''/l''\<rparr>)
      \<lparr>procs = [7 \<mapsto> \<lparr>argv = [''sh''], zombie = False, dies_on_term = True\<rparr>], signals = [],
       hfs = \<lparr>files = Map.empty, dirs = Map.empty\<rparr>\<rparr> = (t', h') \<and> signals h' = []"
proof -
  let ?e = "\<lparr>environ = Map.empty, home_dir = ''/h''\<rparr> :: pyenv"
  let ?t = "tunnel_init \<lparr>r_host = ''u'', r_socket = ''/s'', r_local_socket = ''/l''\<rparr>"
  let ?h = "\<lparr>procs = [7 \<mapsto> \<lparr>argv = [''sh''], zombie = False, dies_on_term = True\<rparr>], signals = [],
       hfs = \<lparr>files = Map.empty, dirs = Map.empty\<rparr>\<rparr> :: host"
  obtain t' h' where run: "stop_tunnel ?e ?t ?h = (t', h')" by fastforce
  have "stop_target ?e ?t ?h = None"
    by (simp add: stop_target_def tunnel_init_def pid_from_file_def read_pid_file_def os_read_def)
  with stop_only_our_ssh [OF run, of "[]"] run show ?thesis by simp
qed

text \<open>
  C30: after a reset the delays before the restarts of the tunnel are 2, 4, 8 and 15 seconds and
  30 from then on; whatever the state, a delay is between 2 and 30 seconds and the delays never
  get shorter until the next reset.
\<close>

theorem backoff_delays:
  "delays n (reset_backoff t) = take n ([2, 4, 8, 15] @ replicate n 30) \<and>
   sorted (delays n t) \<and> list_all (\<lambda>d. 2 \<le> d \<and> d \<le> 30) (delays n t)"
proof -
  have "delays n (reset_backoff t) = take n ([2, 4, 8, 15] @ replicate n 30)"
  proof (rule nth_equalityI)
    fix i assume "i < length (delays n (reset_backoff t))"
    then have "i < n" by (simp add: delays_nth)
    then show "delays n (reset_backoff t) ! i = take n ([2, 4, 8, 15] @ replicate n 30) ! i"
      unfolding fixed_delays_nth [OF \<open>i < n\<close>] by (simp add: delays_nth reset_backoff_def BACKOFF_nth)
  qed (simp add: delays_nth)
  moreover have "sorted (delays n t)"
    by (auto simp: delays_nth sorted_iff_nth_mono BACKOFF_nth)
  moreover have "list_all (\<lambda>d. 2 \<le> d \<and> d \<le> 30) (delays n t)"
    by (auto simp: delays_nth list_all_iff BACKOFF_nth)
  ultimately show ?thesis by simp
qed

text \<open>
  ensuring the tunnel is idempotent: once it reports the tunnel up, a further call signals and
  starts nothing; and a restart counts itself, records the new child and leaves an old child dead.
\<close>

theorem ensure_idempotent:
  assumes "ensure e env t h = (Ok True, t', h')" and "pid_of_new = e_pid env"
    and "case t_child t of Some c \<Rightarrow> pid_of_new \<noteq> Some c | None \<Rightarrow> True"
  shows "ensure e env2 t' h' = (Ok True, t', h') \<and>
    (is_running e t h \<or> (t_restarts t' = t_restarts t + 1 \<and> t_child t' = e_pid env \<and> t_child t' \<noteq> None \<and>
       (case t_child t of Some c \<Rightarrow> c = 0 \<or> \<not> pid_alive h' c | None \<Rightarrow> True)))"
proof (cases "is_running e t h")
  case False
  obtain t1 h1 where stop: "stop_tunnel e t h = (t1, h1)" by fastforce
  let ?t2 = "t1\<lparr>t_restarts := t_restarts t1 + 1\<rparr>"
  from assms(1) False stop obtain pid t3 h3 t4 where
      sp: "spawn e (e_pid env) (e_proc env) ?t2 h1 = (Ok pid, t3, h3)"
    and wait: "wait_for_socket (e_polls env) t3 = (True, t4)"
    and t': "t' = t4\<lparr>t_backoff_index := 0\<rparr>"
    and h': "h' = h3\<lparr>hfs := (hfs h3)\<lparr>files := (files (hfs h3))(r_local_socket (t_remote t4) \<mapsto> e_socket env)\<rparr>\<rparr>"
    by (auto simp: ensure_def restart_def Let_def split: prod.splits res.splits bool.splits)
  have t1: "t1 = t\<lparr>t_child := None\<rparr>" using stop by (auto simp: stop_tunnel_def Let_def)
  from sp have pid: "e_pid env = Some pid" "t3 = ?t2\<lparr>t_child := Some pid\<rparr>"
    "procs h3 = (procs h1)(pid \<mapsto> (e_proc env)\<lparr>argv := ssh_argv ?t2, zombie := False\<rparr>)"
    by (auto simp: spawn_def Let_def t1 write_pid_def split: option.splits)
  have "t4 = t3" by (rule wait_for_socket_True [OF wait])
  have alive: "pid_alive h' pid" by (simp add: pid_alive_iff h' pid)
  have up: "is_running e t' h'"
    using alive by (simp add: is_running_def t' \<open>t4 = t3\<close> pid(2) child_running_def socket_present_def os_exists_def h' t1)
  have "c = 0 \<or> \<not> pid_alive h' c" if "t_child t = Some c" for c
  proof -
    have "c = 0 \<or> \<not> pid_alive h1 c"
      using stop_tunnel_effect(2) [OF stop, of c] that by (auto simp: stop_target_def split: if_splits)
    moreover have "c \<noteq> pid" using assms(2,3) that pid(1) by simp
    ultimately show ?thesis by (auto simp: pid_alive_iff h' pid(3))
  qed
  moreover have "t_restarts t' = t_restarts t + 1" "t_child t' = e_pid env" "t_child t' \<noteq> None"
    by (simp_all add: t' \<open>t4 = t3\<close> pid t1)
  ultimately show ?thesis using up by (simp add: ensure_def split: option.split)
qed (use assms in \<open>auto simp: ensure_def\<close>)

theorem ensure_idempotent_witness:
  "\<exists>t' h'. ensure \<lparr>environ = Map.empty, home_dir = ''/h''\<rparr>
      \<lparr>e_pid = Some 9, e_proc = \<lparr>argv = [], zombie = False, dies_on_term = True\<rparr>, e_polls = [(False, False), (False, True)],
       e_socket = \<lparr>fmode = 384, fdata = []\<rparr>\<rparr>
      (tunnel_init \<lparr>r_host = ''u'', r_socket = ''/s'', r_local_socket = ''/l''\<rparr>)
      \<lparr>procs = Map.empty, signals = [], hfs = \<lparr>files = Map.empty, dirs = Map.empty\<rparr>\<rparr> = (Ok True, t', h') \<and> t_restarts t' = 1"
proof -
  let ?e = "\<lparr>environ = Map.empty, home_dir = ''/h''\<rparr> :: pyenv"
  let ?env = "\<lparr>e_pid = Some 9, e_proc = \<lparr>argv = [], zombie = False, dies_on_term = True\<rparr>, e_polls = [(False, False), (False, True)],
       e_socket = \<lparr>fmode = 384, fdata = []\<rparr>\<rparr> :: restart_env"
  let ?t = "tunnel_init \<lparr>r_host = ''u'', r_socket = ''/s'', r_local_socket = ''/l''\<rparr>"
  let ?h = "\<lparr>procs = Map.empty, signals = [], hfs = \<lparr>files = Map.empty, dirs = Map.empty\<rparr>\<rparr> :: host"
  have down: "\<not> is_running ?e ?t ?h"
    by (simp add: is_running_def tunnel_init_def pid_from_file_def read_pid_file_def os_read_def)
  have "\<exists>t' h' m. restart ?e ?env ?t ?h = (Ok (True, m), t', h')"
    by (simp add: restart_def stop_tunnel_def tunnel_init_def pid_from_file_def read_pid_file_def
        os_read_def spawn_def Let_def)
  then obtain t' h' where run: "ensure ?e ?env ?t ?h = (Ok True, t', h')"
    using down by (auto simp: ensure_def simp del: not_None_eq)
  have "t_child ?t = None" "t_restarts ?t = 0" by (simp_all add: tunnel_init_def)
  with ensure_idempotent [OF run refl] down run show ?thesis by auto
qed

text \<open>
  the socket the client connects to is the override of the environment when it is set, else
  the local end of the tunnel when the preferences name a remote, else the local daemon's.
\<close>

theorem client_socket_precedence:
  "client_socket e s =
     (if environ e ''AIMLESS_SOCK'' \<noteq> None \<and> environ e ''AIMLESS_SOCK'' \<noteq> Some [] then Ok (the (environ e ''AIMLESS_SOCK''))
      else case remote_config e s of
        Err ex \<Rightarrow> Err ex
      | Ok None \<Rightarrow> Ok (path_join (daemon_dir e) ''api.sock'')
      | Ok (Some r) \<Rightarrow> Ok (r_local_socket r))"
  by (auto simp: client_socket_def sock_path_def env_or_def split: option.split res.split)
end
