(* ===== verification/Supervisor.thy ===== *)
theory Supervisor
  imports Tunnel Client Service
begin

text \<open>
  The supervisor of the daemon in \<open>client/aimless/gtkui.py\<close>: finding the binary, starting and
  stopping \<open>aimlessd\<close> (or the tunnel to a remote one), the single-instance lock, the autostart
  entry and \<open>aimless stop\<close>.

  Which process listens on which socket, and what it answers, is the record \<open>daemons\<close>: a
  connect succeeds while the listener is alive. What the polls of a starting daemon observe is an
  argument, as in the tunnel. Lines written to the log are left out.
\<close>

section \<open>Paths and programs\<close>

text \<open>\<open>os.path.normpath\<close> and \<open>os.path.abspath\<close> of POSIX paths.\<close>

fun norm_parts :: "bool \<Rightarrow> string list \<Rightarrow> string list \<Rightarrow> string list" where
  "norm_parts absolute acc [] = rev acc"
| "norm_parts absolute acc (p # ps) =
     (if p = [] \<or> p = ''.'' then norm_parts absolute acc ps
      else if p \<noteq> ''..'' \<or> (\<not> absolute \<and> acc = []) \<or> (acc \<noteq> [] \<and> hd acc = ''..'') then norm_parts absolute (p # acc) ps
      else norm_parts absolute (tl acc) ps)"

definition normpath :: "string \<Rightarrow> string" where
  "normpath p =
     (let slashes = length (takeWhile (\<lambda>c. c = CHR ''/'') p);
          initial = (if slashes = 0 then [] else if slashes = 2 then ''//'' else ''/'');
          r = initial @ py_join ''/'' (norm_parts (initial \<noteq> []) [] (py_split (CHR ''/'') p))
      in if r = [] then ''.'' else r)"

definition abspath :: "string \<Rightarrow> string \<Rightarrow> string" where
  "abspath cwd p = normpath (if prefix ''/'' p then p else path_join cwd p)"

text \<open>What the process was started with: \<open>sys.argv[0]\<close>, the directory, \<open>PATH\<close>, the interpreter.\<close>

record invocation =
  argv0 :: string
  getcwd :: string
  which :: "string \<rightharpoonup> string"
  executable :: string
  self_pid :: int

definition program_dirs :: "pyenv \<Rightarrow> invocation \<Rightarrow> string list" where
  "program_dirs e iv = [path_dirname (abspath (getcwd iv) (argv0 iv)), getcwd iv, expanduser e ''/.local/bin'']"

fun find_in_dirs :: "string list \<Rightarrow> string list \<Rightarrow> string list \<Rightarrow> fs \<Rightarrow> string option" where
  "find_in_dirs names seen [] s = None"
| "find_in_dirs names seen (d # ds) s =
     (if d = [] \<or> d \<in> set seen then find_in_dirs names seen ds s
      else case find (\<lambda>p. os_exists p s) (map (path_join d) names) of
             Some p \<Rightarrow> Some p
           | None \<Rightarrow> find_in_dirs names (d # seen) ds s)"

definition daemon_binary :: "pyenv \<Rightarrow> invocation \<Rightarrow> fs \<Rightarrow> string option" where
  "daemon_binary e iv s =
     (case find_in_dirs [''aimlessd'', ''aimlessd-linux-amd64''] [] (program_dirs e iv) s of
        Some p \<Rightarrow> Some p
      | None \<Rightarrow> which iv ''aimlessd'')"

section \<open>Daemons on sockets\<close>

record daemons =
  listener :: "string \<rightharpoonup> int"
  answers :: "int \<Rightarrow> string \<Rightarrow> json res"

definition connects :: "daemons \<Rightarrow> string \<Rightarrow> host \<Rightarrow> bool" where
  "connects D path h = (case listener D path of None \<Rightarrow> False | Some p \<Rightarrow> pid_alive h p)"

text \<open>A new connection and one request on it.\<close>

definition ask_daemon :: "daemons \<Rightarrow> string \<Rightarrow> string \<Rightarrow> host \<Rightarrow> json res" where
  "ask_daemon D path op h =
     (case listener D path of
        None \<Rightarrow> Err (OSError ''connect'')
      | Some p \<Rightarrow> if pid_alive h p then answers D p op else Err (OSError ''connect''))"

record supervisor =
  sup_remote :: "remote option"
  sup_tunnel :: "tunnel option"
  sup_datadir :: "string option"
  sup_sock :: string
  sup_child :: "int option"

definition external :: "supervisor \<Rightarrow> bool" where
  "external s = (sup_remote s \<noteq> None)"

definition supervisor_init :: "pyenv \<Rightarrow> fs \<Rightarrow> supervisor res" where
  "supervisor_init e s =
     bind_res (remote_config e s) (\<lambda>r.
     bind_res (client_socket e s) (\<lambda>path.
       Ok \<lparr>sup_remote = r, sup_tunnel = map_option tunnel_init r,
           sup_datadir = (if r = None then Some (daemon_dir e) else None), sup_sock = path, sup_child = None\<rparr>))"

definition sup_is_running :: "daemons \<Rightarrow> supervisor \<Rightarrow> host \<Rightarrow> bool" where
  "sup_is_running D s h = connects D (sup_sock s) h"

definition reachable :: "daemons \<Rightarrow> supervisor \<Rightarrow> host \<Rightarrow> bool" where
  "reachable D s h = is_ok (ask_daemon D (sup_sock s) ''whoami'' h)"

definition local_daemon_running :: "pyenv \<Rightarrow> invocation \<Rightarrow> daemons \<Rightarrow> supervisor \<Rightarrow> host \<Rightarrow> bool" where
  "local_daemon_running e iv D s h =
     (let path = path_join (daemon_dir e) ''api.sock''
      in if abspath (getcwd iv) path = abspath (getcwd iv) (sup_sock s) then False else connects D path h)"

definition sup_tunnel_state :: "pyenv \<Rightarrow> supervisor \<Rightarrow> host \<Rightarrow> (string, json) dict option" where
  "sup_tunnel_state e s h = map_option (\<lambda>t. tunnel_state e t h) (sup_tunnel s)"

text \<open>The status the window shows; whatever fails, there is none.\<close>

definition sup_status :: "daemons \<Rightarrow> supervisor \<Rightarrow> host \<Rightarrow> (string, json) dict option" where
  "sup_status D s h =
     (case
        bind_res (ask_daemon D (sup_sock s) ''whoami'' h) (\<lambda>who.
        bind_res (ask_daemon D (sup_sock s) ''status'' h) (\<lambda>st.
        bind_res (get_default st ''peers'' (JArr [])) (\<lambda>peers.
        bind_res (get_default who ''address'' (JStr [])) (\<lambda>address.
        bind_res (get_default who ''key'' (JStr [])) (\<lambda>pubkey.
        bind_res (json_iter peers) (\<lambda>ps.
        bind_res (traverse_res (\<lambda>p. json_get p ''up'') ps) (\<lambda>ups.
        bind_res (get_default st ''build'' (JStr [])) (\<lambda>build.
        bind_res (get_default st ''mtu'' (JInt 0)) (\<lambda>mtu.
          Ok [(''address'', address), (''pubkey'', pubkey),
              (''peers_up'', JInt (int (length (filter (\<lambda>u. case u of Some v \<Rightarrow> json_truthy v | None \<Rightarrow> False) ups)))),
              (''peers_total'', JInt (int (length ps))), (''build'', build), (''mtu'', mtu)])))))))))
      of Ok d \<Rightarrow> Some d | Err _ \<Rightarrow> None)"

section \<open>Starting\<close>

record sup_env =
  se_tunnel :: restart_env
  se_pid :: "int option"
  se_proc :: proc
  se_polls :: "(bool \<times> bool) list"
  se_reach :: "bool list"

definition daemon_argv :: "string \<Rightarrow> string \<Rightarrow> string \<Rightarrow> string list" where
  "daemon_argv binary datadir path = [binary, ''-datadir'', datadir, ''-api'', path]"

definition sup_spawn ::
  "pyenv \<Rightarrow> invocation \<Rightarrow> sup_env \<Rightarrow> supervisor \<Rightarrow> host \<Rightarrow> int res \<times> supervisor \<times> host" where
  "sup_spawn e iv env s h =
     (if external s then (Err (RuntimeError ''external daemon mode - not spawning a local aimlessd''), s, h)
      else
        case daemon_binary e iv (hfs h) of
          None \<Rightarrow> (Err (RuntimeError ''aimlessd not found - put aimlessd-linux-amd64 (or aimlessd) next to aimless.pyz, or add it to PATH''), s, h)
        | Some binary \<Rightarrow>
            let datadir = (case sup_datadir s of Some d \<Rightarrow> d | None \<Rightarrow> []);
                h1 = h\<lparr>hfs := append_file (daemon_log_path e) []
                   ((hfs h)\<lparr>dirs := makedirs 511 (logs_dir e) (makedirs 511 datadir (dirs (hfs h)))\<rparr>)\<rparr>
            in case se_pid env of
                 None \<Rightarrow> (Err (OSError binary), s, h1)
               | Some pid \<Rightarrow>
                   (Ok pid, s\<lparr>sup_child := Some pid\<rparr>,
                    h1\<lparr>procs := (procs h1)(pid \<mapsto> (se_proc env)\<lparr>argv := daemon_argv binary datadir (sup_sock s), zombie := False\<rparr>),
                       hfs := write_file (daemon_pid_path e) (encode_utf8 (int_str pid))
                         ((hfs h1)\<lparr>dirs := makedirs 511 (run_dir e) (dirs (hfs h1))\<rparr>)\<rparr>))"

text \<open>
  The loop of \<open>ensure\<close> after a spawn: an observation is whether a connect succeeds and whether the
  child has exited; the list ends at the deadline. The loop for the remote daemon is a list of
  handshakes.
\<close>

fun wait_for_daemon :: "pyenv \<Rightarrow> (bool \<times> bool) list \<Rightarrow> supervisor \<Rightarrow> bool res" where
  "wait_for_daemon e [] s = Err (RuntimeError ''daemon did not come up within 20s'')"
| "wait_for_daemon e ((running, exited) # polls) s =
     (if running then Ok True
      else if sup_child s \<noteq> None \<and> exited
      then Err (RuntimeError (''aimlessd exited immediately (check '' @ root e @ '')''))
      else wait_for_daemon e polls s)"

definition wait_for_remote :: "bool list \<Rightarrow> tunnel \<Rightarrow> bool res" where
  "wait_for_remote polls t =
     (if True \<in> set polls then Ok True
      else Err (RuntimeError (''remote daemon not reachable through the tunnel ('' @ r_host (t_remote t) @ '')'')))"

definition sup_ensure ::
  "pyenv \<Rightarrow> invocation \<Rightarrow> daemons \<Rightarrow> sup_env \<Rightarrow> supervisor \<Rightarrow> host \<Rightarrow> bool res \<times> supervisor \<times> host" where
  "sup_ensure e iv D env s h =
     (if external s then
        if local_daemon_running e iv D s h
        then (Err (RuntimeError (''a local aimlessd is running at '' @ path_join (daemon_dir e) ''api.sock'' @
                '' - run `aimless stop` before using the remote daemon'')), s, h)
        else
          case sup_tunnel s of
            None \<Rightarrow> (Err (AttributeError ''ensure''), s, h)
          | Some t \<Rightarrow>
              (case ensure e (se_tunnel env) t h of
                 (Err ex, t1, h1) \<Rightarrow> (Err ex, s\<lparr>sup_tunnel := Some t1\<rparr>, h1)
               | (Ok up, t1, h1) \<Rightarrow>
                   (if up then wait_for_remote (se_reach env) t1
                    else Err (RuntimeError (''could not start the SSH tunnel to '' @ r_host (t_remote t1) @
                           (if t_last_error t1 \<noteq> [] then '' ('' @ t_last_error t1 @ '')'' else []))),
                    s\<lparr>sup_tunnel := Some t1\<rparr>, h1))
      else if sup_is_running D s h then (Ok True, s, h)
      else
        case sup_spawn e iv env s h of
          (Err ex, s1, h1) \<Rightarrow> (Err ex, s1, h1)
        | (Ok _, s1, h1) \<Rightarrow> (wait_for_daemon e (se_polls env) s1, s1, h1))"

section \<open>Stopping\<close>

text \<open>\<open>int(who.get("pid", 0)) or None\<close>; whatever fails, there is no pid.\<close>

fun int_of_json :: "json \<Rightarrow> int option" where
  "int_of_json (JInt i) = Some i"
| "int_of_json (JBool b) = Some (if b then 1 else 0)"
| "int_of_json (JStr s) = py_int s"
| "int_of_json (JFloat s) = py_int (takeWhile (\<lambda>c. c \<noteq> CHR ''.'') s)"
| "int_of_json _ = None"

definition daemon_pid_from_socket :: "daemons \<Rightarrow> string \<Rightarrow> host \<Rightarrow> int option" where
  "daemon_pid_from_socket D path h =
     (case bind_res (ask_daemon D path ''whoami'' h) (\<lambda>who. get_default who ''pid'' (JInt 0)) of
        Err _ \<Rightarrow> None
      | Ok v \<Rightarrow> (case int_of_json v of None \<Rightarrow> None | Some pid \<Rightarrow> if pid = 0 then None else Some pid))"

text \<open>The first process of \<open>/proc\<close> that is an \<open>aimlessd\<close> on our data directory.\<close>

definition our_daemon :: "pyenv \<Rightarrow> host \<Rightarrow> int \<Rightarrow> bool" where
  "our_daemon e h pid =
     (let parts = cmdline h pid
      in parts \<noteq> [] \<and> prefix ''aimlessd'' (path_basename (hd parts)) \<and>
         (if ''-datadir'' \<in> set parts then daemon_dir e \<in> set parts
          else daemon_dir e = expanduser e ''/.local/share/aimless/daemon''))"

definition daemon_pid_from_procs :: "pyenv \<Rightarrow> int list \<Rightarrow> host \<Rightarrow> int option" where
  "daemon_pid_from_procs e pids h = find (our_daemon e h) pids"

definition stop_pid :: "pyenv \<Rightarrow> daemons \<Rightarrow> int list \<Rightarrow> supervisor \<Rightarrow> host \<Rightarrow> int option" where
  "stop_pid e D pids s h =
     (case daemon_pid_from_socket D (sup_sock s) h of
        Some p \<Rightarrow> Some p
      | None \<Rightarrow>
          (case read_pid_file (daemon_pid_path e) h of
             Some p \<Rightarrow> Some p
           | None \<Rightarrow>
               (case sup_child s of
                  Some p \<Rightarrow> Some p
                | None \<Rightarrow> daemon_pid_from_procs e pids h)))"

text \<open>\<open>SIGTERM\<close>, five seconds for the socket to close, then \<open>SIGKILL\<close>.\<close>

definition sup_stop ::
  "pyenv \<Rightarrow> daemons \<Rightarrow> int list \<Rightarrow> supervisor \<Rightarrow> host \<Rightarrow> supervisor \<times> host" where
  "sup_stop e D pids s h =
     (if external s then
        (case sup_tunnel s of
           None \<Rightarrow> (s, h)
         | Some t \<Rightarrow> let (t1, h1) = stop_tunnel e t h in (s\<lparr>sup_tunnel := Some t1\<rparr>, h1))
      else
        let pid = stop_pid e D pids s h;
            h1 = (case pid of None \<Rightarrow> h | Some p \<Rightarrow> if p \<noteq> 0 then os_kill p SIGTERM h else h);
            stopped = (\<not> sup_is_running D s h1);
            h2 = (case pid of None \<Rightarrow> h1 | Some p \<Rightarrow> if \<not> stopped \<and> p \<noteq> 0 then os_kill p SIGKILL h1 else h1)
        in (s, h2\<lparr>hfs := remove_file (daemon_pid_path e) (hfs h2)\<rparr>))"

text \<open>
  \<open>restart_daemon\<close>: exceptions of either half are ignored, the waits between them have no effect
  of their own.
\<close>

definition restart_daemon ::
  "pyenv \<Rightarrow> invocation \<Rightarrow> daemons \<Rightarrow> sup_env \<Rightarrow> int list \<Rightarrow> supervisor \<Rightarrow> host \<Rightarrow> supervisor \<times> host" where
  "restart_daemon e iv D env pids s h =
     (let (s1, h1) = sup_stop e D pids s h in snd (sup_ensure e iv D env s1 h1))"

section \<open>The application's lock, the autostart entry and \<open>aimless stop\<close>\<close>

text \<open>
  \<open>acquire_app_lock\<close>: \<open>openable\<close> is whether the pid file can be opened, \<open>locked\<close> whether another
  process holds its lock. The result is whether the lock was taken and otherwise the holder.
\<close>

definition acquire_app_lock ::
  "pyenv \<Rightarrow> invocation \<Rightarrow> bool \<Rightarrow> bool \<Rightarrow> host \<Rightarrow> (bool \<times> int option) \<times> host" where
  "acquire_app_lock e iv openable locked h =
     (let h1 = h\<lparr>hfs := (hfs h)\<lparr>dirs := makedirs 511 (run_dir e) (dirs (hfs h))\<rparr>\<rparr>
      in if \<not> openable then ((False, Some (- 1)), h1)
         else
           let h2 = h1\<lparr>hfs := append_file (app_pid_path e) [] (hfs h1)\<rparr>
           in if locked
              then ((False, Some (case read_pid_file (app_pid_path e) h2 of None \<Rightarrow> - 1 | Some p \<Rightarrow> if p = 0 then - 1 else p)), h2)
              else ((True, None), h2\<lparr>hfs := write_file (app_pid_path e) (encode_utf8 (int_str (self_pid iv))) (hfs h2)\<rparr>))"

definition autostart_exec :: "pyenv \<Rightarrow> invocation \<Rightarrow> fs \<Rightarrow> string option" where
  "autostart_exec e iv s =
     (let aimless_bin = (case which iv ''aimless'' of Some p \<Rightarrow> if p = [] then expanduser e ''/.local/bin/aimless'' else p
                         | None \<Rightarrow> expanduser e ''/.local/bin/aimless'')
      in if os_exists aimless_bin s then Some (aimless_bin @ '' tray'')
         else map_option (\<lambda>pyz. executable iv @ '' '' @ pyz @ '' tray'')
                (find (\<lambda>p. os_exists p s) (map (\<lambda>d. path_join d ''aimless.pyz'') (program_dirs e iv))))"

definition desktop_entry :: "string \<Rightarrow> string list" where
  "desktop_entry exec_line =
     [''[Desktop Entry]'', ''Type=Application'', ''Name=AIMless'',
      ''Comment=AIMless tray + daemon - messages are received in the background'',
      ''Exec='' @ exec_line, ''Icon=user-available'', ''Categories=Network;InstantMessaging;'',
      ''X-GNOME-Autostart-enabled=true'', ''X-XFCE-Autostart-Override=true'', ''Hidden=false'']"

definition install_autostart :: "pyenv \<Rightarrow> invocation \<Rightarrow> fs \<Rightarrow> string option \<times> fs" where
  "install_autostart e iv s =
     (case autostart_exec e iv s of
        None \<Rightarrow> (None, s)
      | Some exec_line \<Rightarrow>
          (Some (autostart_path e),
           write_file (autostart_path e) (encode_utf8 (concat (map (\<lambda>l. l @ [CHR 0x0A]) (desktop_entry exec_line))))
             (s\<lparr>dirs := makedirs 511 (path_dirname (autostart_path e)) (dirs s)\<rparr>)))"

text \<open>
  \<open>pkill\<close>: a \<open>SIGTERM\<close> to every process that matches. With \<open>-x\<close> the name has to be equal, with
  \<open>-f\<close> the pattern, in which a dot stands for any character, has to occur in the command line.
\<close>

fun dot_prefix :: "string \<Rightarrow> string \<Rightarrow> bool" where
  "dot_prefix [] s = True"
| "dot_prefix (p # ps) [] = False"
| "dot_prefix (p # ps) (c # s) = ((p = CHR ''.'' \<or> p = c) \<and> dot_prefix ps s)"

definition pkill :: "(proc \<Rightarrow> bool) \<Rightarrow> int list \<Rightarrow> host \<Rightarrow> host" where
  "pkill match pids h =
     fold (\<lambda>p h. case procs h p of Some q \<Rightarrow> if match q then os_kill p SIGTERM h else h | None \<Rightarrow> h) pids h"

definition exact_name :: "string \<Rightarrow> proc \<Rightarrow> bool" where
  "exact_name name p = (argv p \<noteq> [] \<and> path_basename (hd (argv p)) = name)"

definition full_match :: "string \<Rightarrow> proc \<Rightarrow> bool" where
  "full_match pat p = list_ex (dot_prefix pat) (suffixes (py_join '' '' (argv p)))"

text \<open>Ask one recorded process to end: its pid is reported when the signal could be sent.\<close>

definition stop_recorded :: "string \<Rightarrow> (int \<Rightarrow> bool) \<Rightarrow> string \<Rightarrow> host \<Rightarrow> string list \<times> host" where
  "stop_recorded path eligible label h =
     (case read_pid_file path h of
        None \<Rightarrow> ([], h)
      | Some pid \<Rightarrow>
          if pid \<noteq> 0 \<and> eligible pid \<and> pid_exists h pid
          then ([label @ '' (pid '' @ int_str pid @ '')''], os_kill pid SIGTERM h) else ([], h))"

definition stop_all :: "pyenv \<Rightarrow> invocation \<Rightarrow> daemons \<Rightarrow> int list \<Rightarrow> host \<Rightarrow> string list res \<times> host" where
  "stop_all e iv D pids h =
     (let app = read_pid_file (app_pid_path e) h;
          (out1, h1) = stop_recorded (app_pid_path e) (\<lambda>p. p \<noteq> self_pid iv) ''app'' h;
          (out2, h2) = stop_recorded (path_join (run_dir e) ''tray.pid'') (\<lambda>p. Some p \<noteq> app) ''tray supervisor'' h1;
          h3 = h2\<lparr>hfs := fold (\<lambda>n. remove_file (path_join (run_dir e) n)) [''tray.pid'', ''gui.pid'', ''session.json''] (hfs h2)\<rparr>;
          cli = (\<lambda>h. pkill (full_match ''aimless.cli tray'') pids (pkill (full_match ''aimless.cli gui'') pids h))
      in case supervisor_init e (hfs h3) of
           Err ex \<Rightarrow> (Err ex, h3)
         | Ok s \<Rightarrow>
             if external s then
               let (_, h4) = sup_stop e D pids s h3 in (Ok (out1 @ out2 @ [''remote tunnel'']), cli h4)
             else
               let running = sup_is_running D s h3;
                   h4 = (if running then snd (sup_stop e D pids s h3) else h3)
               in (Ok (out1 @ out2 @ (if running then [''aimlessd''] else [])),
                   cli (pkill (exact_name ''aimlessd'') pids h4)))"

section \<open>What stopping does\<close>

lemma daemon_pid_listening:
  assumes "listener D path = Some p" "pid_alive h p" "answers D p ''whoami'' = Ok (JObj who)"
    and "dict_get who ''pid'' = Some (JInt p)" "p \<noteq> 0"
  shows "daemon_pid_from_socket D path h = Some p"
  using assms by (simp add: daemon_pid_from_socket_def ask_daemon_def get_default_def)

text \<open>Only the process chosen is signalled, and it is not touched when there is none.\<close>

lemma sup_stop_effect:
  assumes "\<not> external s" "sup_stop e D pids s h = (s', h')"
  shows "\<exists>sent. signals h' = signals h @ sent \<and> fst ` set sent \<subseteq> set_option (stop_pid e D pids s h)"
    and "stop_pid e D pids s h \<noteq> Some q \<Longrightarrow> procs h' q = procs h q"
    and "files (hfs h') (daemon_pid_path e) = None" and "s' = s"
    and "p \<noteq> 0 \<Longrightarrow> stop_pid e D pids s h = Some p \<Longrightarrow> listener D (sup_sock s) = Some p \<Longrightarrow> \<not> sup_is_running D s' h'"
proof -
  define h1 where "h1 = (case stop_pid e D pids s h of None \<Rightarrow> h | Some p \<Rightarrow> if p \<noteq> 0 then os_kill p SIGTERM h else h)"
  define h2 where "h2 = (case stop_pid e D pids s h of None \<Rightarrow> h1
    | Some p \<Rightarrow> if sup_is_running D s h1 \<and> p \<noteq> 0 then os_kill p SIGKILL h1 else h1)"
  have "sup_stop e D pids s h = (s, h2\<lparr>hfs := remove_file (daemon_pid_path e) (hfs h2)\<rparr>)"
    unfolding sup_stop_def h2_def h1_def Let_def by (cases "stop_pid e D pids s h") (simp_all only: assms(1) if_False option.case not_not)
  with assms(2) have h': "s' = s" "h' = h2\<lparr>hfs := remove_file (daemon_pid_path e) (hfs h2)\<rparr>" by simp_all
  then show "s' = s" by simp
  show "files (hfs h') (daemon_pid_path e) = None" by (simp add: h' remove_file_def)
  have kill: "(\<exists>sent. signals h2 = signals h @ sent \<and> fst ` set sent \<subseteq> set_option (stop_pid e D pids s h)) \<and>
    (stop_pid e D pids s h \<noteq> Some q \<longrightarrow> procs h2 q = procs h q)"
  proof (cases "stop_pid e D pids s h")
    case (Some p)
    have "h2 \<in> {h, os_kill p SIGTERM h, os_kill p SIGKILL (os_kill p SIGTERM h)}"
      unfolding h2_def h1_def Some option.case by (simp only: insert_iff if_True split: if_split) blast
    then show ?thesis by (auto simp: Some os_kill_signals os_kill_other)
  qed (simp add: h1_def h2_def)
  then show "\<exists>sent. signals h' = signals h @ sent \<and> fst ` set sent \<subseteq> set_option (stop_pid e D pids s h)"
    and "stop_pid e D pids s h \<noteq> Some q \<Longrightarrow> procs h' q = procs h q"
    by (simp_all add: h'(2))
  show "\<not> sup_is_running D s' h'" if "p \<noteq> 0" "stop_pid e D pids s h = Some p" "listener D (sup_sock s) = Some p"
  proof -
    have "pid_alive h' p = pid_alive h2 p" by (simp add: h' pid_alive_iff)
    moreover have "\<not> pid_alive h2 p"
      unfolding h2_def that(2) using that(1,3) sigkill_ends by (simp add: sup_is_running_def connects_def)
    ultimately show ?thesis using that h'(1) by (simp add: sup_is_running_def connects_def)
  qed
qed

section \<open>Properties\<close>

text \<open>
  C37: in local mode, stopping a daemon that answers with its own pid ends it whether or not it
  reacts to \<open>SIGTERM\<close>: the socket has no live listener afterwards, its pid file is gone, no other
  process is signalled or changed, and a further stop signals the daemon no more.
\<close>

theorem stop_ends_daemon:
  assumes "\<not> external s" and "listener D (sup_sock s) = Some p" and "pid_alive h p" and "p \<noteq> 0"
    and "answers D p ''whoami'' = Ok (JObj who)" and "dict_get who ''pid'' = Some (JInt p)"
    and "sup_stop e D pids s h = (s', h')"
  shows "\<not> sup_is_running D s' h' \<and> files (hfs h') (daemon_pid_path e) = None \<and>
    (\<exists>sent. signals h' = signals h @ sent \<and> fst ` set sent \<subseteq> {p}) \<and>
    list_all (\<lambda>q. q = p \<or> procs h' q = procs h q) qs \<and> daemon_pid_from_socket D (sup_sock s) h' = None"
proof -
  have target: "stop_pid e D pids s h = Some p"
    using daemon_pid_listening [OF assms(2,3,5,6,4)] by (simp add: stop_pid_def)
  note effect = sup_stop_effect [OF assms(1,7)]
  have down: "\<not> sup_is_running D s' h'" by (rule effect(5) [OF assms(4) target assms(2)])
  then have "daemon_pid_from_socket D (sup_sock s) h' = None"
    using effect(4) assms(2) by (simp add: daemon_pid_from_socket_def ask_daemon_def sup_is_running_def connects_def)
  moreover have "list_all (\<lambda>q. q = p \<or> procs h' q = procs h q) qs"
    using effect(2) target unfolding list_all_iff by (metis option.inject)
  ultimately show ?thesis using down effect(1,3) target by simp
qed

theorem stop_ends_daemon_witness:
  "\<exists>s' h'. sup_stop \<lparr>environ = Map.empty, home_dir = ''/h''\<rparr>
      \<lparr>listener = [''/s'' \<mapsto> 7], answers = \<lambda>_ _. Ok (JObj [(''pid'', JInt 7)])\<rparr> []
      \<lparr>sup_remote = None, sup_tunnel = None, sup_datadir = Some ''/d'', sup_sock = ''/s'', sup_child = None\<rparr>
      \<lparr>procs = [7 \<mapsto> \<lparr>argv = [''aimlessd''], zombie = False, dies_on_term = False\<rparr>], signals = [],
       hfs = \<lparr>files = Map.empty, dirs = Map.empty\<rparr>\<rparr> = (s', h') \<and> \<not> pid_alive h' 7"
proof -
  let ?e = "\<lparr>environ = Map.empty, home_dir = ''/h''\<rparr> :: pyenv"
  let ?D = "\<lparr>listener = [''/s'' \<mapsto> 7], answers = \<lambda>_ _. Ok (JObj [(''pid'', JInt 7)])\<rparr> :: daemons"
  let ?s = "\<lparr>sup_remote = None, sup_tunnel = None, sup_datadir = Some ''/d'', sup_sock = ''/s'', sup_child = None\<rparr> :: supervisor"
  let ?h = "\<lparr>procs = [7 \<mapsto> \<lparr>argv = [''aimlessd''], zombie = False, dies_on_term = False\<rparr>], signals = [],
       hfs = \<lparr>files = Map.empty, dirs = Map.empty\<rparr>\<rparr> :: host"
  obtain s' h' where run: "sup_stop ?e ?D [] ?s ?h = (s', h')" by fastforce
  have "s' = ?s" using run by (auto simp: sup_stop_def Let_def external_def)
  with stop_ends_daemon [OF _ _ _ _ _ _ run, of 7 "[(''pid'', JInt 7)]" "[]"] run
  show ?thesis by (auto simp: external_def pid_alive_iff sup_is_running_def connects_def)
qed

text \<open>
  a stale pid file is trusted: when no daemon answers, a stop signals whatever process now
  has the recorded pid, without looking at its command line, unlike the tunnel's stop.
\<close>

theorem stale_pid_signalled:
  assumes "\<not> external s" and "\<not> connects D (sup_sock s) h" and "read_pid_file (daemon_pid_path e) h = Some p"
    and "p \<noteq> 0" and "procs h p = Some other" and "sup_stop e D pids s h = (s', h')"
  shows "signals h' = signals h @ (p, SIGTERM) # (if sup_is_running D s (os_kill p SIGTERM h) then [(p, SIGKILL)] else [])"
proof -
  have "daemon_pid_from_socket D (sup_sock s) h = None"
    using assms(2) by (simp add: daemon_pid_from_socket_def ask_daemon_def connects_def split: option.splits)
  with assms(3) have "stop_pid e D pids s h = Some p" by (simp add: stop_pid_def)
  with assms show ?thesis
    by (auto simp: sup_stop_def Let_def os_kill_signals pid_exists_def os_kill_def)
qed

theorem stale_pid_signalled_witness:
  "\<exists>s' h'. sup_stop \<lparr>environ = Map.empty, home_dir = ''/h''\<rparr> \<lparr>listener = Map.empty, answers = \<lambda>_ _. Err BadSignatureError\<rparr> []
      \<lparr>sup_remote = None, sup_tunnel = None, sup_datadir = Some ''/d'', sup_sock = ''/s'', sup_child = None\<rparr>
      \<lparr>procs = [7 \<mapsto> \<lparr>argv = [''editor''], zombie = False, dies_on_term = True\<rparr>], signals = [],
       hfs = \<lparr>files = [daemon_pid_path \<lparr>environ = Map.empty, home_dir = ''/h''\<rparr> \<mapsto> \<lparr>fmode = 420, fdata = encode_utf8 ''7''\<rparr>],
              dirs = Map.empty\<rparr>\<rparr> = (s', h') \<and> signals h' = [(7, SIGTERM)]"
proof -
  let ?e = "\<lparr>environ = Map.empty, home_dir = ''/h''\<rparr> :: pyenv"
  let ?D = "\<lparr>listener = Map.empty, answers = \<lambda>_ _. Err BadSignatureError\<rparr> :: daemons"
  let ?s = "\<lparr>sup_remote = None, sup_tunnel = None, sup_datadir = Some ''/d'', sup_sock = ''/s'', sup_child = None\<rparr> :: supervisor"
  let ?p = "\<lparr>argv = [''editor''], zombie = False, dies_on_term = True\<rparr> :: proc"
  let ?h = "\<lparr>procs = [7 \<mapsto> ?p], signals = [],
       hfs = \<lparr>files = [daemon_pid_path ?e \<mapsto> \<lparr>fmode = 420, fdata = encode_utf8 ''7''\<rparr>], dirs = Map.empty\<rparr>\<rparr> :: host"
  obtain s' h' where run: "sup_stop ?e ?D [] ?s ?h = (s', h')" by fastforce
  have "py_strip ''7'' = ''7''" by code_simp
  then have "read_pid_file (daemon_pid_path ?e) ?h = Some 7"
    by (simp add: read_pid_file_def os_read_def decode_encode_utf8 valid_str_lit py_int_def hex_val_def decimal_digits_def hex_digits_def)
  with stale_pid_signalled [OF _ _ _ _ _ run, of 7 ?p] run show ?thesis
    by (auto simp: external_def connects_def sup_is_running_def)
qed
end
