(* ===== verification/App.thy ===== *)
theory App
  imports Supervisor
begin

text \<open>
  \<open>class AimlessApp\<close> of \<open>client/aimless/gtkui.py\<close>: the main loop of the application.

  The loop's timers and signal handlers are the list \<open>a_sources\<close>, its background threads the
  list \<open>a_workers\<close>. An event fires a source, ends a worker or is a request of the user; the
  callback runs to its end, as it does in GLib's main loop, and a source whose callback does not
  ask to be kept (or raises) is removed. What a callback observes of the world is the record
  \<open>obs\<close>. Lines written to the log and the refreshing of labels are left out.
\<close>

section \<open>State\<close>

datatype source = Poll | Heartbeat | Probe | Confirm | Restart nat | ShowConnect | RetryConnect
  | SigUsr1 | SigTerm | SigInt

datatype worker = Connecting | Beating | Rewatching "json list"

record app =
  a_sup :: supervisor
  a_session :: bool
  a_passphrase :: "string option"
  a_window :: bool
  a_have_tray :: bool
  a_embedded :: bool
  a_lock :: bool
  a_quitting :: bool
  a_unlocking :: bool
  a_tunnel_fail :: nat
  a_tunnel_restarting :: bool
  a_daemon_down_logged :: bool
  a_awaiting :: bool
  a_connect_busy :: bool
  a_connect_show :: bool
  a_connect_state :: "string \<times> string"
  a_connect_window :: bool
  a_main :: bool
  a_sources :: "source list"
  a_workers :: "worker list"

definition app_init :: "supervisor \<Rightarrow> app" where
  "app_init s =
     \<lparr>a_sup = s, a_session = False, a_passphrase = None, a_window = False, a_have_tray = False,
      a_embedded = False, a_lock = False, a_quitting = False, a_unlocking = False, a_tunnel_fail = 0,
      a_tunnel_restarting = False, a_daemon_down_logged = False, a_awaiting = False,
      a_connect_busy = False, a_connect_show = False, a_connect_state = (''connecting'', ''waiting''),
      a_connect_window = False, a_main = False, a_sources = [], a_workers = []\<rparr>"

definition add_source :: "source \<Rightarrow> app \<Rightarrow> app" where
  "add_source x a = a\<lparr>a_sources := a_sources a @ [x]\<rparr>"

definition add_worker :: "worker \<Rightarrow> app \<Rightarrow> app" where
  "add_worker w a = a\<lparr>a_workers := a_workers a @ [w]\<rparr>"

section \<open>Opening the window\<close>

text \<open>
  What the user enters: the answers of the create dialog (an import with the passphrase it
  ended in, if it succeeded), those of the passphrase dialog, and what \<open>Session\<close> and
  \<open>create_identity\<close> do with a passphrase.
\<close>

datatype created = Import "string option" | Mismatch | New string string

record dialogs =
  identity_exists :: bool
  create_answers :: "created option list"
  pass_answers :: "string option list"
  make_session :: "string \<Rightarrow> unit res"
  make_identity :: "string \<Rightarrow> string \<Rightarrow> unit res"

datatype opened = Opened string | NotOpened | Raised exn

fun is_session_error :: "exn \<Rightarrow> bool" where
  "is_session_error ex = (is_ValueError ex \<or> is_OSError ex)"

text \<open>
  The loop of at most three create dialogs, \<open>n\<close> of them left; a dialog with no answer is a
  cancel.
\<close>

fun create_loop :: "dialogs \<Rightarrow> nat \<Rightarrow> created option list \<Rightarrow> opened" where
  "create_loop d 0 replies = NotOpened"
| "create_loop d (Suc n) [] = NotOpened"
| "create_loop d (Suc n) (None # replies) = NotOpened"
| "create_loop d (Suc n) (Some (Import None) # replies) = create_loop d n replies"
| "create_loop d (Suc n) (Some (Import (Some pw)) # replies) =
     (if pw = [] then create_loop d n replies
      else case make_session d pw of
             Ok _ \<Rightarrow> Opened pw
           | Err ex \<Rightarrow> if is_session_error ex then create_loop d n replies else Raised ex)"
| "create_loop d (Suc n) (Some Mismatch # replies) = create_loop d n replies"
| "create_loop d (Suc n) (Some (New pw screen) # replies) =
     (case bind_res (make_identity d pw screen) (\<lambda>_. make_session d pw) of
        Ok _ \<Rightarrow> Opened pw
      | Err ex \<Rightarrow> if is_OSError ex then NotOpened else Raised ex)"

fun pass_loop :: "dialogs \<Rightarrow> nat \<Rightarrow> string option list \<Rightarrow> opened" where
  "pass_loop d 0 replies = NotOpened"
| "pass_loop d (Suc n) [] = NotOpened"
| "pass_loop d (Suc n) (None # replies) = NotOpened"
| "pass_loop d (Suc n) (Some pw # replies) =
     (if pw = [] then NotOpened
      else case make_session d pw of
             Ok _ \<Rightarrow> Opened pw
           | Err ex \<Rightarrow> if is_ValueError ex then pass_loop d n replies
                       else if is_OSError ex then NotOpened else Raised ex)"

text \<open>
  A remembered passphrase is tried first. When the session then fails with an \<open>OSError\<close>, the
  passphrase is kept, no dialog is shown, and the attribute access on the missing session
  raises.
\<close>

definition open_window_unlocked :: "dialogs \<Rightarrow> string option \<Rightarrow> opened" where
  "open_window_unlocked d remembered =
     (if \<not> identity_exists d then create_loop d 3 (create_answers d)
      else
        case remembered of
          None \<Rightarrow> pass_loop d 3 (pass_answers d)
        | Some pw \<Rightarrow>
            if pw = [] then pass_loop d 3 (pass_answers d)
            else case make_session d pw of
                   Ok _ \<Rightarrow> Opened pw
                 | Err ex \<Rightarrow>
                     if is_ValueError ex then pass_loop d 3 (pass_answers d)
                     else if is_OSError ex then Raised (AttributeError ''NoneType has no attribute cache_recovered'')
                     else Raised ex)"

text \<open>\<open>open_window\<close>: while connecting it only presents the status window; a second call while a
  dialog is open does nothing.\<close>

definition open_window :: "dialogs \<Rightarrow> app \<Rightarrow> unit res \<times> app" where
  "open_window d a =
     (if a_awaiting a then (Ok (), a)
      else if a_window a then (Ok (), a)
      else if a_unlocking a then (Ok (), a)
      else
        case open_window_unlocked d (a_passphrase a) of
          Opened pw \<Rightarrow> (Ok (), a\<lparr>a_passphrase := Some pw, a_session := True, a_window := True\<rparr>)
        | NotOpened \<Rightarrow> (Ok (), a)
        | Raised ex \<Rightarrow> (Err ex, a))"

section \<open>The first connection\<close>

text \<open>Everything a callback may observe.\<close>

record obs =
  o_daemons :: daemons
  o_sup :: sup_env
  o_probe :: "json res"
  o_now :: int
  o_contacts :: "json list res"
  o_dialogs :: dialogs
  o_pids :: "int list"

definition set_connect_state :: "string \<Rightarrow> string \<Rightarrow> app \<Rightarrow> app" where
  "set_connect_state ssh daemon a = a\<lparr>a_connect_state := (ssh, daemon)\<rparr>"

definition try_connect :: "app \<Rightarrow> app" where
  "try_connect a =
     (if \<not> a_awaiting a \<or> a_connect_busy a then a
      else add_worker Connecting (set_connect_state ''connecting'' ''waiting'' (a\<lparr>a_connect_busy := True\<rparr>)))"

definition begin_connect :: "bool \<Rightarrow> app \<Rightarrow> app" where
  "begin_connect show_window a =
     (let a1 = try_connect (a\<lparr>a_awaiting := True, a_connect_show := show_window, a_connect_busy := False\<rparr>)
      in if show_window then add_source ShowConnect a1 else a1)"

definition maybe_show_connect :: "app \<Rightarrow> app" where
  "maybe_show_connect a = (if a_awaiting a \<and> \<not> a_connect_window a then a\<lparr>a_connect_window := True\<rparr> else a)"

definition retry_connect :: "app \<Rightarrow> app" where
  "retry_connect a = (if a_awaiting a then try_connect a else a)"

definition on_connected :: "obs \<Rightarrow> app \<Rightarrow> app" where
  "on_connected ob a =
     (let a1 = (set_connect_state ''connected'' ''connected'' (a\<lparr>a_awaiting := False\<rparr>))\<lparr>a_connect_window := False\<rparr>
      in if a_connect_show a1 \<or> \<not> a_have_tray a1 then snd (open_window (o_dialogs ob) a1) else a1)"

definition tunnel_up :: "pyenv \<Rightarrow> app \<Rightarrow> host \<Rightarrow> bool" where
  "tunnel_up e a h = (case sup_tunnel (a_sup a) of None \<Rightarrow> False | Some t \<Rightarrow> is_running e t h)"

text \<open>
  The end of the connecting worker: it ran the supervisor's \<open>ensure\<close>; \<open>done\<close> then runs in the
  main loop.
\<close>

definition connect_done :: "pyenv \<Rightarrow> obs \<Rightarrow> bool \<Rightarrow> app \<Rightarrow> host \<Rightarrow> app" where
  "connect_done e ob ok a h =
     (let a1 = a\<lparr>a_connect_busy := False\<rparr>
      in if \<not> a_awaiting a1 then a1
         else if ok \<and> reachable (o_daemons ob) (a_sup a1) h then on_connected ob a1
         else
           let ssh_ok = tunnel_up e a1 h
           in add_source RetryConnect
                (set_connect_state (if ssh_ok then ''connected'' else ''failed'') (if ssh_ok then ''unreachable'' else ''waiting'') a1))"

definition connect_worker :: "pyenv \<Rightarrow> invocation \<Rightarrow> obs \<Rightarrow> app \<Rightarrow> host \<Rightarrow> app \<times> host" where
  "connect_worker e iv ob a h =
     (case sup_ensure e iv (o_daemons ob) (o_sup ob) (a_sup a) h of
        (r, s1, h1) \<Rightarrow> (connect_done e ob (is_ok r) (a\<lparr>a_sup := s1\<rparr>) h1, h1))"

section \<open>Watching the tunnel\<close>

definition set_tunnel :: "tunnel \<Rightarrow> app \<Rightarrow> app" where
  "set_tunnel t a = a\<lparr>a_sup := (a_sup a)\<lparr>sup_tunnel := Some t\<rparr>\<rparr>"

definition schedule_tunnel_restart :: "app \<Rightarrow> app" where
  "schedule_tunnel_restart a =
     (if a_tunnel_restarting a \<or> a_quitting a then a
      else case sup_tunnel (a_sup a) of
             None \<Rightarrow> a
           | Some t \<Rightarrow>
               let (delay, t1) = next_backoff t
               in add_source (Restart delay) (set_tunnel t1 (a\<lparr>a_tunnel_restarting := True\<rparr>)))"

text \<open>A callback's result: whether the source is kept, or the exception.\<close>

definition probe_tunnel :: "pyenv \<Rightarrow> obs \<Rightarrow> app \<Rightarrow> host \<Rightarrow> bool \<times> app" where
  "probe_tunnel e ob a h =
     (if a_quitting a \<or> \<not> external (a_sup a) \<or> a_awaiting a then (False, a)
      else if a_tunnel_restarting a then (True, a)
      else
        case sup_tunnel (a_sup a) of
          None \<Rightarrow> (False, a)
        | Some t \<Rightarrow>
            if \<not> is_running e t h then
              if a_tunnel_fail a + 1 = 1 then (True, add_source Confirm (a\<lparr>a_tunnel_fail := 1\<rparr>))
              else (True, schedule_tunnel_restart (a\<lparr>a_tunnel_fail := 0\<rparr>))
            else
              (case probe (o_probe ob) (o_now ob) t of
                 (ok, t1) \<Rightarrow> (True, (set_tunnel t1 a)\<lparr>a_tunnel_fail := 0, a_daemon_down_logged := \<not> ok\<rparr>)))"

definition confirm_tunnel :: "pyenv \<Rightarrow> app \<Rightarrow> host \<Rightarrow> app" where
  "confirm_tunnel e a h =
     (if a_quitting a \<or> a_tunnel_restarting a then a
      else if tunnel_up e a h then a\<lparr>a_tunnel_fail := 0\<rparr>
      else schedule_tunnel_restart (a\<lparr>a_tunnel_fail := 0\<rparr>))"

definition rewatch :: "obs \<Rightarrow> app \<Rightarrow> unit res \<times> app" where
  "rewatch ob a =
     (if \<not> a_session a then (Ok (), a)
      else case o_contacts ob of
             Err ex \<Rightarrow> (Err ex, a)
           | Ok infos \<Rightarrow> (Ok (), add_worker (Rewatching infos) a))"

text \<open>An exception of \<open>restart\<close> leaves the flag \<open>_tunnel_restarting\<close> as it is.\<close>

definition do_tunnel_restart :: "pyenv \<Rightarrow> obs \<Rightarrow> app \<Rightarrow> host \<Rightarrow> app \<times> host" where
  "do_tunnel_restart e ob a h =
     (if a_quitting a then (a\<lparr>a_tunnel_restarting := False\<rparr>, h)
      else
        case sup_tunnel (a_sup a) of
          None \<Rightarrow> (a, h)
        | Some t \<Rightarrow>
            (case restart e (se_tunnel (o_sup ob)) t h of
               (Err _, t1, h1) \<Rightarrow> (set_tunnel t1 a, h1)
             | (Ok (True, _), t1, h1) \<Rightarrow>
                 (snd (rewatch ob (set_tunnel (reset_backoff t1) (a\<lparr>a_tunnel_restarting := False\<rparr>))), h1)
             | (Ok (False, _), t1, h1) \<Rightarrow>
                 (schedule_tunnel_restart (set_tunnel t1 (a\<lparr>a_tunnel_restarting := False\<rparr>)), h1)))"

section \<open>The other callbacks\<close>

definition poll :: "pyenv \<Rightarrow> invocation \<Rightarrow> obs \<Rightarrow> app \<Rightarrow> host \<Rightarrow> bool \<times> app \<times> host" where
  "poll e iv ob a h =
     (if a_quitting a then (False, a, h)
      else if external (a_sup a) then
        if a_awaiting a then (True, a, h)
        else if sup_tunnel (a_sup a) \<noteq> None \<and> \<not> a_tunnel_restarting a \<and> \<not> tunnel_up e a h
        then (True, schedule_tunnel_restart a, h)
        else (True, a, h)
      else if sup_is_running (o_daemons ob) (a_sup a) h then (True, a, h)
      else
        case sup_ensure e iv (o_daemons ob) (o_sup ob) (a_sup a) h of
          (Ok _, s1, h1) \<Rightarrow> (case rewatch ob (a\<lparr>a_sup := s1\<rparr>) of (r, a1) \<Rightarrow> (is_ok r, a1, h1))
        | (Err (RuntimeError _), s1, h1) \<Rightarrow> (True, a\<lparr>a_sup := s1\<rparr>, h1)
        | (Err _, s1, h1) \<Rightarrow> (False, a\<lparr>a_sup := s1\<rparr>, h1))"

definition heartbeat :: "app \<Rightarrow> bool \<times> app" where
  "heartbeat a = (if a_quitting a then (False, a) else (True, add_worker Beating a))"

definition quit :: "pyenv \<Rightarrow> obs \<Rightarrow> app \<Rightarrow> host \<Rightarrow> app \<times> host" where
  "quit e ob a h =
     (if a_quitting a then (a, h)
      else
        let a1 = a\<lparr>a_quitting := True, a_awaiting := False\<rparr>;
            (s1, h1) = sup_stop e (o_daemons ob) (o_pids ob) (a_sup a1) h
        in (a1\<lparr>a_sup := s1, a_lock := False, a_main := False\<rparr>,
            h1\<lparr>hfs := remove_file (app_pid_path e) (hfs h1)\<rparr>))"

definition no_window_headless :: "app \<Rightarrow> bool" where
  "no_window_headless a = (if a_awaiting a then False else \<not> a_window a \<and> \<not> (a_have_tray a \<and> a_embedded a))"

text \<open>
  \<open>_setup\<close>: a second instance asks the first to show its window and ends; a failing local daemon
  ends the application with 1. The result is the exit code, if it ends. \<open>openable\<close> and \<open>locked\<close>
  are those of the lock, \<open>tray\<close> and \<open>embedded\<close> what the desktop offers.
\<close>

record desktop =
  d_openable :: bool
  d_locked :: bool
  d_tray :: bool
  d_embedded :: bool

definition setup_window :: "pyenv \<Rightarrow> invocation \<Rightarrow> obs \<Rightarrow> bool \<Rightarrow> app \<Rightarrow> host \<Rightarrow> int option res \<times> app" where
  "setup_window e iv ob show_it a h =
     (if external (a_sup a) then
        if local_daemon_running e iv (o_daemons ob) (a_sup a) h then (Ok (Some 1), a)
        else (Ok None, begin_connect (show_it \<or> \<not> a_have_tray a) a)
      else if show_it \<or> \<not> a_have_tray a
      then (case open_window (o_dialogs ob) a of (Ok _, a1) \<Rightarrow> (Ok None, a1) | (Err ex, a1) \<Rightarrow> (Err ex, a1))
      else (Ok None, a))"

definition register_sources :: "app \<Rightarrow> app" where
  "register_sources a =
     a\<lparr>a_sources := a_sources a @ [SigUsr1, SigTerm, SigInt, Poll, Heartbeat] @ (if external (a_sup a) then [Probe] else []),
       a_main := True\<rparr>"

definition app_setup ::
  "pyenv \<Rightarrow> invocation \<Rightarrow> desktop \<Rightarrow> obs \<Rightarrow> bool \<Rightarrow> app \<Rightarrow> host \<Rightarrow> int option res \<times> app \<times> host" where
  "app_setup e iv dk ob show_it a h =
     (let h1 = h\<lparr>hfs := ensure_dirs e (hfs h)\<rparr>;
          ((taken, holder), h2) = acquire_app_lock e iv (d_openable dk) (d_locked dk) h1
      in if \<not> taken
         then (Ok (Some 0), a, case holder of Some p \<Rightarrow> if 0 < p then os_kill p SIGUSR1 h2 else h2 | None \<Rightarrow> h2)
         else
           let a1 = a\<lparr>a_lock := True\<rparr>;
               (r, s1, h3) = (if external (a_sup a1) then (Ok True, a_sup a1, h2)
                              else sup_ensure e iv (o_daemons ob) (o_sup ob) (a_sup a1) h2);
               a2 = a1\<lparr>a_sup := s1\<rparr>
           in case r of
                Err (RuntimeError _) \<Rightarrow> (Ok (Some 1), a2, h3)
              | Err ex \<Rightarrow> (Err ex, a2, h3)
              | Ok _ \<Rightarrow>
                  let a3 = a2\<lparr>a_have_tray := d_tray dk, a_embedded := d_embedded dk\<rparr>
                  in case setup_window e iv ob show_it a3 h3 of
                       (Ok None, a4) \<Rightarrow>
                         if no_window_headless a4 then (Ok (Some 0), a4, h3) else (Ok None, register_sources a4, h3)
                     | (r4, a4) \<Rightarrow> (r4, a4, h3))"

section \<open>The main loop\<close>

text \<open>
  A source that fires: its callback runs and the source is removed unless it is to be kept. The
  handler of \<open>SIGUSR1\<close> removes itself, those of the other two quit.
\<close>

fun callback :: "pyenv \<Rightarrow> invocation \<Rightarrow> obs \<Rightarrow> source \<Rightarrow> app \<Rightarrow> host \<Rightarrow> bool \<times> app \<times> host" where
  "callback e iv ob Poll a h = poll e iv ob a h"
| "callback e iv ob Heartbeat a h = (case heartbeat a of (k, a1) \<Rightarrow> (k, a1, h))"
| "callback e iv ob Probe a h = (case probe_tunnel e ob a h of (k, a1) \<Rightarrow> (k, a1, h))"
| "callback e iv ob Confirm a h = (False, confirm_tunnel e a h, h)"
| "callback e iv ob (Restart _) a h = (False, do_tunnel_restart e ob a h)"
| "callback e iv ob ShowConnect a h = (False, maybe_show_connect a, h)"
| "callback e iv ob RetryConnect a h = (False, retry_connect a, h)"
| "callback e iv ob SigUsr1 a h = (False, snd (open_window (o_dialogs ob) a), h)"
| "callback e iv ob SigTerm a h = (False, quit e ob a h)"
| "callback e iv ob SigInt a h = (False, quit e ob a h)"

text \<open>The source is taken out while its callback runs and put back when it is kept.\<close>

definition fire :: "pyenv \<Rightarrow> invocation \<Rightarrow> obs \<Rightarrow> source \<Rightarrow> app \<Rightarrow> host \<Rightarrow> app \<times> host" where
  "fire e iv ob x a h =
     (case callback e iv ob x (a\<lparr>a_sources := remove1 x (a_sources a)\<rparr>) h of
        (keep, a1, h1) \<Rightarrow> (if keep then add_source x a1 else a1, h1))"

definition finish :: "pyenv \<Rightarrow> invocation \<Rightarrow> obs \<Rightarrow> worker \<Rightarrow> app \<Rightarrow> host \<Rightarrow> app \<times> host" where
  "finish e iv ob w a h =
     (let a1 = a\<lparr>a_workers := remove1 w (a_workers a)\<rparr>
      in if w = Connecting then connect_worker e iv ob a1 h else (a1, h))"

inductive app_step :: "pyenv \<Rightarrow> invocation \<Rightarrow> app \<times> host \<Rightarrow> app \<times> host \<Rightarrow> bool" for e iv where
  Fire: "x \<in> set (a_sources a) \<Longrightarrow> app_step e iv (a, h) (fire e iv ob x a h)"
| Finish: "w \<in> set (a_workers a) \<Longrightarrow> app_step e iv (a, h) (finish e iv ob w a h)"
| UserOpen: "app_step e iv (a, h) (snd (open_window d a), h)"
| UserQuit: "app_step e iv (a, h) (quit e ob a h)"
| World: "app_step e iv (a, h) (a, h')"

inductive app_runs :: "pyenv \<Rightarrow> invocation \<Rightarrow> app \<times> host \<Rightarrow> app \<times> host \<Rightarrow> bool" for e iv where
  start: "app_runs e iv s s"
| more: "app_runs e iv s s1 \<Longrightarrow> app_step e iv s1 s2 \<Longrightarrow> app_runs e iv s s2"

inductive_cases app_stepE: "app_step e iv s s'"

section \<open>The invariant of the loop\<close>

fun is_restart :: "source \<Rightarrow> bool" where
  "is_restart (Restart _) = True"
| "is_restart _ = False"

definition restart_sources :: "app \<Rightarrow> source list" where
  "restart_sources a = filter is_restart (a_sources a)"

definition delay_ok :: "source \<Rightarrow> bool" where
  "delay_ok x = (case x of Restart d \<Rightarrow> 2 \<le> d \<and> d \<le> 30 | _ \<Rightarrow> True)"

definition retries_pending :: "app \<Rightarrow> nat" where
  "retries_pending a = count_list (a_sources a) RetryConnect"

definition connecting :: "app \<Rightarrow> nat" where
  "connecting a = count_list (a_workers a) Connecting"

text \<open>
  At most one restart of the tunnel is scheduled, and only while the flag says so; the flag of
  the first connection counts its worker; while the connection is awaited exactly one attempt
  runs or is scheduled, and the main window is not open.
\<close>

definition restart_inv :: "app \<Rightarrow> bool" where
  "restart_inv a \<longleftrightarrow> length (restart_sources a) \<le> (if a_tunnel_restarting a then 1 else 0) \<and>
     list_all delay_ok (restart_sources a)"

definition connect_inv :: "app \<Rightarrow> bool" where
  "connect_inv a \<longleftrightarrow> connecting a = (if a_connect_busy a then 1 else 0) \<and>
     connecting a + retries_pending a \<le> 1 \<and>
     (a_awaiting a \<longrightarrow> connecting a + retries_pending a = 1 \<and> \<not> a_window a) \<and>
     (a_connect_window a \<longrightarrow> a_awaiting a \<or> a_quitting a) \<and>
     (a_quitting a \<longrightarrow> \<not> a_awaiting a)"

lemma count_list_remove1:
  "count_list (remove1 x xs) y = count_list xs y - (if x = y then 1 else 0)"
  by (induction xs) (auto simp: Suc_diff_le count_list_0_iff)

lemma count_list_pos: "x \<in> set xs \<Longrightarrow> 0 < count_list xs x"
  by (metis count_list_0_iff gr0I)

lemma count_list_snoc: "count_list (xs @ [y]) x = count_list xs x + (if y = x then 1 else 0)"
  by (simp add: count_list_append)

text \<open>What the callbacks leave alone.\<close>

definition same_connect :: "app \<Rightarrow> app \<Rightarrow> bool" where
  "same_connect a b \<longleftrightarrow> retries_pending a = retries_pending b \<and> connecting a = connecting b \<and>
     a_connect_busy a = a_connect_busy b \<and> a_awaiting a = a_awaiting b \<and> a_window a = a_window b \<and>
     a_connect_window a = a_connect_window b \<and> a_quitting a = a_quitting b"

lemma same_connect_inv: "same_connect a b \<Longrightarrow> connect_inv a \<Longrightarrow> connect_inv b"
  unfolding same_connect_def connect_inv_def by metis

definition same_restart :: "app \<Rightarrow> app \<Rightarrow> bool" where
  "same_restart a b \<longleftrightarrow> restart_sources a = restart_sources b \<and> a_tunnel_restarting a = a_tunnel_restarting b"

lemma same_restart_inv: "same_restart a b \<Longrightarrow> restart_inv a \<Longrightarrow> restart_inv b"
  unfolding restart_inv_def same_restart_def by simp

text \<open>The watching of the tunnel does not touch the first connection.\<close>

lemma schedule_same_connect: "same_connect a (schedule_tunnel_restart a)"
  by (auto simp: schedule_tunnel_restart_def same_connect_def add_source_def set_tunnel_def retries_pending_def
      connecting_def count_list_snoc split: option.split prod.split)

lemma same_connect_trans: "same_connect a b \<Longrightarrow> same_connect b c \<Longrightarrow> same_connect a c"
  by (simp add: same_connect_def)

lemma same_restart_trans: "same_restart a b \<Longrightarrow> same_restart b c \<Longrightarrow> same_restart a c"
  by (simp add: same_restart_def)

lemma next_backoff_range: "2 \<le> fst (next_backoff t) \<and> fst (next_backoff t) \<le> 30"
proof -
  have "BACKOFF ! min (t_backoff_index t) 4 \<in> {2, 4, 8, 15, 30}" by (simp add: BACKOFF_nth)
  then show ?thesis by (auto simp: next_backoff_def last_BACKOFF)
qed

lemma schedule_restart_inv: "restart_inv a \<Longrightarrow> restart_inv (schedule_tunnel_restart a)"
proof (cases "sup_tunnel (a_sup a)")
  case (Some t)
  assume "restart_inv a"
  with Some next_backoff_range [of t] show ?thesis
    by (cases "next_backoff t") (auto simp: schedule_tunnel_restart_def restart_inv_def restart_sources_def delay_ok_def
        add_source_def set_tunnel_def split: if_splits)
qed (simp add: schedule_tunnel_restart_def)

lemmas view_simps = same_connect_def same_restart_def retries_pending_def connecting_def restart_sources_def
  add_source_def add_worker_def set_tunnel_def set_connect_state_def count_list_append

lemma rewatch_same: "same_connect a (snd (rewatch ob a)) \<and> same_restart a (snd (rewatch ob a))"
  by (auto simp: rewatch_def view_simps split: res.split)

lemma set_tunnel_same: "same_connect a (set_tunnel t a) \<and> same_restart a (set_tunnel t a)"
  by (simp add: view_simps)

lemma probe_same_connect: "probe_tunnel e ob a h = (k, a') \<Longrightarrow> same_connect a a'"
  using schedule_same_connect [of "a\<lparr>a_tunnel_fail := 0\<rparr>"]
  by (auto simp: probe_tunnel_def view_simps split: if_splits option.splits prod.splits)

lemma confirm_same_connect: "same_connect a (confirm_tunnel e a h)"
  using schedule_same_connect [of "a\<lparr>a_tunnel_fail := 0\<rparr>"]
  by (auto simp: confirm_tunnel_def view_simps)

lemma restart_same_connect:
  assumes run: "do_tunnel_restart e ob a h = (a', h')"
  shows "same_connect a a'"
proof (cases "a_quitting a \<or> sup_tunnel (a_sup a) = None")
  case True
  with run have "a' = a \<or> a' = a\<lparr>a_tunnel_restarting := False\<rparr>" by (auto simp: do_tunnel_restart_def split: if_splits)
  then show ?thesis by (auto simp: view_simps)
next
  case False
  then obtain t where t: "sup_tunnel (a_sup a) = Some t" "\<not> a_quitting a" by auto
  obtain r t1 h1 where re: "restart e (se_tunnel (o_sup ob)) t h = (r, t1, h1)" by (cases "restart e (se_tunnel (o_sup ob)) t h")
  let ?b = "a\<lparr>a_tunnel_restarting := False\<rparr>"
  have b: "same_connect a (set_tunnel t2 ?b)" for t2 by (simp add: view_simps)
  from run t re consider "a' = set_tunnel t1 a" | "a' = snd (rewatch ob (set_tunnel (reset_backoff t1) ?b))"
    | "a' = schedule_tunnel_restart (set_tunnel t1 ?b)"
    by (auto simp: do_tunnel_restart_def split: res.splits prod.splits bool.splits)
  then show ?thesis
    using b rewatch_same schedule_same_connect same_connect_trans set_tunnel_same by cases blast+
qed

lemma poll_same_connect: "poll e iv ob a h = (k, a', h') \<Longrightarrow> same_connect a a'"
proof -
  assume run: "poll e iv ob a h = (k, a', h')"
  then consider "a' = a" | "a' = schedule_tunnel_restart a" | s1 where "a' = a\<lparr>a_sup := s1\<rparr>"
    | s1 r where "rewatch ob (a\<lparr>a_sup := s1\<rparr>) = (r, a')"
    by (auto simp: poll_def split: if_splits prod.splits res.splits exn.splits)
  then show ?thesis
  proof cases
    case (4 s1 r)
    have "same_connect a (a\<lparr>a_sup := s1\<rparr>)" by (simp add: view_simps)
    with rewatch_same [of "a\<lparr>a_sup := s1\<rparr>" ob] same_connect_trans show ?thesis unfolding 4 by simp
  qed (simp_all add: schedule_same_connect, simp_all add: view_simps)
qed

lemma open_window_connect: "connect_inv a \<Longrightarrow> connect_inv (snd (open_window d a))"
  by (auto simp: open_window_def connect_inv_def connecting_def retries_pending_def split: opened.split)

lemma quit_connect: "connect_inv a \<Longrightarrow> connect_inv (fst (quit e ob a h))"
  by (auto simp: quit_def connect_inv_def connecting_def retries_pending_def Let_def split: prod.split)

lemma show_connect: "connect_inv a \<Longrightarrow> connect_inv (maybe_show_connect a)"
  by (auto simp: maybe_show_connect_def connect_inv_def connecting_def retries_pending_def)

lemma callback_connect:
  assumes "connect_inv a" "x \<noteq> RetryConnect" "callback e iv ob x a h = (k, a', h')"
  shows "connect_inv a'"
proof (cases x)
  case Poll
  with assms(3) have "same_connect a a'" by (intro poll_same_connect) simp
  with assms(1) show ?thesis by (rule same_connect_inv [rotated])
next
  case Heartbeat
  with assms(3) have "same_connect a a'" by (auto simp: heartbeat_def view_simps split: if_splits)
  with assms(1) show ?thesis by (rule same_connect_inv [rotated])
next
  case Probe
  with assms(3) have "same_connect a a'" by (intro probe_same_connect) (auto split: prod.splits)
  with assms(1) show ?thesis by (rule same_connect_inv [rotated])
next
  case Confirm
  with assms(3) confirm_same_connect [of a e h] have "same_connect a a'" by auto
  with assms(1) show ?thesis by (rule same_connect_inv [rotated])
next
  case (Restart d)
  with assms(3) have "same_connect a a'" by (auto intro: restart_same_connect)
  with assms(1) show ?thesis by (rule same_connect_inv [rotated])
next
  case SigTerm with assms quit_connect [OF assms(1), of e ob h] show ?thesis by simp
next
  case SigInt with assms quit_connect [OF assms(1), of e ob h] show ?thesis by simp
qed (use assms show_connect open_window_connect in auto)

text \<open>The retry and the end of the connecting worker hand the one attempt over to each other.\<close>

lemma retry_connect_inv:
  assumes "connect_inv a" "RetryConnect \<in> set (a_sources a)"
  shows "connect_inv (retry_connect (a\<lparr>a_sources := remove1 RetryConnect (a_sources a)\<rparr>))"
proof -
  have "0 < retries_pending a" using assms(2) by (simp add: retries_pending_def count_list_pos)
  with assms(1) have "retries_pending a = 1" "connecting a = 0" "\<not> a_connect_busy a"
    by (auto simp: connect_inv_def split: if_splits)
  with assms(1) show ?thesis
    by (auto simp: retry_connect_def try_connect_def connect_inv_def view_simps count_list_remove1)
qed

lemma on_connected_inv:
  assumes "connect_inv (a\<lparr>a_awaiting := False, a_connect_window := False\<rparr>)"
  shows "connect_inv (on_connected ob a)"
proof -
  let ?a = "(set_connect_state ''connected'' ''connected'' (a\<lparr>a_awaiting := False\<rparr>))\<lparr>a_connect_window := False\<rparr>"
  have "connect_inv ?a" using assms by (simp add: connect_inv_def view_simps)
  with open_window_connect show ?thesis by (simp add: on_connected_def Let_def)
qed

lemma finish_connect_inv:
  assumes "connect_inv a" "w \<in> set (a_workers a)" "finish e iv ob w a h = (a', h')"
  shows "connect_inv a'"
proof (cases "w = Connecting")
  case True
  with assms(2) have "0 < connecting a" by (simp add: connecting_def count_list_pos)
  with assms(1) have one: "connecting a = 1" "retries_pending a = 0" by (auto simp: connect_inv_def)
  obtain r s1 h1 where ens: "sup_ensure e iv (o_daemons ob) (o_sup ob) (a_sup a) h = (r, s1, h1)"
    by (cases "sup_ensure e iv (o_daemons ob) (o_sup ob) (a_sup a) h")
  let ?b = "a\<lparr>a_workers := remove1 Connecting (a_workers a), a_sup := s1, a_connect_busy := False\<rparr>"
  have b: "connect_inv (?b\<lparr>a_awaiting := False, a_connect_window := False\<rparr>)" "\<not> a_awaiting a \<Longrightarrow> connect_inv ?b"
    using assms(1) one by (auto simp: connect_inv_def view_simps count_list_remove1)
  have retry: "connect_inv (add_source RetryConnect (set_connect_state x y ?b))" if "a_awaiting a" for x y
    using assms(1) one that by (auto simp: connect_inv_def view_simps count_list_remove1)
  have "a' = connect_done e ob (is_ok r) (a\<lparr>a_workers := remove1 Connecting (a_workers a), a_sup := s1\<rparr>) h1"
    using assms(3) True ens by (auto simp: finish_def connect_worker_def)
  then show ?thesis using b retry on_connected_inv [OF b(1)] by (auto simp: connect_done_def Let_def)
next
  case False
  then have "same_connect a a'" using assms(3) by (auto simp: finish_def view_simps count_list_remove1)
  with assms(1) show ?thesis by (rule same_connect_inv [rotated])
qed

lemma fire_connect_inv:
  assumes "connect_inv a" "x \<in> set (a_sources a)" "fire e iv ob x a h = (a', h')"
  shows "connect_inv a'"
proof (cases "x = RetryConnect")
  case True
  with assms retry_connect_inv show ?thesis by (auto simp: fire_def)
next
  case False
  let ?a = "a\<lparr>a_sources := remove1 x (a_sources a)\<rparr>"
  obtain k a1 h1 where run: "callback e iv ob x ?a h = (k, a1, h1)" by (cases "callback e iv ob x ?a h")
  have "same_connect a ?a" using False by (simp add: view_simps count_list_remove1)
  with assms(1) have "connect_inv ?a" by (rule same_connect_inv [rotated])
  with False run have "connect_inv a1" by (blast intro: callback_connect)
  moreover have "same_connect a1 (add_source x a1)" using False by (simp add: view_simps)
  ultimately have "connect_inv (add_source x a1)" "connect_inv a1" using same_connect_inv by blast+
  with assms(3) run show ?thesis by (auto simp: fire_def)
qed

section \<open>The restart of the tunnel\<close>

text \<open>Only the callbacks that watch the tunnel touch the flag and the scheduled restart.\<close>

lemma open_window_same_restart: "same_restart a (snd (open_window d a))"
  by (auto simp: open_window_def view_simps split: opened.split)

lemma quit_same_restart: "same_restart a (fst (quit e ob a h))"
  by (auto simp: quit_def view_simps Let_def split: prod.split)

lemma try_connect_same_restart: "same_restart a (try_connect a)"
  by (simp add: try_connect_def view_simps)

lemma connect_done_same_restart: "same_restart a (connect_done e ob ok a h)"
proof -
  have one: "same_restart a (add_source RetryConnect (set_connect_state x y (a\<lparr>a_connect_busy := False\<rparr>)))" for x y
    by (simp add: view_simps)
  have two: "same_restart a (a\<lparr>a_connect_busy := False\<rparr>)" by (simp add: view_simps)
  have three: "same_restart b (on_connected ob b)" for b
  proof -
    let ?b = "(set_connect_state ''connected'' ''connected'' (b\<lparr>a_awaiting := False\<rparr>))\<lparr>a_connect_window := False\<rparr>"
    have "same_restart b ?b" by (simp add: view_simps)
    then show ?thesis
      using open_window_same_restart [of ?b "o_dialogs ob"] same_restart_trans by (auto simp: on_connected_def Let_def)
  qed
  show ?thesis using one two three same_restart_trans by (auto simp: connect_done_def Let_def)
qed

lemma finish_same_restart: "finish e iv ob w a h = (a', h') \<Longrightarrow> same_restart a a'"
proof -
  assume run: "finish e iv ob w a h = (a', h')"
  let ?a = "a\<lparr>a_workers := remove1 w (a_workers a)\<rparr>"
  have a: "same_restart a (?a\<lparr>a_sup := s\<rparr>)" "same_restart a ?a" for s by (simp_all add: view_simps)
  show ?thesis
  proof (cases "w = Connecting")
    case True
    with run obtain s ok h1 where "a' = connect_done e ob ok (?a\<lparr>a_sup := s\<rparr>) h1"
      by (auto simp: finish_def connect_worker_def split: prod.splits)
    then show ?thesis using same_restart_trans [OF a(1) connect_done_same_restart] by blast
  qed (use run a in \<open>auto simp: finish_def\<close>)
qed

lemma restart_inv_flag: "restart_inv a \<Longrightarrow> restart_inv (a\<lparr>a_tunnel_fail := n\<rparr>)"
  by (simp add: restart_inv_def restart_sources_def)

lemma probe_restart_inv:
  assumes "restart_inv a" "probe_tunnel e ob a h = (k, a')" shows "restart_inv a'"
proof -
  from assms(2) consider "a' = a" | "a' = add_source Confirm (a\<lparr>a_tunnel_fail := 1\<rparr>)"
    | "a' = schedule_tunnel_restart (a\<lparr>a_tunnel_fail := 0\<rparr>)"
    | t b where "a' = (set_tunnel t a)\<lparr>a_tunnel_fail := 0, a_daemon_down_logged := b\<rparr>"
    by (auto simp: probe_tunnel_def split: if_splits option.splits prod.splits)
  then show ?thesis
    using assms(1) schedule_restart_inv [OF restart_inv_flag [OF assms(1)]]
    by cases (auto simp: restart_inv_def restart_sources_def add_source_def set_tunnel_def)
qed

lemma confirm_restart_inv: "restart_inv a \<Longrightarrow> restart_inv (confirm_tunnel e a h)"
  using restart_inv_flag schedule_restart_inv by (auto simp: confirm_tunnel_def)

lemma poll_restart_inv:
  assumes "restart_inv a" "poll e iv ob a h = (k, a', h')" shows "restart_inv a'"
proof -
  have sup: "restart_inv (a\<lparr>a_sup := s\<rparr>)" for s using assms(1) by (simp add: restart_inv_def restart_sources_def)
  from assms(2) consider "a' = a" | "a' = schedule_tunnel_restart a" | s where "a' = a\<lparr>a_sup := s\<rparr>"
    | s r where "rewatch ob (a\<lparr>a_sup := s\<rparr>) = (r, a')"
    by (auto simp: poll_def split: if_splits prod.splits res.splits exn.splits)
  then show ?thesis
  proof cases
    case (4 s r)
    with rewatch_same [of "a\<lparr>a_sup := s\<rparr>" ob] sup show ?thesis by (auto intro: same_restart_inv)
  qed (use assms(1) schedule_restart_inv sup in auto)
qed

text \<open>When the scheduled restart runs, no other is scheduled.\<close>

lemma restart_fires:
  assumes "restart_inv a" "Restart d \<in> set (a_sources a)"
    and "do_tunnel_restart e ob (a\<lparr>a_sources := remove1 (Restart d) (a_sources a)\<rparr>) h = (a', h')"
  shows "restart_inv a'"
proof -
  let ?a = "a\<lparr>a_sources := remove1 (Restart d) (a_sources a)\<rparr>"
  have "Restart d \<in> set (restart_sources a)" using assms(2) by (simp add: restart_sources_def)
  with assms(1) have "restart_sources a = [Restart d]"
    by (auto simp: restart_inv_def length_Suc_conv le_Suc_eq split: if_splits)
  then have none: "restart_sources ?a = []" by (simp add: restart_sources_def filter_remove1)
  have idle: "restart_inv (set_tunnel t (?a\<lparr>a_tunnel_restarting := b\<rparr>))" "restart_inv (set_tunnel t ?a)"
    "restart_inv (?a\<lparr>a_tunnel_restarting := b\<rparr>)" "restart_inv ?a" for t b
    using none by (simp_all add: restart_inv_def restart_sources_def set_tunnel_def)
  from assms(3) consider "a' = ?a\<lparr>a_tunnel_restarting := False\<rparr>" | "a' = ?a" | t where "a' = set_tunnel t ?a"
    | t where "a' = snd (rewatch ob (set_tunnel t (?a\<lparr>a_tunnel_restarting := False\<rparr>)))"
    | t where "a' = schedule_tunnel_restart (set_tunnel t (?a\<lparr>a_tunnel_restarting := False\<rparr>))"
    by (auto simp: do_tunnel_restart_def split: if_splits option.splits res.splits prod.splits bool.splits)
  then show ?thesis
  proof cases
    case (4 t)
    show ?thesis unfolding 4 by (rule same_restart_inv [OF rewatch_same [THEN conjunct2] idle(1)])
  qed (use idle schedule_restart_inv in auto)
qed

lemma fire_restart_inv:
  assumes "restart_inv a" "x \<in> set (a_sources a)" "fire e iv ob x a h = (a', h')"
  shows "restart_inv a'"
proof (cases "is_restart x")
  case True
  then obtain d where "x = Restart d" by (cases x) auto
  with assms restart_fires [OF assms(1), of d e ob h a' h'] show ?thesis by (simp add: fire_def split: prod.splits)
next
  case False
  let ?a = "a\<lparr>a_sources := remove1 x (a_sources a)\<rparr>"
  obtain k a1 h1 where run: "callback e iv ob x ?a h = (k, a1, h1)" by (cases "callback e iv ob x ?a h")
  have a: "restart_inv ?a" using assms(1) False
    by (simp add: restart_inv_def restart_sources_def filter_remove1 remove1_idem)
  have same: "restart_inv b" if "same_restart ?a b" for b using that a by (rule same_restart_inv)
  have "restart_inv a1"
  proof (cases x)
    case Poll with run a show ?thesis by (auto intro: poll_restart_inv)
  next
    case Heartbeat with run show ?thesis by (intro same) (auto simp: heartbeat_def view_simps split: if_splits)
  next
    case Probe with run a show ?thesis by (auto intro: probe_restart_inv split: prod.splits)
  next
    case Confirm with run confirm_restart_inv [OF a, of e h] show ?thesis by auto
  next
    case RetryConnect
    with run try_connect_same_restart [of ?a] show ?thesis
      by (intro same) (auto simp: retry_connect_def same_restart_def split: if_splits)
  next
    case ShowConnect with run show ?thesis by (intro same) (auto simp: maybe_show_connect_def view_simps split: if_splits)
  next
    case SigUsr1 with run open_window_same_restart [of ?a] show ?thesis by (intro same) auto
  next
    case SigTerm with run quit_same_restart [of ?a e ob h] show ?thesis by (intro same) auto
  next
    case SigInt with run quit_same_restart [of ?a e ob h] show ?thesis by (intro same) auto
  qed (use False in simp)
  with False have "restart_inv (add_source x a1)" by (simp add: restart_inv_def restart_sources_def add_source_def)
  with \<open>restart_inv a1\<close> assms(3) run show ?thesis by (auto simp: fire_def)
qed

lemma app_step_inv:
  assumes "app_step e iv s s'" "restart_inv (fst s)" "connect_inv (fst s)"
  shows "restart_inv (fst s') \<and> connect_inv (fst s')"
  using assms
proof (induction rule: app_step.induct)
  case (Fire x a h ob)
  then show ?case using fire_restart_inv fire_connect_inv by (cases "fire e iv ob x a h") auto
next
  case (Finish w a h ob)
  obtain a1 h1 where run: "finish e iv ob w a h = (a1, h1)" by (cases "finish e iv ob w a h")
  have "restart_inv a1" using finish_same_restart [OF run] Finish.prems by (auto intro: same_restart_inv)
  with finish_connect_inv [OF _ Finish.hyps run] Finish.prems run show ?case by simp
next
  case (UserOpen a h d)
  then show ?case using open_window_connect same_restart_inv [OF open_window_same_restart] by simp
next
  case (UserQuit a h ob)
  then show ?case using quit_connect [of a e ob h] same_restart_inv [OF quit_same_restart [of a e ob h]] by simp
qed simp

lemma app_runs_inv:
  assumes "app_runs e iv s s'" "restart_inv (fst s)" "connect_inv (fst s)"
  shows "restart_inv (fst s') \<and> connect_inv (fst s')"
  using assms by (induction rule: app_runs.induct) (auto dest: app_step_inv)

text \<open>The state in which the main loop starts.\<close>

definition fresh_app :: "app \<Rightarrow> bool" where
  "fresh_app a \<longleftrightarrow> a_sources a = [] \<and> a_workers a = [] \<and> \<not> a_window a \<and> \<not> a_connect_window a \<and>
     \<not> a_quitting a \<and> \<not> a_awaiting a \<and> \<not> a_connect_busy a"

lemma fresh_inv: "fresh_app a \<Longrightarrow> restart_inv a \<and> connect_inv a"
  by (simp add: fresh_app_def restart_inv_def connect_inv_def view_simps)

lemma begin_connect_inv:
  assumes "fresh_app a" shows "restart_inv (begin_connect b a) \<and> connect_inv (begin_connect b a)"
  using assms by (cases b)
    (simp_all add: fresh_app_def begin_connect_def try_connect_def restart_inv_def connect_inv_def view_simps)

lemma register_inv: "restart_inv a \<Longrightarrow> connect_inv a \<Longrightarrow> restart_inv (register_sources a) \<and> connect_inv (register_sources a)"
  by (auto simp: register_sources_def restart_inv_def connect_inv_def view_simps)

lemma app_setup_inv:
  assumes "app_setup e iv dk ob show_it (app_init s) h = (Ok None, a, h')"
  shows "restart_inv a \<and> connect_inv a"
proof -
  have "fresh_app ((app_init s)\<lparr>a_lock := True, a_sup := s1, a_have_tray := x, a_embedded := y\<rparr>)"
    and "fresh_app ((app_init s)\<lparr>a_lock := True, a_have_tray := x, a_embedded := y\<rparr>)" for s1 x y
    by (simp_all add: fresh_app_def app_init_def)
  with assms obtain b h3 a4 where fresh: "fresh_app b" and win: "setup_window e iv ob show_it b h3 = (Ok None, a4)"
    and a: "a = register_sources a4"
    by (auto simp: app_setup_def Let_def split: prod.splits if_splits res.splits exn.splits option.splits) blast+
  from win consider "a4 = b" | d where "a4 = snd (open_window d b)" | v where "a4 = begin_connect v b"
    unfolding setup_window_def by (auto split: if_splits prod.splits res.splits) (metis snd_conv)+
  then have "restart_inv a4 \<and> connect_inv a4"
    using fresh_inv [OF fresh] begin_connect_inv [OF fresh] open_window_connect same_restart_inv [OF open_window_same_restart]
    by cases auto
  with register_inv a show ?thesis by blast
qed

section \<open>Sources that are gone\<close>

text \<open>No callback adds the liveness probe or the handler of \<open>SIGUSR1\<close>.\<close>

definition registered_once :: "source \<Rightarrow> bool" where
  "registered_once x \<longleftrightarrow> x = Probe \<or> x = SigUsr1"

lemma schedule_count: "registered_once x \<Longrightarrow> count_list (a_sources (schedule_tunnel_restart a)) x = count_list (a_sources a) x"
  by (auto simp: schedule_tunnel_restart_def registered_once_def view_simps split: option.split prod.split)

lemma open_window_sources: "a_sources (snd (open_window d a)) = a_sources a"
  by (simp add: open_window_def split: opened.split)

lemma quit_sources: "a_sources (fst (quit e ob a h)) = a_sources a"
  by (simp add: quit_def Let_def split: prod.split)

lemma rewatch_sources: "a_sources (snd (rewatch ob a)) = a_sources a"
  by (simp add: rewatch_def add_worker_def split: res.split)

lemma poll_count:
  assumes "registered_once x" "poll e iv ob a h = (k, a', h')"
  shows "count_list (a_sources a') x = count_list (a_sources a) x"
proof -
  from assms(2) consider "a' = a" | "a' = schedule_tunnel_restart a" | s where "a' = a\<lparr>a_sup := s\<rparr>"
    | s r where "rewatch ob (a\<lparr>a_sup := s\<rparr>) = (r, a')"
    by (auto simp: poll_def split: if_splits prod.splits res.splits exn.splits)
  then show ?thesis
  proof cases
    case (4 s r)
    with rewatch_sources [of ob "a\<lparr>a_sup := s\<rparr>"] show ?thesis by simp
  qed (use schedule_count [OF assms(1)] in auto)
qed

lemma restart_count:
  assumes "registered_once x" "do_tunnel_restart e ob a h = (a', h')"
  shows "count_list (a_sources a') x = count_list (a_sources a) x"
proof -
  from assms(2) consider "a' = a\<lparr>a_tunnel_restarting := False\<rparr>" | "a' = a" | t where "a' = set_tunnel t a"
    | t where "a' = snd (rewatch ob (set_tunnel t (a\<lparr>a_tunnel_restarting := False\<rparr>)))"
    | t where "a' = schedule_tunnel_restart (set_tunnel t (a\<lparr>a_tunnel_restarting := False\<rparr>))"
    by (auto simp: do_tunnel_restart_def split: if_splits option.splits res.splits prod.splits bool.splits)
  then show ?thesis
    by cases (auto simp: rewatch_sources schedule_count [OF assms(1)] set_tunnel_def)
qed

lemma callback_count:
  assumes "registered_once x" "callback e iv ob y a h = (k, a', h')"
  shows "count_list (a_sources a') x = count_list (a_sources a) x"
proof (cases y)
  case Poll with assms poll_count [OF assms(1)] show ?thesis by simp
next
  case Probe with assms show ?thesis
    by (auto simp: probe_tunnel_def schedule_count registered_once_def set_tunnel_def add_source_def count_list_append
        split: if_splits option.splits prod.splits)
next
  case (Restart d) with assms show ?thesis using restart_count [OF assms(1)] by auto
next
  case SigTerm with assms quit_sources [of e ob a h] show ?thesis by simp
next
  case SigInt with assms quit_sources [of e ob a h] show ?thesis by simp
qed (use assms in \<open>auto simp: heartbeat_def confirm_tunnel_def schedule_count maybe_show_connect_def retry_connect_def
      try_connect_def open_window_sources add_worker_def set_connect_state_def split: if_splits\<close>)

lemma finish_count:
  assumes "registered_once x" "finish e iv ob w a h = (a', h')"
  shows "count_list (a_sources a') x = count_list (a_sources a) x"
proof -
  have "count_list (a_sources (connect_done e ob ok b h)) x = count_list (a_sources b) x" for ok b h
    using assms(1) by (auto simp: connect_done_def on_connected_def Let_def open_window_sources set_connect_state_def
        add_source_def count_list_append registered_once_def)
  with assms(2) show ?thesis by (auto simp: finish_def Let_def connect_worker_def split: if_splits prod.splits)
qed

lemma fire_count:
  assumes "registered_once x" "y \<in> set (a_sources a)" "fire e iv ob y a h = (a', h')"
  shows "count_list (a_sources a') x \<le> count_list (a_sources a) x"
proof -
  obtain k a1 h1 where run: "callback e iv ob y (a\<lparr>a_sources := remove1 y (a_sources a)\<rparr>) h = (k, a1, h1)"
    by (cases "callback e iv ob y (a\<lparr>a_sources := remove1 y (a_sources a)\<rparr>) h")
  have "0 < count_list (a_sources a) y" using assms(2) by (rule count_list_pos)
  with callback_count [OF assms(1) run] assms(3) run show ?thesis
    by (auto simp: fire_def add_source_def count_list_append count_list_remove1 split: if_splits)
qed

lemma app_runs_count:
  assumes "app_runs e iv s s'" "registered_once x"
  shows "count_list (a_sources (fst s')) x \<le> count_list (a_sources (fst s)) x"
  using assms
proof (induction rule: app_runs.induct)
  case (more s s1 s2)
  have "count_list (a_sources (fst s2)) x \<le> count_list (a_sources (fst s1)) x"
    using more.hyps(2)
  proof (cases rule: app_step.cases)
    case (Fire y a h ob)
    with fire_count [OF more.prems, of y a e iv ob h] show ?thesis by (cases "fire e iv ob y a h") simp
  next
    case (Finish w a h ob)
    with finish_count [OF more.prems, of e iv ob w a h] show ?thesis by (cases "finish e iv ob w a h") simp
  qed (simp_all add: open_window_sources quit_sources)
  with more.IH [OF more.prems] show ?case by simp
qed simp

lemma app_setup_count:
  assumes "app_setup e iv dk ob show_it (app_init s) h = (Ok None, a, h')" "registered_once x"
  shows "count_list (a_sources a) x \<le> 1"
proof -
  have fresh: "a_sources ((app_init s)\<lparr>a_lock := True, a_sup := s1, a_have_tray := y, a_embedded := z\<rparr>) = []"
    "a_sources ((app_init s)\<lparr>a_lock := True, a_have_tray := y, a_embedded := z\<rparr>) = []" for s1 y z
    by (simp_all add: app_init_def)
  from assms(1) obtain b h3 a4 where "a_sources b = []" and win: "setup_window e iv ob show_it b h3 = (Ok None, a4)"
    and a: "a = register_sources a4"
    by (auto simp: app_setup_def Let_def split: prod.splits if_splits res.splits exn.splits option.splits) (use fresh in blast)+
  with win consider "a4 = b" | d where "a4 = snd (open_window d b)" | v where "a4 = begin_connect v b"
    unfolding setup_window_def by (auto split: if_splits prod.splits res.splits) (metis snd_conv)+
  then have "count_list (a_sources a4) x = 0"
    using \<open>a_sources b = []\<close> assms(2) by cases
      (auto simp: open_window_sources begin_connect_def try_connect_def add_source_def add_worker_def set_connect_state_def
        registered_once_def Let_def)
  with a assms(2) show ?thesis by (auto simp: register_sources_def count_list_append registered_once_def)
qed

text \<open>A restart that raises leaves the flag set with nothing scheduled, and nothing clears it.\<close>

definition wedged :: "app \<Rightarrow> bool" where
  "wedged a \<longleftrightarrow> a_tunnel_restarting a \<and> restart_sources a = []"

lemma wedged_same: "same_restart a b \<Longrightarrow> wedged a \<Longrightarrow> wedged b"
  by (simp add: wedged_def same_restart_def)

lemma poll_wedged:
  assumes "wedged a" "poll e iv ob a h = (k, a', h')" shows "wedged a'"
proof -
  from assms consider "a' = a" | s where "a' = a\<lparr>a_sup := s\<rparr>" | s r where "rewatch ob (a\<lparr>a_sup := s\<rparr>) = (r, a')"
    by (auto simp: poll_def wedged_def split: if_splits prod.splits res.splits exn.splits)
  then show ?thesis
  proof cases
    case (3 s r)
    with rewatch_same [of "a\<lparr>a_sup := s\<rparr>" ob] assms(1) show ?thesis by (simp add: wedged_def view_simps)
  qed (use assms(1) in \<open>auto simp: wedged_def restart_sources_def\<close>)
qed

lemma fire_wedged:
  assumes "wedged a" "x \<in> set (a_sources a)" "fire e iv ob x a h = (a', h')"
  shows "wedged a'"
proof -
  let ?a = "a\<lparr>a_sources := remove1 x (a_sources a)\<rparr>"
  have x: "\<not> is_restart x" using assms(1,2) by (auto simp: wedged_def restart_sources_def filter_empty_conv)
  have a: "wedged ?a" using assms(1) by (simp add: wedged_def restart_sources_def filter_remove1)
  obtain k a1 h1 where run: "callback e iv ob x ?a h = (k, a1, h1)" by (cases "callback e iv ob x ?a h")
  have same: "wedged b" if "same_restart ?a b" for b using that a by (rule wedged_same)
  have "wedged a1"
  proof (cases x)
    case Poll with run a show ?thesis by (auto intro: poll_wedged)
  next
    case Probe with run a show ?thesis
      by (intro same) (auto simp: probe_tunnel_def wedged_def same_restart_def split: if_splits)
  next
    case SigTerm with run quit_same_restart [of ?a e ob h] show ?thesis by (intro same) auto
  next
    case SigInt with run quit_same_restart [of ?a e ob h] show ?thesis by (intro same) auto
  next
    case SigUsr1 with run open_window_same_restart [of ?a] show ?thesis by (intro same) auto
  qed (use x run a in \<open>auto simp: heartbeat_def confirm_tunnel_def maybe_show_connect_def retry_connect_def try_connect_def
        wedged_def view_simps split: if_splits\<close>)
  moreover from this have "wedged (add_source x a1)" using x by (simp add: wedged_def restart_sources_def add_source_def)
  ultimately show ?thesis using assms(3) run by (auto simp: fire_def)
qed

lemma app_runs_wedged: "app_runs e iv s s' \<Longrightarrow> wedged (fst s) \<Longrightarrow> wedged (fst s')"
proof (induction rule: app_runs.induct)
  case (more s s1 s2)
  from more.hyps(2) show ?case
  proof (cases rule: app_step.cases)
    case (Fire y a h ob)
    with more fire_wedged [of a y e iv ob h] show ?thesis by (cases "fire e iv ob y a h") simp
  next
    case (Finish w a h ob)
    obtain a' h' where run: "finish e iv ob w a h = (a', h')" by (cases "finish e iv ob w a h")
    from Finish more have "wedged a" by simp
    with finish_same_restart [OF run] have "wedged a'" by (rule wedged_same)
    with Finish run show ?thesis by simp
  next
    case (UserOpen a h d)
    with more wedged_same [OF open_window_same_restart [of a d]] show ?thesis by simp
  next
    case (UserQuit a h ob)
    with more wedged_same [OF quit_same_restart [of a e ob h]] show ?thesis by simp
  next
    case (World a h h')
    with more show ?thesis by simp
  qed
qed simp

section \<open>Properties\<close>

text \<open>
  C35: whatever the events after a successful start, at most one restart of the tunnel is
  scheduled, with a delay of 2 to 30 seconds and only while the flag says so; at most one attempt
  at the first connection runs; while the connection is awaited exactly one attempt runs or is
  scheduled, so it is neither given up nor doubled; the status window and the main window are
  never both open.
\<close>

theorem one_restart_one_attempt:
  assumes "app_setup e iv dk ob show_it (app_init s) h = (Ok None, a0, h0)" and "app_runs e iv (a0, h0) (a, h1)"
  shows "length (restart_sources a) \<le> (if a_tunnel_restarting a then 1 else 0) \<and> list_all delay_ok (restart_sources a) \<and>
    connecting a \<le> 1 \<and> (a_awaiting a \<longrightarrow> connecting a + retries_pending a = 1) \<and>
    (a_connect_window a \<and> \<not> a_quitting a \<longrightarrow> a_awaiting a \<and> \<not> a_window a)"
  using app_runs_inv [OF assms(2)] app_setup_inv [OF assms(1)] by (auto simp: restart_inv_def connect_inv_def)

text \<open>With a remote daemon and no local one, the first instance always reaches its main loop.\<close>

lemma external_start:
  assumes "external s" "listener (o_daemons ob) = Map.empty" "d_openable dk" "\<not> d_locked dk"
  obtains a0 h0 where "app_setup e iv dk ob show_it (app_init s) h = (Ok None, a0, h0)" "a_awaiting a0"
proof -
  have "\<not> local_daemon_running e iv (o_daemons ob) s' h'" for s' h'
    using assms(2) by (simp add: local_daemon_running_def connects_def Let_def)
  moreover have "a_awaiting (begin_connect b a)" for a b
    by (simp add: begin_connect_def try_connect_def view_simps Let_def)
  ultimately show thesis
    using that assms(1,3,4)
    by (auto simp: app_setup_def acquire_app_lock_def setup_window_def no_window_headless_def app_init_def
        register_sources_def Let_def)
qed

theorem one_restart_one_attempt_witness:
  "\<exists>a0 h0. app_setup \<lparr>environ = Map.empty, home_dir = ''/h''\<rparr>
      \<lparr>argv0 = ''aimless'', getcwd = ''/h'', which = Map.empty, executable = ''python3'', self_pid = 5\<rparr>
      \<lparr>d_openable = True, d_locked = False, d_tray = False, d_embedded = False\<rparr>
      \<lparr>o_daemons = \<lparr>listener = Map.empty, answers = \<lambda>_ _. Err (OSError [])\<rparr>,
       o_sup = \<lparr>se_tunnel = \<lparr>e_pid = None, e_proc = \<lparr>argv = [], zombie = False, dies_on_term = True\<rparr>, e_polls = [],
           e_socket = \<lparr>fmode = 0, fdata = []\<rparr>\<rparr>, se_pid = None, se_proc = \<lparr>argv = [], zombie = False, dies_on_term = True\<rparr>,
           se_polls = [], se_reach = []\<rparr>,
       o_probe = Err (OSError []), o_now = 0, o_contacts = Ok [],
       o_dialogs = \<lparr>identity_exists = False, create_answers = [], pass_answers = [],
           make_session = \<lambda>_. Ok (), make_identity = \<lambda>_ _. Ok ()\<rparr>, o_pids = []\<rparr> True
      (app_init \<lparr>sup_remote = Some \<lparr>r_host = ''u'', r_socket = ''/s'', r_local_socket = ''/l''\<rparr>,
         sup_tunnel = Some (tunnel_init \<lparr>r_host = ''u'', r_socket = ''/s'', r_local_socket = ''/l''\<rparr>),
         sup_datadir = None, sup_sock = ''/l'', sup_child = None\<rparr>)
      \<lparr>procs = Map.empty, signals = [], hfs = \<lparr>files = Map.empty, dirs = Map.empty\<rparr>\<rparr> = (Ok None, a0, h0) \<and>
    connecting a0 + retries_pending a0 = 1"
proof -
  let ?dk = "\<lparr>d_openable = True, d_locked = False, d_tray = False, d_embedded = False\<rparr> :: desktop"
  let ?ob = "\<lparr>o_daemons = \<lparr>listener = Map.empty, answers = \<lambda>_ _. Err (OSError [])\<rparr>,
       o_sup = \<lparr>se_tunnel = \<lparr>e_pid = None, e_proc = \<lparr>argv = [], zombie = False, dies_on_term = True\<rparr>, e_polls = [],
           e_socket = \<lparr>fmode = 0, fdata = []\<rparr>\<rparr>, se_pid = None, se_proc = \<lparr>argv = [], zombie = False, dies_on_term = True\<rparr>,
           se_polls = [], se_reach = []\<rparr>,
       o_probe = Err (OSError []), o_now = 0, o_contacts = Ok [],
       o_dialogs = \<lparr>identity_exists = False, create_answers = [], pass_answers = [],
           make_session = \<lambda>_. Ok (), make_identity = \<lambda>_ _. Ok ()\<rparr>, o_pids = []\<rparr> :: obs"
  let ?s = "\<lparr>sup_remote = Some \<lparr>r_host = ''u'', r_socket = ''/s'', r_local_socket = ''/l''\<rparr>,
         sup_tunnel = Some (tunnel_init \<lparr>r_host = ''u'', r_socket = ''/s'', r_local_socket = ''/l''\<rparr>),
         sup_datadir = None, sup_sock = ''/l'', sup_child = None\<rparr> :: supervisor"
  let ?e = "\<lparr>environ = Map.empty, home_dir = ''/h''\<rparr> :: pyenv"
  let ?iv = "\<lparr>argv0 = ''aimless'', getcwd = ''/h'', which = Map.empty, executable = ''python3'', self_pid = 5\<rparr> :: invocation"
  let ?h = "\<lparr>procs = Map.empty, signals = [], hfs = \<lparr>files = Map.empty, dirs = Map.empty\<rparr>\<rparr> :: host"
  obtain a0 h0 where start: "app_setup ?e ?iv ?dk ?ob True (app_init ?s) ?h = (Ok None, a0, h0)" "a_awaiting a0"
    by (rule external_start [of ?s ?ob ?dk ?e ?iv True ?h]) (simp_all add: external_def)
  with one_restart_one_attempt [OF start(1) app_runs.start] show ?thesis by blast
qed

text \<open>
  the liveness probe of the tunnel is lost for good when it fires while the first connection
  is still awaited, and the handler that shows the window on \<open>SIGUSR1\<close> after its first signal:
  whatever happens afterwards, neither is ever registered again.
\<close>

theorem probe_lost_while_connecting:
  assumes "app_setup e iv dk ob show_it (app_init s) h = (Ok None, a0, h0)" and "app_runs e iv (a0, h0) (a, h1)"
    and "x = Probe \<and> a_awaiting a \<or> x = SigUsr1"
    and "fire e iv ob2 x a h1 = (a1, h2)" and "app_runs e iv (a1, h2) (b, h3)"
  shows "x \<notin> set (a_sources b)"
proof -
  have once: "registered_once x" using assms(3) by (auto simp: registered_once_def)
  have "count_list (a_sources a) x \<le> 1"
    using app_runs_count [OF assms(2) once] app_setup_count [OF assms(1) once] by simp
  then have gone: "count_list (remove1 x (a_sources a)) x = 0" by (simp add: count_list_remove1)
  let ?a = "a\<lparr>a_sources := remove1 x (a_sources a)\<rparr>"
  obtain k a2 h4 where run: "callback e iv ob2 x ?a h1 = (k, a2, h4)" by (cases "callback e iv ob2 x ?a h1")
  have "\<not> k" using assms(3) run by (auto simp: probe_tunnel_def)
  with assms(4) run have "a1 = a2" by (simp add: fire_def)
  with callback_count [OF once run] gone have "count_list (a_sources a1) x = 0" by simp
  with app_runs_count [OF assms(5) once] show ?thesis by (simp add: count_list_0_iff)
qed

theorem probe_lost_while_connecting_witness:
  "\<exists>e iv dk ob s h a0 h0 a1 h1. app_setup e iv dk ob True (app_init s) h = (Ok None, a0, h0) \<and>
     fire e iv ob Probe a0 h0 = (a1, h1) \<and> Probe \<notin> set (a_sources a1)"
proof -
  let ?r = "\<lparr>r_host = ''u'', r_socket = ''/s'', r_local_socket = ''/l''\<rparr> :: remote"
  let ?s = "\<lparr>sup_remote = Some ?r, sup_tunnel = Some (tunnel_init ?r), sup_datadir = None, sup_sock = ''/l'', sup_child = None\<rparr> :: supervisor"
  let ?dk = "\<lparr>d_openable = True, d_locked = False, d_tray = False, d_embedded = False\<rparr> :: desktop"
  let ?h = "\<lparr>procs = Map.empty, signals = [], hfs = \<lparr>files = Map.empty, dirs = Map.empty\<rparr>\<rparr> :: host"
  let ?e = "\<lparr>environ = Map.empty, home_dir = ''/h''\<rparr> :: pyenv"
  let ?iv = "\<lparr>argv0 = ''aimless'', getcwd = ''/h'', which = Map.empty, executable = ''python3'', self_pid = 5\<rparr> :: invocation"
  obtain ob :: obs where ob: "listener (o_daemons ob) = Map.empty"
    by (metis daemons.select_convs(1) obs.select_convs(1))
  obtain a0 h0 where start: "app_setup ?e ?iv ?dk ob True (app_init ?s) ?h = (Ok None, a0, h0)" "a_awaiting a0"
    by (rule external_start [of ?s ob ?dk ?e ?iv True ?h]) (simp_all add: external_def ob)
  obtain a1 h1 where run: "fire ?e ?iv ob Probe a0 h0 = (a1, h1)" by fastforce
  with probe_lost_while_connecting [OF start(1) app_runs.start _ run app_runs.start] start show ?thesis by blast
qed

text \<open>
  C36: when the scheduled restart of the tunnel cannot start \<open>ssh\<close> at all, the exception leaves the
  flag set with nothing scheduled: from then on no event ever schedules a restart again.
\<close>

theorem restart_wedges:
  assumes "restart_inv a" and "Restart d \<in> set (a_sources a)" and "\<not> a_quitting a"
    and "sup_tunnel (a_sup a) = Some t" and "e_pid (se_tunnel (o_sup ob)) = None"
    and "fire e iv ob (Restart d) a h = (a1, h1)" and "app_runs e iv (a1, h1) (b, h2)"
  shows "a_tunnel_restarting b \<and> restart_sources b = []"
proof -
  let ?a = "a\<lparr>a_sources := remove1 (Restart d) (a_sources a)\<rparr>"
  have "Restart d \<in> set (restart_sources a)" using assms(2) by (simp add: restart_sources_def)
  with assms(1) have "restart_sources a = [Restart d]" "a_tunnel_restarting a"
    by (auto simp: restart_inv_def length_Suc_conv le_Suc_eq split: if_splits)
  then have stuck: "wedged ?a" by (simp add: wedged_def restart_sources_def filter_remove1)
  obtain ex t1 h3 where "restart e (se_tunnel (o_sup ob)) t h = (Err ex, t1, h3)"
    using assms(5) by (cases "stop_tunnel e t h") (simp add: restart_def spawn_def Let_def)
  with assms(3,4,6) have "a1 = set_tunnel t1 ?a" by (auto simp: fire_def do_tunnel_restart_def)
  with stuck set_tunnel_same have "wedged a1" using wedged_same by blast
  with app_runs_wedged [OF assms(7)] show ?thesis by (simp add: wedged_def)
qed

theorem restart_wedges_witness:
  "\<exists>a e iv ob h a1 h1. fire e iv ob (Restart 2) a h = (a1, h1) \<and> a_tunnel_restarting a1 \<and> restart_sources a1 = []"
proof -
  let ?r = "\<lparr>r_host = ''u'', r_socket = ''/s'', r_local_socket = ''/l''\<rparr> :: remote"
  let ?s = "\<lparr>sup_remote = Some ?r, sup_tunnel = Some (tunnel_init ?r), sup_datadir = None, sup_sock = ''/l'', sup_child = None\<rparr> :: supervisor"
  let ?a = "(app_init ?s)\<lparr>a_tunnel_restarting := True, a_sources := [Restart 2]\<rparr>"
  obtain ob :: obs where ob: "e_pid (se_tunnel (o_sup ob)) = None"
    by (metis restart_env.select_convs(1) sup_env.select_convs(1) obs.select_convs(2))
  have "restart_inv ?a" by (simp add: restart_inv_def restart_sources_def delay_ok_def)
  moreover obtain e iv h a1 h1 where run: "fire e iv ob (Restart 2) ?a h = (a1, h1)" by fastforce
  moreover have "Restart 2 \<in> set (a_sources ?a)" "\<not> a_quitting ?a" "sup_tunnel (a_sup ?a) = Some (tunnel_init ?r)"
    by (simp_all add: app_init_def)
  ultimately have "a_tunnel_restarting a1 \<and> restart_sources a1 = []"
    using restart_wedges [OF _ _ _ _ ob run app_runs.start] by blast
  with run show ?thesis by blast
qed
end
