(* ===== verification/UiText.thy ===== *)
theory UiText
  imports Client Service Tunnel
begin

text \<open>
  The functions of \<open>client/aimless/gtkui.py\<close> that compute texts and decisions for the user
  interface: file names of attachments, links in messages, preferences, notification and sound
  rules, window placement, petnames, presence.

  Python's character classes beyond ASCII and GLib's escaping of markup are arguments.
\<close>

section \<open>File names and sizes\<close>

definition name_char :: "char \<Rightarrow> bool" where
  "name_char c \<longleftrightarrow>
     (CHR ''A'' \<le> c \<and> c \<le> CHR ''Z'') \<or> (CHR ''a'' \<le> c \<and> c \<le> CHR ''z'') \<or> (CHR ''0'' \<le> c \<and> c \<le> CHR ''9'') \<or>
     c \<in> {CHR '' '', CHR ''.'', CHR ''_'', CHR ''-''}"

definition strip_chars :: "string \<Rightarrow> string \<Rightarrow> string" where
  "strip_chars cs s = rdropWhile (\<lambda>c. c \<in> set cs) (dropWhile (\<lambda>c. c \<in> set cs) s)"

definition sanitize_filename :: "string \<Rightarrow> string" where
  "sanitize_filename name =
     (let clean = strip_chars '' .'' (filter name_char name)
      in take 64 (if clean = [] then ''file'' else clean))"

text \<open>\<open>f"{x:.1f}"\<close> of \<open>n / d\<close> for a power of two \<open>d\<close>: the quotient is exact, ties go to even.\<close>

definition round_half_even :: "nat \<Rightarrow> nat \<Rightarrow> nat" where
  "round_half_even n d =
     (let q = n div d; r = n mod d
      in if 2 * r < d then q else if d < 2 * r then q + 1 else if even q then q else q + 1)"

definition one_decimal :: "nat \<Rightarrow> nat \<Rightarrow> string" where
  "one_decimal n d = (let t = round_half_even (10 * n) d in nat_digits (t div 10) @ ''.'' @ nat_digits (t mod 10))"

definition human_size :: "nat \<Rightarrow> string" where
  "human_size n =
     (if n < 1024 then nat_digits n @ '' B''
      else if n < 1024 ^ 2 then one_decimal n 1024 @ '' KB''
      else if n < 1024 ^ 3 then one_decimal n (1024 ^ 2) @ '' MB''
      else one_decimal n (1024 ^ 3) @ '' GB'')"

section \<open>Links\<close>

text \<open>
  Messages are scanned as code points. \<open>\w\<close> and \<open>\s\<close> are those of Python's regular expressions:
  \<open>word\<close> decides beyond ASCII, the white space is that of \<open>str.strip\<close>.
\<close>

definition cps_of :: "string \<Rightarrow> nat list" where
  "cps_of s = map of_char s"

definition is_word :: "(nat \<Rightarrow> bool) \<Rightarrow> nat \<Rightarrow> bool" where
  "is_word word c \<longleftrightarrow>
     (if c < 128 then (48 \<le> c \<and> c \<le> 57) \<or> (65 \<le> c \<and> c \<le> 90) \<or> (97 \<le> c \<and> c \<le> 122) \<or> c = 95 else word c)"

definition is_space_cp :: "nat \<Rightarrow> bool" where
  "is_space_cp c \<longleftrightarrow> utf8_cp c \<in> set py_spaces"

definition url_char :: "nat \<Rightarrow> bool" where
  "url_char c \<longleftrightarrow> \<not> is_space_cp c \<and> c \<notin> {60, 62, 34, 39}"

text \<open>The length of a match of \<open>https?://[^\s<>"']+\<close> at the front, 0 if there is none.\<close>

definition scheme_length :: "nat list \<Rightarrow> nat" where
  "scheme_length xs = (if prefix (cps_of ''http://'') xs then 7 else if prefix (cps_of ''https://'') xs then 8 else 0)"

definition match_url :: "nat list \<Rightarrow> nat" where
  "match_url xs =
     (let n = scheme_length xs; body = takeWhile url_char (drop n xs)
      in if n = 0 \<or> body = [] then 0 else n + length body)"

text \<open>\<open>\b\<close> before the \<open>h\<close>: no word character in front.\<close>

definition boundary :: "(nat \<Rightarrow> bool) \<Rightarrow> nat option \<Rightarrow> bool" where
  "boundary word prev \<longleftrightarrow> (case prev of None \<Rightarrow> True | Some c \<Rightarrow> \<not> is_word word c)"

text \<open>\<open>finditer\<close>: the matches from left to right with their positions.\<close>

function url_spans :: "(nat \<Rightarrow> bool) \<Rightarrow> nat option \<Rightarrow> nat \<Rightarrow> nat list \<Rightarrow> (nat \<times> nat list) list" where
  "url_spans word prev i [] = []"
| "url_spans word prev i (x # xs) =
     (let n = match_url (x # xs)
      in if boundary word prev \<and> 0 < n
         then (i, take n (x # xs)) # url_spans word (Some (last (take n (x # xs)))) (i + n) (drop n (x # xs))
         else url_spans word (Some x) (i + 1) xs)"
  by pat_completeness auto
termination
  by (relation "measure (\<lambda>(word, prev, i, xs). length xs)") auto

definition TRAILING_PUNCT :: "nat list" where
  "TRAILING_PUNCT = cps_of ''.,;:!?)'' @ [39, 93]"

definition trim_url :: "nat list \<Rightarrow> nat list" where
  "trim_url url = rdropWhile (\<lambda>c. c \<in> set TRAILING_PUNCT) url"

definition anchor :: "nat list \<Rightarrow> nat list" where
  "anchor e = cps_of ''<a href='' @ [34] @ e @ [34, 62] @ e @ cps_of ''</a>''"

text \<open>The loop over the matches with the position up to which the text is written.\<close>

fun linkify_loop :: "(nat list \<Rightarrow> nat list) \<Rightarrow> nat list \<Rightarrow> nat \<Rightarrow> (nat \<times> nat list) list \<Rightarrow> nat list" where
  "linkify_loop esc txt pos [] = esc (drop pos txt)"
| "linkify_loop esc txt pos ((start, m) # spans) =
     (let url = trim_url m
      in if url = [] then linkify_loop esc txt pos spans
         else esc (take (start - pos) (drop pos txt)) @ anchor (esc url) @ linkify_loop esc txt (start + length url) spans)"

definition linkify :: "(nat \<Rightarrow> bool) \<Rightarrow> (nat list \<Rightarrow> nat list) \<Rightarrow> nat list \<Rightarrow> nat list" where
  "linkify word esc txt = linkify_loop esc txt 0 (url_spans word None 0 txt)"

section \<open>Preferences, notifications and sounds\<close>

definition DEFAULT_PREFS :: "(string, json) dict" where
  "DEFAULT_PREFS =
     [(''remember_position'', JBool True), (''notifications'', JBool True), (''notification_sound'', JStr ''single''),
      (''enter_to_send'', JBool True), (''time_format'', JStr ''24h''), (''theme'', JStr ''system''),
      (''seen_onboarding'', JBool False)]"

text \<open>\<open>prefs.get(key, DEFAULT_PREFS.get(key))\<close>\<close>

definition pref :: "(string, json) dict \<Rightarrow> string \<Rightarrow> json" where
  "pref prefs key =
     (case dict_get prefs key of
        Some v \<Rightarrow> v
      | None \<Rightarrow> (case dict_get DEFAULT_PREFS key of Some v \<Rightarrow> v | None \<Rightarrow> JNull))"

definition load_prefs :: "pyenv \<Rightarrow> fs \<Rightarrow> json" where
  "load_prefs e s = (case bind_res (os_read (prefs_path e) s) json_loads_bytes of Ok v \<Rightarrow> v | Err _ \<Rightarrow> JObj [])"

definition save_prefs :: "pyenv \<Rightarrow> (string, json) dict \<Rightarrow> fs \<Rightarrow> fs" where
  "save_prefs e prefs s =
     write_file (prefs_path e) (encode_utf8 (json_dumps_indent (JObj prefs)))
       (s\<lparr>dirs := makedirs 511 (client_dir e) (dirs s)\<rparr>)"

definition should_notify :: "bool \<Rightarrow> bool \<Rightarrow> bool \<Rightarrow> (string, json) dict \<Rightarrow> bool" where
  "should_notify window_visible muted blocked prefs =
     (if \<not> json_truthy (pref prefs ''notifications'') then False
      else if muted \<or> blocked then False
      else \<not> window_visible)"

definition SOUND_OPTIONS :: "string list" where
  "SOUND_OPTIONS = [''off'', ''single'', ''double'', ''triple'', ''long'']"

definition beep :: "string \<Rightarrow> string" where
  "beep dur = ''timeout '' @ dur @ ''s speaker-test -t sine -f 800 -l 1''"

definition beep_count :: "string \<Rightarrow> nat" where
  "beep_count kind = (if kind = ''single'' then 1 else if kind = ''double'' then 2 else if kind = ''triple'' then 3 else 0)"

definition sound_command :: "string \<Rightarrow> string" where
  "sound_command kind =
     (if kind \<notin> set SOUND_OPTIONS \<or> kind = ''off'' then []
      else if kind = ''long'' then beep ''0.5''
      else py_join ''; '' (concat (map (\<lambda>i. (if i = 0 then [] else [''sleep 0.12'']) @ [beep ''0.2'']) [0..<beep_count kind])))"

definition sound_enabled :: "pyenv \<Rightarrow> (string, json) dict \<Rightarrow> string" where
  "sound_enabled e prefs =
     (case environ e ''AIMLESS_SOUND'' of
        Some v \<Rightarrow>
          if v \<in> set SOUND_OPTIONS then v
          else (case pref prefs ''notification_sound'' of
                  JStr k \<Rightarrow> if k \<in> set SOUND_OPTIONS then k else ''single'' | _ \<Rightarrow> ''single'')
      | None \<Rightarrow> (case pref prefs ''notification_sound'' of
                  JStr k \<Rightarrow> if k \<in> set SOUND_OPTIONS then k else ''single'' | _ \<Rightarrow> ''single''))"

definition should_play_sound :: "pyenv \<Rightarrow> bool \<Rightarrow> bool \<Rightarrow> bool \<Rightarrow> (string, json) dict \<Rightarrow> bool" where
  "should_play_sound e window_visible muted blocked prefs =
     (if muted \<or> blocked \<or> window_visible then False else sound_enabled e prefs \<noteq> ''off'')"

text \<open>
  \<open>play_notification_sound\<close>: the command to run, if any, and the time of the last sound. Times
  are in milliseconds.
\<close>

definition play_notification_sound :: "string \<Rightarrow> bool \<Rightarrow> int \<Rightarrow> int \<Rightarrow> string option \<times> int" where
  "play_notification_sound kind force now_ms last_ms =
     (if kind \<notin> set SOUND_OPTIONS \<or> kind = ''off'' then (None, last_ms)
      else if \<not> force \<and> now_ms - last_ms < 2000 then (None, last_ms)
      else (Some (sound_command kind), now_ms))"

section \<open>Window placement\<close>

definition on_area :: "int \<Rightarrow> int \<Rightarrow> int \<Rightarrow> int \<Rightarrow> int \<Rightarrow> int \<times> int \<times> int \<times> int \<Rightarrow> bool" where
  "on_area margin x y w h = (\<lambda>(ax, ay, aw, ah).
     ax - w + margin \<le> x \<and> x \<le> ax + aw - margin \<and> ay - h + margin \<le> y \<and> y \<le> ay + ah - margin)"

definition clamp_to_workarea :: "int \<Rightarrow> int \<Rightarrow> int \<Rightarrow> int \<Rightarrow> (int \<times> int \<times> int \<times> int) list \<Rightarrow> int \<Rightarrow> int \<times> int" where
  "clamp_to_workarea x y w h areas margin =
     (case areas of
        [] \<Rightarrow> (x, y)
      | (ax, ay, aw, ah) # _ \<Rightarrow>
          if list_ex (on_area margin x y w h) areas then (x, y)
          else (min (max x ax) (ax + max 0 (aw - w)), min (max y ay) (ay + max 0 (ah - h))))"

section \<open>Petnames\<close>

text \<open>The candidates \<open>base\<close>, \<open>base 2\<close>, \<open>base 3\<close>, \<open>...\<close>\<close>

definition petname_candidate :: "string \<Rightarrow> nat \<Rightarrow> string" where
  "petname_candidate base i = (if i < 2 then base else base @ '' '' @ nat_digits i)"

lemma candidate_inj: "2 \<le> i \<Longrightarrow> 2 \<le> j \<Longrightarrow> petname_candidate base i = petname_candidate base j \<Longrightarrow> i = j"
  by (simp add: petname_candidate_def nat_digits_inj)

lemma finite_candidates: "finite {j. i \<le> j \<and> petname_candidate base j \<in> set names}"
proof (rule finite_subset)
  have "inj_on (petname_candidate base) {j. 2 \<le> j \<and> petname_candidate base j \<in> set names}"
    by (auto intro: inj_onI candidate_inj)
  moreover have "petname_candidate base ` {j. 2 \<le> j \<and> petname_candidate base j \<in> set names} \<subseteq> set names" by auto
  ultimately have "finite {j. 2 \<le> j \<and> petname_candidate base j \<in> set names}"
    using finite_imageD finite_subset by blast
  then show "finite ({0, 1} \<union> {j. 2 \<le> j \<and> petname_candidate base j \<in> set names})" by simp
qed auto

function free_from :: "string list \<Rightarrow> string \<Rightarrow> nat \<Rightarrow> string" where
  "free_from names base i =
     (if petname_candidate base i \<in> set names then free_from names base (i + 1) else petname_candidate base i)"
  by pat_completeness auto
termination
proof (relation "measure (\<lambda>(names, base, i). card {j. i \<le> j \<and> petname_candidate base j \<in> set names})")
  fix names base i assume taken: "petname_candidate base i \<in> set names"
  let ?A = "\<lambda>i. {j. i \<le> j \<and> petname_candidate base j \<in> set names}"
  have "i \<in> ?A i" "i \<notin> ?A (i + 1)" "?A (i + 1) \<subseteq> ?A i" using taken by auto
  then have "?A (i + 1) \<subset> ?A i" by blast
  then show "((names, base, i + 1), names, base, i)
      \<in> measure (\<lambda>(names, base, i). card {j. i \<le> j \<and> petname_candidate base j \<in> set names})"
    by (simp add: psubset_card_mono finite_candidates)
qed simp

declare free_from.simps [simp del]

definition free_petname :: "(string, json) dict \<Rightarrow> string \<Rightarrow> string" where
  "free_petname contacts base = free_from (map fst contacts) base 1"

lemma free_from_fresh: "free_from names base i \<notin> set names"
  by (induction names base i rule: free_from.induct) (subst free_from.simps, simp)

section \<open>What a linkified text is made of\<close>

datatype piece = Plain "nat list" | Link "nat list"

fun piece_text :: "piece \<Rightarrow> nat list" where
  "piece_text (Plain t) = t"
| "piece_text (Link u) = u"

fun render :: "(nat list \<Rightarrow> nat list) \<Rightarrow> piece \<Rightarrow> nat list" where
  "render esc (Plain t) = esc t"
| "render esc (Link u) = anchor (esc u)"

fun is_link :: "piece \<Rightarrow> bool" where
  "is_link (Plain _) = False"
| "is_link (Link _) = True"

definition url_ok :: "nat list \<Rightarrow> bool" where
  "url_ok u \<longleftrightarrow> (prefix (cps_of ''http://'') u \<or> prefix (cps_of ''https://'') u) \<and> list_all url_char u \<and>
     u \<noteq> [] \<and> last u \<notin> set TRAILING_PUNCT"

fun piece_ok :: "piece \<Rightarrow> bool" where
  "piece_ok (Plain _) = True"
| "piece_ok (Link u) = url_ok u"

fun pieces :: "nat list \<Rightarrow> nat \<Rightarrow> (nat \<times> nat list) list \<Rightarrow> piece list" where
  "pieces txt pos [] = [Plain (drop pos txt)]"
| "pieces txt pos ((start, m) # spans) =
     (let url = trim_url m
      in if url = [] then pieces txt pos spans
         else Plain (take (start - pos) (drop pos txt)) # Link url # pieces txt (start + length url) spans)"

lemma linkify_pieces: "linkify_loop esc txt pos spans = concat (map (render esc) (pieces txt pos spans))"
  by (induction "txt" pos spans rule: pieces.induct) (auto simp: Let_def)

text \<open>The matches lie in the text, in order and apart.\<close>

fun spans_ok :: "nat list \<Rightarrow> nat \<Rightarrow> (nat \<times> nat list) list \<Rightarrow> bool" where
  "spans_ok txt pos [] = True"
| "spans_ok txt pos ((start, m) # spans) =
     (pos \<le> start \<and> take (length m) (drop start txt) = m \<and> 0 < match_url m \<and> match_url m = length m \<and>
      spans_ok txt (start + length m) spans)"

lemma spans_ok_mono: "spans_ok txt pos spans \<Longrightarrow> pos' \<le> pos \<Longrightarrow> spans_ok txt pos' spans"
  by (cases spans) auto

lemma scheme_length_le: "scheme_length xs \<le> length xs"
  by (auto simp: scheme_length_def cps_of_def dest: prefix_length_le)

lemma match_url_le: "match_url xs \<le> length xs"
proof -
  have "length (takeWhile url_char (drop (scheme_length xs) xs)) \<le> length xs - scheme_length xs"
    using length_takeWhile_le [of url_char "drop (scheme_length xs) xs"] by simp
  with scheme_length_le [of xs] show ?thesis by (auto simp: match_url_def Let_def)
qed

lemma prefix_take_iff: "length ys \<le> n \<Longrightarrow> prefix ys (take n xs) = prefix ys xs"
proof
  assume "length ys \<le> n" "prefix ys xs"
  then show "prefix ys (take n xs)" by (auto simp: prefix_def)
next
  assume "prefix ys (take n xs)"
  then show "prefix ys xs" using take_is_prefix prefix_order.trans by blast
qed

lemma match_url_take: "0 < match_url xs \<Longrightarrow> match_url (take (match_url xs) xs) = match_url xs"
proof -
  assume pos: "0 < match_url xs"
  define n where "n = scheme_length xs"
  define body where "body = takeWhile url_char (drop n xs)"
  from pos have len: "match_url xs = n + length body" "0 < n" "body \<noteq> []"
    by (auto simp: match_url_def Let_def n_def body_def split: if_splits)
  have "n \<le> length xs" unfolding n_def by (rule scheme_length_le)
  have body: "take (length body) (drop n xs) = body" unfolding body_def by (metis takeWhile_eq_take)
  have scheme: "scheme_length (take (n + length body) xs) = n"
  proof -
    have "8 \<le> n + length body \<or> n = 7" using len(2,3) by (auto simp: n_def scheme_length_def split: if_splits)
    moreover have "7 \<le> n + length body" using len(2) by (auto simp: n_def scheme_length_def split: if_splits)
    ultimately show ?thesis
      using len(2) by (auto simp: n_def scheme_length_def prefix_take_iff cps_of_def split: if_splits)
  qed
  have whole: "takeWhile url_char body = body" by (simp add: body_def)
  have "match_url (take (n + length body) xs) = n + length (takeWhile url_char body)"
    unfolding match_url_def Let_def scheme drop_take using len(2,3) by (simp add: body whole del: takeWhile_eq_all_conv)
  with whole have "match_url (take (n + length body) xs) = n + length body" by (simp only:)
  with len(1) show ?thesis by simp
qed

lemma url_spans_ok: "drop i txt = xs \<Longrightarrow> spans_ok txt i (url_spans word prev i xs)"
proof (induction word prev i xs rule: url_spans.induct)
  case (2 word prev i x xs)
  define n where "n = match_url (x # xs)"
  show ?case
  proof (cases "boundary word prev \<and> 0 < n")
    case True
    have n: "n \<le> length (x # xs)" unfolding n_def by (rule match_url_le)
    have "drop (i + n) txt = drop n (x # xs)" using "2.prems" by (metis add.commute drop_drop)
    then have "spans_ok txt (i + n) (url_spans word (Some (last (take n (x # xs)))) (i + n) (drop n (x # xs)))"
      using "2.IH"(1) [OF n_def] True by blast
    moreover have "match_url (take n (x # xs)) = n" using match_url_take [of "x # xs"] True by (simp add: n_def)
    ultimately show ?thesis using True n "2.prems" by (auto simp: n_def [symmetric] Let_def)
  next
    case False
    have "drop (i + 1) txt = xs" using "2.prems" by (metis Suc_eq_plus1 drop_Suc tl_drop list.sel(3))
    then have "spans_ok txt (i + 1) (url_spans word (Some x) (i + 1) xs)"
      using "2.IH"(2) [OF n_def] False by blast
    with False show ?thesis by (auto simp: n_def [symmetric] Let_def intro: spans_ok_mono)
  qed
qed simp

text \<open>A match keeps its scheme when trailing punctuation is dropped.\<close>

lemma rdropWhile_keeps: "\<not> P c \<Longrightarrow> rdropWhile P (xs @ c # ys) = xs @ c # rdropWhile P ys"
proof -
  assume c: "\<not> P c"
  have "dropWhile P (rev ys @ c # rev xs) = dropWhile P (rev ys) @ c # rev xs"
  proof (cases "\<forall>y \<in> set ys. P y")
    case True
    then have "dropWhile P (rev ys) = []" "dropWhile P (rev ys @ c # rev xs) = dropWhile P (c # rev xs)"
      by (simp_all add: dropWhile_append)
    with c show ?thesis by simp
  next
    case False
    then show ?thesis by (auto simp: dropWhile_append)
  qed
  then show ?thesis by (simp add: rdropWhile_def)
qed

lemma trim_url_prefix: "prefix (trim_url m) m"
  by (simp add: trim_url_def prefix_rdropWhile)

lemma scheme_slash:
  assumes "0 < scheme_length m"
  obtains s r where "m = s @ 47 # r" "s @ [47] = cps_of ''http://'' \<or> s @ [47] = cps_of ''https://''"
proof -
  from assms consider r where "m = cps_of ''http://'' @ r" | r where "m = cps_of ''https://'' @ r"
    by (auto simp: scheme_length_def prefix_def split: if_splits)
  then show thesis
  proof cases
    case (1 r) with that [of "cps_of ''http:/''" r] show thesis by (simp add: cps_of_def)
  next
    case (2 r) with that [of "cps_of ''https:/''" r] show thesis by (simp add: cps_of_def)
  qed
qed

lemma trim_url_ok:
  assumes "0 < match_url m" "match_url m = length m"
  shows "url_ok (trim_url m)"
proof -
  define n where "n = scheme_length m"
  from assms have n: "0 < n" "length m = n + length (takeWhile url_char (drop n m))"
    by (auto simp: match_url_def Let_def n_def split: if_splits)
  obtain s r where m: "m = s @ 47 # r" "s @ [47] = cps_of ''http://'' \<or> s @ [47] = cps_of ''https://''"
    using n(1) unfolding n_def by (rule scheme_slash)
  have slash: "47 \<notin> set TRAILING_PUNCT" by (simp add: TRAILING_PUNCT_def cps_of_def)
  have trim: "trim_url m = (s @ [47]) @ rdropWhile (\<lambda>c. c \<in> set TRAILING_PUNCT) r"
    unfolding trim_url_def m(1) using slash by (simp add: rdropWhile_keeps)
  have "length (takeWhile url_char (drop n m)) = length (drop n m)"
    unfolding length_drop using n(2) by linarith
  then have "takeWhile url_char (drop n m) = drop n m" by (metis takeWhile_eq_take take_all order_refl)
  then have "\<forall>c \<in> set (drop n m). url_char c" by (metis takeWhile_eq_all_conv)
  moreover have "\<forall>c \<in> set (take n m). url_char c"
  proof -
    have "take n m = cps_of ''http://'' \<or> take n m = cps_of ''https://''"
      using n(1) by (auto simp: n_def scheme_length_def prefix_def cps_of_def split: if_splits)
    moreover have "list_all url_char (cps_of ''https://'')" "list_all url_char (cps_of ''http://'')"
      by code_simp+
    ultimately show ?thesis by (auto simp: list_all_iff)
  qed
  ultimately have "list_all url_char m" by (metis append_take_drop_id list_all_iff Un_iff set_append)
  then have "list_all url_char (trim_url m)" using set_mono_prefix [OF trim_url_prefix [of m]] by (auto simp: list_all_iff)
  moreover have "trim_url m \<noteq> []" using trim by simp
  moreover have "last (trim_url m) \<notin> set TRAILING_PUNCT"
    using hd_dropWhile [of "\<lambda>c. c \<in> set TRAILING_PUNCT" "rev m"] \<open>trim_url m \<noteq> []\<close>
    by (simp add: trim_url_def rdropWhile_def last_rev)
  moreover have "prefix (cps_of ''http://'') (trim_url m) \<or> prefix (cps_of ''https://'') (trim_url m)"
    using m(2) trim by (metis prefixI)
  ultimately show ?thesis by (simp add: url_ok_def)
qed

lemma take_prefix: "prefix u m \<Longrightarrow> take (length u) m = u"
  by (auto simp: prefix_def)

lemma pieces_sound:
  assumes "spans_ok txt pos spans"
  shows "list_all piece_ok (pieces txt pos spans) \<and> concat (map piece_text (pieces txt pos spans)) = drop pos txt"
  using assms
proof (induction "txt" pos spans rule: pieces.induct)
  case (2 "txt" pos start m spans)
  let ?u = "trim_url m"
  have m: "pos \<le> start" "take (length m) (drop start txt) = m" "spans_ok txt (start + length m) spans"
    and u: "url_ok ?u" using "2.prems" trim_url_ok by auto
  have pre: "prefix ?u m" by (rule trim_url_prefix)
  then have "start + length ?u \<le> start + length m" by (simp add: prefix_length_le)
  with m(3) have rest: "spans_ok txt (start + length ?u) spans" by (rule spans_ok_mono)
  have ne: "?u \<noteq> []" using u by (simp add: url_ok_def)
  have "take (length ?u) (drop start txt) = take (length ?u) (take (length m) (drop start txt))"
    using prefix_length_le [OF pre] by (simp add: min_def)
  also have "\<dots> = ?u" unfolding m(2) by (rule take_prefix [OF pre])
  finally have split: "drop start txt = ?u @ drop (start + length ?u) txt"
    by (metis add.commute append_take_drop_id drop_drop)
  have "drop pos txt = take (start - pos) (drop pos txt) @ drop start txt"
    using m(1) by (metis append_take_drop_id drop_drop le_add_diff_inverse2)
  also note split
  finally have whole: "drop pos txt = take (start - pos) (drop pos txt) @ ?u @ drop (start + length ?u) txt" .
  from "2.IH"(2) [OF refl ne rest] u ne whole show ?case by (simp add: Let_def)
qed simp

text \<open>GLib documents that escaped text has no markup of its own.\<close>

definition markup_safe :: "(nat list \<Rightarrow> nat list) \<Rightarrow> bool" where
  "markup_safe esc \<longleftrightarrow> (\<forall>t. 60 \<notin> set (esc t) \<and> 62 \<notin> set (esc t) \<and> 34 \<notin> set (esc t))"

lemma count_list_absent: "x \<notin> set xs \<Longrightarrow> count_list xs x = 0"
  by (simp add: count_list_0_iff)

lemma count_render:
  assumes "markup_safe esc"
  shows "count_list (concat (map (render esc) ps)) 60 = 2 * length (filter is_link ps)"
proof (induction ps)
  case (Cons p ps)
  have "count_list (render esc p) 60 = (if is_link p then 2 else 0)"
    using assms by (cases p) (simp_all add: markup_safe_def anchor_def cps_of_def count_list_absent)
  with Cons.IH show ?case by simp
qed simp

section \<open>Properties\<close>

text \<open>
  C31: a message is shown as its own text, in order and complete, cut into inert pieces and links;
  a link is an \<open>http\<close> or \<open>https\<close> address without quotes, angle brackets or white space that does
  not end in punctuation; and the only markup in the result is the anchors of these links,
  whatever the sender typed.
\<close>

theorem linkify_inert:
  assumes "markup_safe esc"
  shows "\<exists>ps. linkify word esc message = concat (map (render esc) ps) \<and> concat (map piece_text ps) = message \<and>
    list_all piece_ok ps \<and> count_list (linkify word esc message) 60 = 2 * length (filter is_link ps)"
proof -
  let ?ps = "pieces message 0 (url_spans word None 0 message)"
  have "linkify word esc message = concat (map (render esc) ?ps)" by (simp add: linkify_def linkify_pieces)
  moreover have "list_all piece_ok ?ps \<and> concat (map piece_text ?ps) = message"
    using pieces_sound [OF url_spans_ok [of 0 message message]] by simp
  ultimately show ?thesis using count_render [OF assms] by (metis (no_types))
qed

theorem linkify_inert_witness:
  "\<exists>ps. linkify (\<lambda>_. False) (filter (\<lambda>c. c \<notin> {60, 62, 34})) (cps_of ''<b> http://x.y.'') =
      concat (map (render (filter (\<lambda>c. c \<notin> {60, 62, 34}))) ps) \<and> concat (map piece_text ps) = cps_of ''<b> http://x.y.''"
  using linkify_inert [of "filter (\<lambda>c. c \<notin> {60, 62, 34})" "\<lambda>_. False" "cps_of ''<b> http://x.y.''"]
  by (auto simp: markup_safe_def)

text \<open>
  a sanitised file name is never empty, has at most 64 characters, all of them letters, digits,
  space, dot, underscore or hyphen, and does not start with a dot: it names an entry of the
  directory it is joined to and nothing else.
\<close>

theorem sanitize_filename_safe:
  "sanitize_filename name \<noteq> [] \<and> length (sanitize_filename name) \<le> 64 \<and> list_all name_char (sanitize_filename name) \<and>
   hd (sanitize_filename name) \<noteq> CHR ''.'' \<and> CHR ''/'' \<notin> set (sanitize_filename name) \<and>
   path_join d (sanitize_filename name) = (if d = [] \<or> last d = CHR ''/'' then d else d @ ''/'') @ sanitize_filename name"
proof -
  define clean where "clean = strip_chars '' .'' (filter name_char name)"
  let ?r = "sanitize_filename name"
  have r: "?r = take 64 (if clean = [] then ''file'' else clean)" by (simp add: sanitize_filename_def clean_def Let_def)
  have sub: "prefix clean (dropWhile (\<lambda>c. c \<in> set '' .'') (filter name_char name))"
    unfolding clean_def strip_chars_def by (rule prefix_rdropWhile)
  have chars: "list_all name_char clean"
    using set_mono_prefix [OF sub] set_dropWhileD by (fastforce simp: list_all_iff)
  have first: "hd clean \<noteq> CHR ''.''" if "clean \<noteq> []"
  proof -
    have "hd clean = hd (dropWhile (\<lambda>c. c \<in> set '' .'') (filter name_char name))"
      using sub that by (auto simp: prefix_def)
    moreover have "dropWhile (\<lambda>c. c \<in> set '' .'') (filter name_char name) \<noteq> []" using sub that by (metis prefix_Nil)
    ultimately show ?thesis using hd_dropWhile [of "\<lambda>c. c \<in> set '' .''" "filter name_char name"] by auto
  qed
  have default: "list_all name_char ''file''" by code_simp
  have ok: "list_all name_char ?r" using chars default r set_take_subset by (fastforce simp: list_all_iff)
  have ne: "?r \<noteq> []" by (simp add: r)
  have dot: "hd ?r \<noteq> CHR ''.''" using first r by (auto simp: hd_take)
  have "\<not> name_char (CHR ''/'')" by code_simp
  then have slash: "CHR ''/'' \<notin> set ?r" using ok by (auto simp: list_all_iff)
  then have "hd ?r \<noteq> CHR ''/''" using ne by (metis hd_in_set)
  then have "path_join d ?r = (if d = [] \<or> last d = CHR ''/'' then d else d @ ''/'') @ ?r"
    using ne by (simp add: path_join_def)
  with ok ne dot slash show ?thesis by (simp add: r)
qed

text \<open>
  C32: the search for a free petname ends with a name that no contact has: the base itself if it
  is free, else the base with a number.
\<close>

theorem free_petname_fresh:
  "free_petname contacts base \<notin> set (map fst contacts) \<and>
   (\<exists>i \<ge> 1. free_petname contacts base = petname_candidate base i) \<and>
   (base \<in> set (map fst contacts) \<or> free_petname contacts base = base)"
proof -
  have candidate: "\<exists>j \<ge> i. free_from names base i = petname_candidate base j" for names i
  proof (induction names base i rule: free_from.induct)
    case (1 names base i)
    show ?case
    proof (cases "petname_candidate base i \<in> set names")
      case True
      with "1.IH" obtain j where "i + 1 \<le> j" "free_from names base (i + 1) = petname_candidate base j" by blast
      moreover have "free_from names base i = free_from names base (i + 1)" using True by (simp add: free_from.simps [of _ _ i])
      ultimately show ?thesis by (intro exI [of _ j]) simp
    qed (auto simp: free_from.simps [of _ _ i])
  qed
  have "base \<in> set (map fst contacts) \<or> free_petname contacts base = base"
    unfolding free_petname_def by (subst free_from.simps) (auto simp: petname_candidate_def)
  with candidate [of 1 "map fst contacts"] show ?thesis
    unfolding free_petname_def using free_from_fresh by blast
qed

text \<open>
  a window at least as large as the margin that is placed through the clamp shows on some
  monitor, provided the first monitor is no smaller than the margin; and clamping again moves
  nothing.
\<close>

theorem clamp_visible:
  assumes "clamp_to_workarea x y w h areas margin = (x', y')" and "areas \<noteq> []"
    and "margin \<le> w" and "margin \<le> h" and "0 \<le> margin"
    and "case hd areas of (ax, ay, aw, ah) \<Rightarrow> margin \<le> aw \<and> margin \<le> ah"
  shows "list_ex (on_area margin x' y' w h) areas \<and> clamp_to_workarea x' y' w h areas margin = (x', y')"
proof -
  obtain ax ay aw ah rest where areas: "areas = (ax, ay, aw, ah) # rest" using assms(2) by (cases areas) auto
  have vis: "list_ex (on_area margin x' y' w h) areas"
  proof (cases "list_ex (on_area margin x y w h) areas")
    case True
    with assms(1) areas show ?thesis by (simp add: clamp_to_workarea_def split: if_splits)
  next
    case False
    then have "x' = min (max x ax) (ax + max 0 (aw - w))" "y' = min (max y ay) (ay + max 0 (ah - h))"
      using assms(1) areas by (auto simp: clamp_to_workarea_def)
    then have "on_area margin x' y' w h (ax, ay, aw, ah)"
      using assms(3-6) areas by (auto simp: on_area_def min_def max_def split: if_splits)
    then show ?thesis by (simp add: areas)
  qed
  then show ?thesis by (simp add: clamp_to_workarea_def areas split: list.split)
qed

theorem clamp_visible_witness:
  "clamp_to_workarea 5000 (- 300) 800 600 [(0, 0, 1920, 1080)] 40 = (1120, 0) \<and>
   list_ex (on_area 40 1120 0 800 600) [(0, 0, 1920, 1080)]"
proof -
  have "clamp_to_workarea 5000 (- 300) 800 600 [(0, 0, 1920, 1080)] 40 = (1120, 0)" by code_simp
  with clamp_visible [OF this] show ?thesis by simp
qed
end
