(* ===== verification/Session.thy ===== *)
theory Session
  imports Keys UiText
begin

text \<open>
  \<open>class Session\<close> of \<open>client/aimless/gtkui.py\<close> and the functions around the identity and the contact
  list: opening a session, creating and restoring an identity, backups, adding, removing and
  unblocking contacts, the away status.

  The daemon is the \<open>request\<close> function of the client; random bytes and nonces are arguments. A
  screen name that is not a text is read as its text.
\<close>

section \<open>The session\<close>

record session =
  s_store :: store
  s_recovered :: "string option"
  s_node :: json
  s_screen :: string
  s_client :: client

text \<open>The values of a dict; anything else has no \<open>values\<close> or \<open>items\<close>.\<close>

fun json_dict :: "json \<Rightarrow> (string, json) dict res" where
  "json_dict (JObj kvs) = Ok kvs"
| "json_dict _ = Err (AttributeError ''object has no attribute items'')"

text \<open>A store that does not open is set aside and a new one is begun.\<close>

definition open_or_recover ::
  "nacl \<Rightarrow> pyenv \<Rightarrow> string \<Rightarrow> bytes \<Rightarrow> store \<Rightarrow> fs \<Rightarrow> (store \<times> string option) res \<times> fs" where
  "open_or_recover N e passphrase fresh db s =
     (case open_store N passphrase fresh db of
        Ok st \<Rightarrow> (Ok (st, None), s)
      | Err ex \<Rightarrow>
          (bind_res (open_store N passphrase fresh empty_store) (\<lambda>st.
             Ok (st, Some (''corrupted state recovered as .bad ('' @ exn_str ex @ '')''))),
           fs_step (Replace (cache_path e) (cache_path e @ ''.bad'')) s))"

text \<open>A contact is never blocked: the mute of every contact's node is lifted.\<close>

fun lift_mutes :: "json list \<Rightarrow> store \<Rightarrow> store res" where
  "lift_mutes [] st = Ok st"
| "lift_mutes (info # infos) st =
     bind_res (json_get info ''node'') (\<lambda>v.
       case v of
         Some (JStr node) \<Rightarrow> lift_mutes infos (if node \<noteq> [] \<and> is_muted st node then unmute node st else st)
       | Some w \<Rightarrow> if json_truthy w then Err (SqliteError ''type is not supported'') else lift_mutes infos st
       | None \<Rightarrow> lift_mutes infos st)"

definition self_screen_of :: "(string, json) dict \<Rightarrow> string res" where
  "self_screen_of contacts =
     bind_res (get_default (case dict_get contacts ''_self'' of Some v \<Rightarrow> v | None \<Rightarrow> JObj []) ''screen'' (JStr ''anonymous''))
       (\<lambda>v. Ok (py_str v))"

definition session_init ::
  "nacl \<Rightarrow> pyenv \<Rightarrow> string \<Rightarrow> bytes \<Rightarrow> store \<Rightarrow> bool \<Rightarrow> json res \<Rightarrow> fs \<Rightarrow> session res \<times> fs" where
  "session_init N e passphrase fresh db connected who s =
     (case load_identity N (identity_path e) passphrase s of
        Err ex \<Rightarrow> (Err ex, s)
      | Ok seed \<Rightarrow>
          (case open_or_recover N e passphrase fresh db s of
             (Err ex, s1) \<Rightarrow> (Err ex, s1)
           | (Ok (st, recovered), s1) \<Rightarrow>
               (if \<not> connected then Err (OSError ''connect'')
                else
                  bind_res (bind_res who (\<lambda>w. json_item w ''key'')) (\<lambda>node.
                  bind_res (bind_res (load_contacts (contacts_path e) s1) json_dict) (\<lambda>contacts.
                  bind_res (lift_mutes (map snd contacts) st) (\<lambda>st1.
                  bind_res (self_screen_of contacts) (\<lambda>screen.
                    Ok \<lparr>s_store = st1, s_recovered = recovered, s_node = node, s_screen = screen,
                        s_client = client_init N seed screen\<rparr>)))),
                s1)))"

definition session_contacts :: "pyenv \<Rightarrow> fs \<Rightarrow> (string, json) dict res" where
  "session_contacts e s =
     bind_res (bind_res (load_contacts (contacts_path e) s) json_dict) (\<lambda>allc.
       Ok (filter (\<lambda>(k, _). k \<noteq> ''_self'') allc))"

definition session_save_contacts :: "pyenv \<Rightarrow> (string, json) dict \<Rightarrow> json \<Rightarrow> fs \<Rightarrow> fs" where
  "session_save_contacts e contacts self_info s = save_contacts (contacts_path e) (dict_set ''_self'' self_info contacts) s"

definition my_invite :: "nacl \<Rightarrow> 'w request_fn \<Rightarrow> session \<Rightarrow> 'w \<Rightarrow> string res \<times> 'w" where
  "my_invite N req s w =
     (case req ''whoami'' [] w of
        (Err ex, w1) \<Rightarrow> (Err ex, w1)
      | (Ok who, w1) \<Rightarrow>
          (bind_res (json_item who ''key'') (\<lambda>k.
             case k of JStr key \<Rightarrow> make_invite N (identity (s_client s)) key (s_screen s)
             | _ \<Rightarrow> Err (TypeError ''fromhex() argument must be str'')), w1))"

definition refresh_node :: "'w request_fn \<Rightarrow> session \<Rightarrow> 'w \<Rightarrow> session res \<times> 'w" where
  "refresh_node req s w =
     (case req ''whoami'' [] w of
        (Err ex, w1) \<Rightarrow> (Err ex, w1)
      | (Ok who, w1) \<Rightarrow> (bind_res (json_item who ''key'') (\<lambda>k. Ok (s\<lparr>s_node := k\<rparr>)), w1))"

section \<open>Identities and backups\<close>

definition create_identity ::
  "nacl \<Rightarrow> pyenv \<Rightarrow> bytes \<Rightarrow> bytes \<Rightarrow> nat \<Rightarrow> string \<Rightarrow> string \<Rightarrow> fs \<Rightarrow> string res \<times> fs" where
  "create_identity N e fresh slt d passphrase screen s =
     (case new_identity fresh of
        Err ex \<Rightarrow> (Err ex, s)
      | Ok seed \<Rightarrow>
          let s1 = save_identity N (identity_path e) seed passphrase slt d s
          in case bind_res (load_contacts (contacts_path e) s1) json_dict of
               Err ex \<Rightarrow> (Err ex, s1)
             | Ok contacts \<Rightarrow>
                 (Ok passphrase,
                  save_contacts (contacts_path e)
                    (dict_set ''_self'' (JObj [(''screen'', JStr (if screen = [] then ''anonymous'' else screen)),
                       (''pubkey'', JStr (bytes_hex (n_verify_key N seed)))]) contacts) s1))"

text \<open>\<open>_backup_payload\<close>: the node key is missing when its file is, an undecodable one raises.\<close>

definition backup_payload :: "nacl \<Rightarrow> pyenv \<Rightarrow> session \<Rightarrow> fs \<Rightarrow> json res" where
  "backup_payload N e s f =
     bind_res (case os_read (path_join (daemon_dir e) ''node.key'') f of
                 Err ex \<Rightarrow> if is_OSError ex then Ok JNull else Err ex
               | Ok bs \<Rightarrow> bind_res (decode_utf8 bs) (\<lambda>t. Ok (JStr (py_strip t)))) (\<lambda>node_seed.
     bind_res (load_contacts (contacts_path e) f) (\<lambda>contacts.
       Ok (JObj [(''identitySeed'', JStr (bytes_hex (identity (s_client s)))), (''nodeSeed'', node_seed),
                 (''screen'', JStr (s_screen s)), (''pubkey'', JStr (pubkey_hex (s_client s))),
                 (''contacts'', contacts)])))"

definition export_backup_to ::
  "nacl \<Rightarrow> pyenv \<Rightarrow> string \<Rightarrow> string \<Rightarrow> bytes \<Rightarrow> nat \<Rightarrow> session \<Rightarrow> fs \<Rightarrow> unit res \<times> fs" where
  "export_backup_to N e path passphrase slt d s f =
     (case backup_payload N e s f of
        Err ex \<Rightarrow> (Err ex, f)
      | Ok data \<Rightarrow> (Ok (), save_bundle N path passphrase data slt d f))"

definition write_contacts_json :: "pyenv \<Rightarrow> json \<Rightarrow> fs \<Rightarrow> fs" where
  "write_contacts_json e v s =
     (case v of
        JObj kvs \<Rightarrow> save_contacts (contacts_path e) kvs s
      | _ \<Rightarrow> run_ops (atomic_ops (contacts_path e) (encode_utf8 (json_dumps_indent v)) 420) s)"

definition restore_bundle ::
  "nacl \<Rightarrow> pyenv \<Rightarrow> string \<Rightarrow> string \<Rightarrow> string \<Rightarrow> bytes \<Rightarrow> nat \<Rightarrow> fs \<Rightarrow> json res \<times> fs" where
  "restore_bundle N e path bundle_passphrase app_passphrase slt d f =
     (case bind_res (load_bundle N path bundle_passphrase f) (\<lambda>data.
           bind_res (bind_res (get_default data ''identitySeed'' (JStr [])) fromhex_json) (\<lambda>seed.
             if length seed \<noteq> 32 then Err (ValueError ''backup is missing the identity seed'') else Ok (data, seed))) of
        Err ex \<Rightarrow> (Err ex, f)
      | Ok (data, seed) \<Rightarrow>
          let f1 = save_identity N (identity_path e) seed app_passphrase slt d f
          in case bind_res (get_default data ''nodeSeed'' JNull) (\<lambda>v.
                  if json_truthy v then bind_res (fromhex_json v) (\<lambda>bs. Ok (Some bs)) else Ok None) of
               Err ex \<Rightarrow> (Err ex, f1)
             | Ok node_seed \<Rightarrow>
                 let f2 = (case node_seed of None \<Rightarrow> f1 | Some bs \<Rightarrow> snd (write_node_key (daemon_dir e) bs f1))
                 in case get_default data ''contacts'' JNull of
                      Err ex \<Rightarrow> (Err ex, f2)
                    | Ok contacts \<Rightarrow> (Ok data, if json_truthy contacts then write_contacts_json e contacts f2 else f2))"

section \<open>Contacts\<close>

text \<open>The first eight characters of a node key.\<close>

definition first8 :: "string \<Rightarrow> string" where
  "first8 s = concat (map utf8_cp (take 8 (utf8_cps s)))"

definition name_or :: "json option \<Rightarrow> string \<Rightarrow> json" where
  "name_or v node = (case v of Some x \<Rightarrow> if json_truthy x then x else JStr (first8 node) | None \<Rightarrow> JStr (first8 node))"

definition add_contact_from_roster ::
  "pyenv \<Rightarrow> string \<Rightarrow> json \<Rightarrow> json option \<Rightarrow> fs \<Rightarrow> string res \<times> fs" where
  "add_contact_from_roster e node pubkey screen s =
     (case bind_res (load_contacts (contacts_path e) s) json_dict of
        Err ex \<Rightarrow> (Err ex, s)
      | Ok contacts \<Rightarrow>
          let petname = free_petname contacts (py_str (name_or screen node))
          in (Ok petname,
              save_contacts (contacts_path e)
                (dict_set petname (JObj [(''pubkey'', pubkey), (''node'', JStr node), (''screen'', name_or screen node)])
                  contacts) s))"

text \<open>Requests left to a background thread.\<close>

datatype job = Unblock_Watch string | BlockNode string | UnblockNode string | AckFile string json | PushStatus json

text \<open>
  \<open>on_add\<close>: the message for the user, the files and the jobs started. A known public key only has
  its routing key updated.
\<close>

fun known_contact :: "string \<Rightarrow> (string, json) dict \<Rightarrow> (string \<times> json) option res" where
  "known_contact client_hex [] = Ok None"
| "known_contact client_hex ((k, c) # cs) =
     bind_res (json_get c ''pubkey'') (\<lambda>p.
       if p = Some (JStr client_hex) then Ok (Some (k, c)) else known_contact client_hex cs)"

definition set_node :: "string \<Rightarrow> string \<Rightarrow> (string, json) dict \<Rightarrow> (string, json) dict res" where
  "set_node k node_hex allc =
     (case dict_get allc k of
        Some (JObj c) \<Rightarrow> Ok (dict_set k (JObj (dict_set ''node'' (JStr node_hex) c)) allc)
      | Some _ \<Rightarrow> Err (TypeError ''object does not support item assignment'')
      | None \<Rightarrow> Err (KeyError k))"

definition on_add ::
  "pyenv \<Rightarrow> string \<Rightarrow> string \<Rightarrow> string \<Rightarrow> fs \<Rightarrow> (string \<times> job list) res \<times> fs" where
  "on_add e own_pubkey invite_entry petname_entry s =
     (let petname = py_strip petname_entry
      in case parse_invite (py_strip invite_entry) of
           Err ex \<Rightarrow> (if is_ValueError ex then Ok (''error: '' @ exn_str ex, []) else Err ex, s)
         | Ok (client_hex, node_hex, screen) \<Rightarrow>
             if client_hex = own_pubkey then (Ok (''error: that's your own invite - send it to a friend'', []), s)
             else
               case bind_res (session_contacts e s) (known_contact client_hex) of
                 Err ex \<Rightarrow> (Err ex, s)
               | Ok (Some (k, c)) \<Rightarrow>
                   (case bind_res (json_get c ''node'') (\<lambda>n.
                      if n \<noteq> Some (JStr node_hex)
                      then bind_res (bind_res (bind_res (load_contacts (contacts_path e) s) json_dict) (set_node k node_hex))
                             (\<lambda>allc. Ok (Some allc))
                      else Ok None) of
                      Err ex \<Rightarrow> (Err ex, s)
                    | Ok (Some allc) \<Rightarrow>
                        (Ok (''updated routing key for '' @ k, []), save_contacts (contacts_path e) allc s)
                    | Ok None \<Rightarrow> (Ok (''already known as '' @ k, []), s))
               | Ok None \<Rightarrow>
                   (case bind_res (load_contacts (contacts_path e) s) json_dict of
                      Err ex \<Rightarrow> (Err ex, s)
                    | Ok allc \<Rightarrow>
                        (Ok (''added '' @ screen, [Unblock_Watch node_hex]),
                         save_contacts (contacts_path e)
                           (dict_set (if petname = [] then screen else petname)
                              (JObj [(''pubkey'', JStr client_hex), (''node'', JStr node_hex), (''screen'', JStr screen)]) allc) s)))"

definition on_remove :: "pyenv \<Rightarrow> string \<Rightarrow> fs \<Rightarrow> string res \<times> fs" where
  "on_remove e petname s =
     (case bind_res (load_contacts (contacts_path e) s) json_dict of
        Err ex \<Rightarrow> (Err ex, s)
      | Ok allc \<Rightarrow> (Ok (''removed '' @ petname), save_contacts (contacts_path e) (dict_del petname allc) s))"

definition on_unblock :: "string \<Rightarrow> store \<Rightarrow> job list \<times> store" where
  "on_unblock node st = ([UnblockNode node], clear_blocked_screen node (unmute node st))"

section \<open>The away status\<close>

text \<open>\<open>set_away\<close>: the preference is saved and the status pushed.\<close>

definition set_away :: "pyenv \<Rightarrow> string option \<Rightarrow> (string, json) dict \<Rightarrow> fs \<Rightarrow> (string, json) dict \<times> job list \<times> fs" where
  "set_away e away prefs s =
     (let prefs1 = dict_set ''away'' (JStr (case away of None \<Rightarrow> [] | Some a \<Rightarrow> a)) prefs
      in (prefs1, [PushStatus (case away of None \<Rightarrow> JNull | Some a \<Rightarrow> JStr a)], save_prefs e prefs1 s))"

text \<open>The worker of \<open>_push_status\<close>: one status per contact, failures are collected.\<close>

fun push_status :: "nacl \<Rightarrow> 'w request_fn \<Rightarrow> json \<Rightarrow> int \<Rightarrow> json list \<Rightarrow> (client \<times> 'w, string list) act" where
  "push_status N req away now_ms [] = ret_act []"
| "push_status N req away now_ms (info # infos) = (\<lambda>cw.
     case bind_res (json_item info ''pubkey'') (\<lambda>p. bind_res (json_item info ''node'') (\<lambda>n.
            case (p, n) of (JStr pk, JStr node) \<Rightarrow> Ok (pk, node) | _ \<Rightarrow> Err (TypeError ''fromhex() argument must be str''))) of
       Err ex \<Rightarrow>
         bind_act (lift_res (get_default info ''screen'' (JStr ''?''))) (\<lambda>sc.
         bind_act (push_status N req away now_ms infos) (\<lambda>errs. ret_act ((py_str sc @ '': '' @ exn_str ex) # errs))) cw
     | Ok (pk, node) \<Rightarrow>
         (case set_status N req pk node away now_ms cw of
            (Ok _, cw1) \<Rightarrow> push_status N req away now_ms infos cw1
          | (Err ex, cw1) \<Rightarrow>
              bind_act (lift_res (get_default info ''screen'' (JStr ''?''))) (\<lambda>sc.
              bind_act (push_status N req away now_ms infos) (\<lambda>errs. ret_act ((py_str sc @ '': '' @ exn_str ex) # errs))) cw1))"

definition reassert_status :: "(string, json) dict \<Rightarrow> job" where
  "reassert_status prefs =
     PushStatus (case dict_get prefs ''away'' of Some v \<Rightarrow> if json_truthy v then v else JNull | None \<Rightarrow> JNull)"

section \<open>Presence\<close>

text \<open>\<open>(online, away, client_offline)\<close> of a presence entry; \<open>open_it\<close> is \<open>client.decrypt_status\<close>.\<close>

definition presence_state ::
  "(json \<Rightarrow> (string, json) dict res) \<Rightarrow> (string, json) dict \<Rightarrow> bool \<times> json \<times> bool" where
  "presence_state open_it p =
     (if \<not> truthy_field p ''online'' then (False, JNull, False)
      else if (case dict_get p ''client_attached'' of None \<Rightarrow> False | Some v \<Rightarrow> \<not> json_truthy v)
      then (False, JStr ''client offline - messages will be delivered'', True)
      else
        let away = (if truthy_field p ''status_payload''
              then (case open_it (the (dict_get p ''status_payload'')) of
                      Ok st \<Rightarrow> if truthy_field st ''away'' then the (dict_get st ''away'') else JNull
                    | Err _ \<Rightarrow> JNull)
              else JNull)
        in (True, away, False))"

section \<open>The files of a session\<close>

lemma load_save_contacts:
  "valid_json (JObj kvs) \<Longrightarrow> load_contacts path (save_contacts path kvs s) = Ok (JObj kvs)"
  using atomic.write_done [of path "encode_utf8 (json_dumps_indent (JObj kvs))" 420 s]
  by (auto simp: load_contacts_def save_contacts_def os_exists_def os_read_def json_loads_bytes_dumps_indent)

text \<open>The three files a restore writes are different, as are their temporary files.\<close>

lemma session_paths_differ:
  fixes e :: pyenv
  defines "node \<equiv> path_join (daemon_dir e) ''node.key''"
  shows "identity_path e \<noteq> contacts_path e" "identity_path e \<noteq> node" "contacts_path e \<noteq> node"
    and "tmp_path p \<noteq> identity_path e" "tmp_path p \<noteq> contacts_path e" "tmp_path p \<noteq> node"
proof -
  have last: "last (identity_path e) = CHR ''n''" "last (contacts_path e) = CHR ''n''" "last node = CHR ''y''"
    "last (tmp_path p) = CHR ''p''"
    by (simp_all add: identity_path_def contacts_path_def node_def last_path_join plain_name_def tmp_path_def)
  show "identity_path e \<noteq> contacts_path e"
    by (simp add: identity_path_def contacts_path_def path_join_inj plain_name_def)
  show "identity_path e \<noteq> node" "contacts_path e \<noteq> node" using last by auto
  show "tmp_path p \<noteq> identity_path e" "tmp_path p \<noteq> contacts_path e" "tmp_path p \<noteq> node" using last by auto
qed

lemma save_identity_other:
  "q \<noteq> path \<Longrightarrow> q \<noteq> tmp_path path \<Longrightarrow> files (save_identity N path seed pw slt d s) q = files s q"
  by (simp add: save_identity_def Let_def atomic.write_frame)

lemma save_contacts_other:
  "q \<noteq> path \<Longrightarrow> q \<noteq> tmp_path path \<Longrightarrow> files (save_contacts path kvs s) q = files s q"
  by (simp add: save_contacts_def atomic.write_frame)

lemma write_node_key_files:
  "files (snd (write_node_key dir bs s)) (path_join dir ''node.key'') \<noteq> None \<and>
   os_read (path_join dir ''node.key'') (snd (write_node_key dir bs s)) = Ok (encode_utf8 (bytes_hex bs) @ [10]) \<and>
   (q \<noteq> path_join dir ''node.key'' \<longrightarrow> q \<noteq> tmp_path (path_join dir ''node.key'') \<longrightarrow>
      files (snd (write_node_key dir bs s)) q = files s q)"
  by (auto simp: write_node_key_def atomic_write_def Let_def os_read_def atomic_ops_result split: option.split)

lemma load_identity_cong: "files s path = files t path \<Longrightarrow> load_identity N path pw s = load_identity N path pw t"
  by (simp add: load_identity_def os_read_def)

lemma load_bundle_copied:
  "files t path' = files s path \<Longrightarrow> load_bundle N path pw s = Ok v \<Longrightarrow> load_bundle N path' pw t = Ok v"
  by (auto simp: load_bundle_def os_read_def split: option.splits)

lemma restore_payload:
  assumes "nacl_ok N" "length seed = 32" "kvs \<noteq> []" "nseed \<noteq> []" "valid_json (JObj kvs)"
    and "load_bundle N path pw f = Ok (JObj [(''identitySeed'', JStr (bytes_hex seed)), (''nodeSeed'', JStr (bytes_hex nseed)),
      (''screen'', JStr sc), (''pubkey'', JStr pk), (''contacts'', JObj kvs)])"
    and "restore_bundle N e path pw app slt d f = (r, f')"
  shows "is_ok r \<and> load_identity N (identity_path e) app f' = Ok seed \<and>
    os_read (path_join (daemon_dir e) ''node.key'') f' = Ok (encode_utf8 (bytes_hex nseed) @ [10]) \<and>
    load_contacts (contacts_path e) f' = Ok (JObj kvs)"
proof -
  let ?f1 = "save_identity N (identity_path e) seed app slt d f"
  let ?f2 = "snd (write_node_key (daemon_dir e) nseed ?f1)"
  have "bytes_hex nseed \<noteq> []" using assms(4) by (metis length_bytes_hex length_0_conv mult_eq_0_iff zero_neq_numeral)
  then have "restore_bundle N e path pw app slt d f = (load_bundle N path pw f, save_contacts (contacts_path e) kvs ?f2)"
    using assms(2,3) by (simp add: assms(6) restore_bundle_def get_default_def fromhex_hex Let_def write_contacts_json_def)
  moreover have "is_ok (load_bundle N path pw f)" by (simp add: assms(6))
  ultimately have r: "is_ok r" and f': "f' = save_contacts (contacts_path e) kvs ?f2" using assms(7) by auto
  note paths = session_paths_differ
  have "files f' (identity_path e) = files ?f1 (identity_path e)"
    using paths [where e = e] write_node_key_files [of "daemon_dir e" nseed ?f1]
    by (simp add: f' save_contacts_other paths [symmetric])
  then have "load_identity N (identity_path e) app f' = Ok seed"
    using load_identity_cong load_save_identity [OF assms(1,2)] by metis
  moreover have "files f' (path_join (daemon_dir e) ''node.key'') = files ?f2 (path_join (daemon_dir e) ''node.key'')"
    using paths [where e = e] by (simp add: f' save_contacts_other paths [symmetric])
  then have "os_read (path_join (daemon_dir e) ''node.key'') f' = Ok (encode_utf8 (bytes_hex nseed) @ [10])"
    using write_node_key_files [of "daemon_dir e" nseed ?f1] by (simp add: os_read_def)
  ultimately show ?thesis using r load_save_contacts [OF assms(5)] by (simp add: f')
qed

section \<open>Opening a session\<close>

lemma lift_mutes_muted:
  "lift_mutes infos st = Ok st' \<Longrightarrow>
   is_muted st' n \<longleftrightarrow> is_muted st n \<and> \<not> list_ex (\<lambda>i. json_get i ''node'' = Ok (Some (JStr n)) \<and> n \<noteq> []) infos"
proof (induction infos arbitrary: st)
  case (Cons info infos)
  from Cons.prems obtain v where v: "json_get info ''node'' = Ok v" by (auto elim: bind_res_Ok)
  show ?case
  proof (cases "\<exists>node. v = Some (JStr node)")
    case True
    then obtain node where node: "v = Some (JStr node)" by blast
    let ?st = "if node \<noteq> [] \<and> is_muted st node then unmute node st else st"
    have st': "lift_mutes infos ?st = Ok st'" using Cons.prems v node by simp
    have "is_muted ?st n \<longleftrightarrow> is_muted st n \<and> \<not> (node = n \<and> n \<noteq> [])"
      by (auto simp: is_muted_def unmute_def)
    with Cons.IH [OF st'] v node show ?thesis by auto
  next
    case False
    have "lift_mutes infos st = Ok st'"
      using Cons.prems v False by (auto split: option.splits json.splits if_splits)
    with Cons.IH v False show ?thesis by auto
  qed
qed simp
definition contact_ok :: "string \<times> json \<Rightarrow> bool" where
  "contact_ok = (\<lambda>(k, v). \<exists>d. v = JObj d \<and> (case dict_get d ''node'' of None \<Rightarrow> True | Some n \<Rightarrow> \<exists>t. n = JStr t))"

definition contact_node :: "string \<Rightarrow> string \<times> json \<Rightarrow> bool" where
  "contact_node n = (\<lambda>(k, v). json_get v ''node'' = Ok (Some (JStr n)) \<and> n \<noteq> [])"

lemma lift_mutes_total: "list_all contact_ok kvs \<Longrightarrow> \<exists>st'. lift_mutes (map snd kvs) st = Ok st'"
  by (induction kvs arbitrary: st) (auto simp: contact_ok_def split: option.splits)

lemma self_screen_total: "list_all contact_ok kvs \<Longrightarrow> \<exists>sc. self_screen_of kvs = Ok sc"
proof -
  assume ok: "list_all contact_ok kvs"
  show ?thesis
  proof (cases "dict_get kvs ''_self''")
    case (Some v)
    then have "(''_self'', v) \<in> set kvs" by (rule map_of_SomeD)
    with ok obtain d where "v = JObj d" by (auto simp: list_all_iff contact_ok_def)
    with Some show ?thesis by (simp add: self_screen_of_def get_default_def)
  qed (simp add: self_screen_of_def get_default_def)
qed

lemma cache_moved_contacts:
  "load_contacts (contacts_path e) (fs_step (Replace (cache_path e) (cache_path e @ ''.bad'')) s) = load_contacts (contacts_path e) s"
proof -
  have "last (contacts_path e) = CHR ''n''" "last (cache_path e) = CHR ''b''"
    by (simp_all add: contacts_path_def cache_path_def last_path_join plain_name_def)
  then have "contacts_path e \<noteq> cache_path e" "contacts_path e \<noteq> cache_path e @ ''.bad''" by auto
  then show ?thesis by (simp add: load_contacts_def os_exists_def os_read_def split: option.split)
qed

lemma open_store_muted: "open_store N pw fresh db = Ok st \<Longrightarrow> t_muted_nodes st = t_muted_nodes db"
  by (auto simp: open_store_def salt_def Let_def split: option.splits elim!: bind_res_Ok)

lemma open_or_recover_total:
  obtains st rec s1 where "open_or_recover N e pw fresh db s = (Ok (st, rec), s1)"
    "t_muted_nodes st = t_muted_nodes (if is_ok (open_store N pw fresh db) then db else empty_store)"
    "rec = None \<longleftrightarrow> is_ok (open_store N pw fresh db)"
    "load_contacts (contacts_path e) s1 = load_contacts (contacts_path e) s"
proof (cases "open_store N pw fresh db")
  case (Ok st)
  with that [of st None s] open_store_muted [OF Ok] show thesis by (simp add: open_or_recover_def)
next
  case (Err ex)
  obtain st where st: "open_store N pw fresh empty_store = Ok st" by (simp add: open_store_def salt_def empty_store_def)
  with that [of st "Some (''corrupted state recovered as .bad ('' @ exn_str ex @ '')'')"
      "fs_step (Replace (cache_path e) (cache_path e @ ''.bad'')) s"] Err open_store_muted [OF st] cache_moved_contacts [of e s]
  show thesis by (simp add: open_or_recover_def)
qed

section \<open>Properties\<close>

text \<open>
  C33: a backup restores the identity, the node key and the contacts: exported on one machine and
  restored on another with a new passphrase, the identity opens with that passphrase, the node
  key file holds the same key and the contact list is the same.
\<close>

theorem backup_restores:
  assumes "nacl_ok N" and "length (identity (s_client s)) = 32" and "nseed \<noteq> []"
    and "os_read (path_join (daemon_dir e) ''node.key'') f = Ok raw" and "decode_utf8 raw = Ok t" and "py_strip t = bytes_hex nseed"
    and "load_contacts (contacts_path e) f = Ok (JObj kvs)" and "valid_json (JObj kvs)" and "kvs \<noteq> []"
    and "valid_str (s_screen s)" and "valid_str (pubkey_hex (s_client s))"
    and "export_backup_to N e path pw slt d s f = (r, f1)" and "files g path2 = files f1 path"
    and "restore_bundle N e2 path2 pw app slt2 d2 g = (r2, g')"
  shows "r = Ok () \<and> is_ok r2 \<and> load_identity N (identity_path e2) app g' = Ok (identity (s_client s)) \<and>
    os_read (path_join (daemon_dir e2) ''node.key'') g' = Ok (encode_utf8 (bytes_hex nseed) @ [10]) \<and>
    load_contacts (contacts_path e2) g' = Ok (JObj kvs)"
proof -
  let ?data = "JObj [(''identitySeed'', JStr (bytes_hex (identity (s_client s)))), (''nodeSeed'', JStr (bytes_hex nseed)),
      (''screen'', JStr (s_screen s)), (''pubkey'', JStr (pubkey_hex (s_client s))), (''contacts'', JObj kvs)]"
  have valid: "valid_json ?data" using assms(8,10,11) by (simp add: valid_str_lit)
  have "backup_payload N e s f = Ok ?data" using assms(4-7) by (simp add: backup_payload_def)
  with assms(12) have f1: "r = Ok ()" "f1 = save_bundle N path pw ?data slt d f" by (auto simp: export_backup_to_def)
  then have "load_bundle N path2 pw g = Ok ?data"
    using load_bundle_copied [OF assms(13)] load_save_bundle [OF assms(1) valid] by blast
  from restore_payload [OF assms(1,2,9,3,8) this assms(14)] f1(1) show ?thesis by blast
qed

theorem backup_restores_witness:
  "\<exists>e f s r f1 r2 g'. export_backup_to plain_nacl e ''/b'' ''pw'' [] 0 s f = (r, f1) \<and>
     restore_bundle plain_nacl e ''/b'' ''pw'' ''new'' [] 0 f1 = (r2, g') \<and> r = Ok () \<and>
     load_identity plain_nacl (identity_path e) ''new'' g' = Ok (identity (s_client s))"
proof -
  let ?e = "\<lparr>environ = Map.empty, home_dir = ''/h''\<rparr> :: pyenv"
  let ?kvs = "[(''_self'', JObj [(''screen'', JStr ''ann'')])]"
  let ?fbase = "snd (write_node_key (daemon_dir ?e) [1] \<lparr>files = Map.empty, dirs = Map.empty\<rparr>)"
  let ?f = "save_contacts (contacts_path ?e) ?kvs ?fbase"
  let ?s = "\<lparr>s_store = empty_store, s_recovered = None, s_node = JNull, s_screen = ''ann'',
     s_client = client_init plain_nacl (replicate 32 1) ''ann''\<rparr>"
  let ?t = "''01'' @ [CHR 0x0A]"
  have kvs: "valid_json (JObj ?kvs)" by (simp add: valid_str_lit)
  have "files ?f (path_join (daemon_dir ?e) ''node.key'') = files ?fbase (path_join (daemon_dir ?e) ''node.key'')"
    by (rule save_contacts_other) (use session_paths_differ [where e = ?e] in metis)+
  then have node: "os_read (path_join (daemon_dir ?e) ''node.key'') ?f = Ok (encode_utf8 (bytes_hex [1]) @ [10])"
    using write_node_key_files [of "daemon_dir ?e" "[1]"] by (simp add: os_read_def)
  have "encode_utf8 (bytes_hex [1]) @ [10] = encode_utf8 ?t" by code_simp
  moreover have "valid_str ?t" by (simp add: valid_str_lit)
  ultimately have dec: "decode_utf8 (encode_utf8 (bytes_hex [1]) @ [10]) = Ok ?t" by (simp add: decode_encode_utf8 del: append.simps)
  have strip: "py_strip ?t = bytes_hex [1]" by code_simp
  have con: "load_contacts (contacts_path ?e) ?f = Ok (JObj ?kvs)" by (rule load_save_contacts [OF kvs])
  obtain r f1 where exp: "export_backup_to plain_nacl ?e ''/b'' ''pw'' [] 0 ?s ?f = (r, f1)" by fastforce
  obtain r2 g' where res: "restore_bundle plain_nacl ?e ''/b'' ''pw'' ''new'' [] 0 f1 = (r2, g')" by fastforce
  have seed: "length (identity (s_client ?s)) = 32" by (simp add: client_init_def)
  have "valid_str (pubkey_hex (s_client ?s))" "valid_str (s_screen ?s)" by (simp_all add: client_init_def valid_str_lit)
  with backup_restores [OF plain_nacl_ok seed _ node dec strip con kvs _ _ _ exp refl res] exp res show ?thesis by blast
qed



end
