(* ===== verification/Chat.thy ===== *)
theory Chat
  imports Session
begin

text \<open>
  \<open>class MessagesView\<close> of \<open>client/aimless/gtkui.py\<close> and the parts of the main window that drive it:
  the list of conversations, the messages that arrive, the requests of unknown senders, muting
  and blocking, sending.

  Threads are objects that several variables share (\<open>self.threads\<close>, \<open>self.selected\<close>, the
  closures of running workers), so they live in the append-only list \<open>v_objs\<close> and are named by
  their index. What \<open>run_async\<close> starts is a \<open>task\<close> with the variables its closure holds; a worker's
  result is an argument of the corresponding \<open>done\<close> function. Drawing is left out, with
  everything a row or label shows that can be computed from the state. GTK's own signal for a
  selected row is a call of \<open>on_thread_selected\<close>; selecting the row that is selected already does nothing.

  The sender of an event is a string, as the daemon writes it; a node of a contact that is not a
  string is refused with a \<open>TypeError\<close>.
\<close>

section \<open>State\<close>

record thread =
  th_conv :: string
  th_room :: bool
  th_petname :: "string option"
  th_contact :: json
  th_members :: "(string, json) dict"
  th_screen :: json
  th_online :: bool
  th_away :: json
  th_preview :: json
  th_unread :: nat
  th_presence :: "(string, bool \<times> json \<times> bool) dict"

text \<open>A transfer on its way in; \<open>b_failed\<close> is set just before the buffer is dropped.\<close>

record file_buf =
  b_total :: int
  b_meta :: "(string, json) dict"
  b_chunks :: "(int, bytes) dict"

text \<open>A sent file whose chunks are not all acknowledged; \<open>r_text\<close> is the line under its bubble.\<close>

record delivery_rec =
  r_filename :: string
  r_keys :: "(string \<times> int) list"
  r_total :: nat
  r_text :: string

record view =
  v_objs :: "thread list"
  v_threads :: "(string, nat) dict"
  v_selected :: "nat option"
  v_sending :: bool
  v_history_busy :: bool
  v_catchup_busy :: bool
  v_file_bufs :: "(string \<times> string, file_buf) dict"
  v_recs :: "delivery_rec list"
  v_pending_files :: "(string \<times> int, nat) dict"
  v_acked_seen :: "(string \<times> int) list"

definition view_init :: view where
  "view_init = \<lparr>v_objs = [], v_threads = [], v_selected = None, v_sending = False, v_history_busy = False,
     v_catchup_busy = False, v_file_bufs = [], v_recs = [], v_pending_files = [], v_acked_seen = []\<rparr>"

datatype task =
    SweepTask "string list"
  | HistoryTask string "string list"
  | DeleteTask nat string "string list"
  | ClearTask nat string "string list"
  | RoomTask string "json list" string int
  | DmTask string json string int
  | FileTask nat string string string json
  | AttachmentsTask "string list"
  | SurfaceTask
  | DaemonTask job

record ui =
  u_session :: session
  u_view :: view
  u_fs :: fs
  u_prefs :: "(string, json) dict"
  u_tasks :: "task list"
  u_asking :: "json option"
  u_visible :: bool
  u_notified :: "(json \<times> json) list"
  u_sounds :: "string list"
  u_last_sound :: int

text \<open>Changes of one part of the state.\<close>

definition on_store :: "(store \<Rightarrow> store) \<Rightarrow> ui \<Rightarrow> ui" where
  "on_store f u = u\<lparr>u_session := (u_session u)\<lparr>s_store := f (s_store (u_session u))\<rparr>\<rparr>"

definition on_view :: "(view \<Rightarrow> view) \<Rightarrow> ui \<Rightarrow> ui" where
  "on_view f u = u\<lparr>u_view := f (u_view u)\<rparr>"

definition start :: "task \<Rightarrow> ui \<Rightarrow> ui" where
  "start t u = u\<lparr>u_tasks := u_tasks u @ [t]\<rparr>"

abbreviation u_store :: "ui \<Rightarrow> store" where
  "u_store u \<equiv> s_store (u_session u)"

definition upd_thread :: "nat \<Rightarrow> (thread \<Rightarrow> thread) \<Rightarrow> view \<Rightarrow> view" where
  "upd_thread i f v = v\<lparr>v_objs := (v_objs v)[i := f (v_objs v ! i)]\<rparr>"

text \<open>
  A new thread under its key, and the removal of one. When the row of the selected thread is
  destroyed GTK reports that no row is selected, which clears \<open>self.selected\<close>.
\<close>

definition new_thread :: "thread \<Rightarrow> view \<Rightarrow> view" where
  "new_thread t v = v\<lparr>v_objs := v_objs v @ [t], v_threads := dict_set (th_conv t) (length (v_objs v)) (v_threads v)\<rparr>"

definition pop_thread :: "string \<Rightarrow> view \<Rightarrow> view" where
  "pop_thread conv v =
     v\<lparr>v_threads := dict_del conv (v_threads v),
       v_selected := (if v_selected v = dict_get (v_threads v) conv then None else v_selected v)\<rparr>"

definition deselect :: "nat \<Rightarrow> view \<Rightarrow> view" where
  "deselect i v = (if v_selected v = Some i then v\<lparr>v_selected := None\<rparr> else v)"

section \<open>The list of conversations\<close>

text \<open>\<open>{info["node"] for info in contacts.values()}\<close>; lists and objects are not hashable.\<close>

fun hashable :: "json \<Rightarrow> json res" where
  "hashable (JArr _) = Err (TypeError ''unhashable type'')"
| "hashable (JObj _) = Err (TypeError ''unhashable type'')"
| "hashable v = Ok v"

definition contact_nodes :: "(string, json) dict \<Rightarrow> json list res" where
  "contact_nodes contacts = traverse_res (\<lambda>(_, info). bind_res (json_item info ''node'') hashable) contacts"

text \<open>Conversations with nodes that are no contacts any more are dropped, rooms stay.\<close>

definition stale_thread :: "json list \<Rightarrow> view \<Rightarrow> nat \<Rightarrow> bool" where
  "stale_thread nodes v i \<longleftrightarrow> \<not> th_room (v_objs v ! i) \<and> JStr (th_conv (v_objs v ! i)) \<notin> set nodes"

definition drop_threads :: "json list \<Rightarrow> view \<Rightarrow> view" where
  "drop_threads nodes v =
     v\<lparr>v_threads := filter (\<lambda>(_, i). \<not> stale_thread nodes v i) (v_threads v),
       v_selected := (case v_selected v of
          Some i \<Rightarrow> if i \<in> snd ` set (v_threads v) \<and> stale_thread nodes v i then None else Some i
        | None \<Rightarrow> None)\<rparr>"

definition sync_contact :: "string \<Rightarrow> json \<Rightarrow> view \<Rightarrow> unit res \<times> view" where
  "sync_contact petname info v =
     (case bind_res (bind_res (json_item info ''node'') dict_key) (\<lambda>node.
           bind_res (get_default info ''screen'' (JStr petname)) (\<lambda>screen. Ok (node, screen))) of
        Err ex \<Rightarrow> (Err ex, v)
      | Ok (node, screen) \<Rightarrow>
          (Ok (), case dict_get (v_threads v) node of
             Some i \<Rightarrow> upd_thread i (\<lambda>t. t\<lparr>th_petname := Some petname, th_contact := info, th_screen := screen\<rparr>) v
           | None \<Rightarrow>
               new_thread \<lparr>th_conv = node, th_room = False, th_petname = Some petname, th_contact = info, th_members = [],
                 th_screen = screen, th_online = False, th_away = JNull, th_preview = JStr [], th_unread = 0,
                 th_presence = []\<rparr> v))"

fun sync_contacts :: "(string, json) dict \<Rightarrow> view \<Rightarrow> unit res \<times> view" where
  "sync_contacts [] v = (Ok (), v)"
| "sync_contacts ((petname, info) # cs) v =
     (case sync_contact petname info v of (Err ex, v1) \<Rightarrow> (Err ex, v1) | (Ok _, v1) \<Rightarrow> sync_contacts cs v1)"

text \<open>The names of the other members, the first three of them and a count; a name that is not a text raises.\<close>

definition member_names :: "json \<Rightarrow> (string, json) dict \<Rightarrow> string list res" where
  "member_names self_node mems =
     bind_res (traverse_res (\<lambda>(n, m). bind_res (json_get m ''screen'') (\<lambda>sc.
         case name_or sc n of JStr name \<Rightarrow> Ok name | _ \<Rightarrow> Err (TypeError ''expected str instance'')))
       (filter (\<lambda>(n, _). JStr n \<noteq> self_node) mems)) (\<lambda>names. Ok (sort names))"

definition room_title :: "json \<Rightarrow> (string, json) dict \<Rightarrow> string res" where
  "room_title self_node mems =
     bind_res (member_names self_node mems) (\<lambda>screens.
       Ok (py_join '', '' (take 3 screens) @
           (if length screens > 3 then '' +'' @ nat_digits (length screens - 3) else [])))"

definition sync_room :: "nacl \<Rightarrow> json \<Rightarrow> store \<Rightarrow> string \<Rightarrow> view \<Rightarrow> unit res \<times> view" where
  "sync_room N self_node st conv v =
     (case bind_res (bind_res (members N st conv) json_dict) (\<lambda>mems.
           bind_res (room_title self_node mems) (\<lambda>title. Ok (mems, title))) of
        Err ex \<Rightarrow> (Err ex, v)
      | Ok (mems, title) \<Rightarrow>
          (Ok (), case dict_get (v_threads v) conv of
             Some i \<Rightarrow> upd_thread i (\<lambda>t. t\<lparr>th_members := mems, th_screen := JStr title\<rparr>) v
           | None \<Rightarrow>
               new_thread \<lparr>th_conv = conv, th_room = True, th_petname = None, th_contact = JNull, th_members = mems,
                 th_screen = JStr title, th_online = False, th_away = JNull, th_preview = JStr [], th_unread = 0,
                 th_presence = []\<rparr> v))"

fun sync_rooms :: "nacl \<Rightarrow> json \<Rightarrow> store \<Rightarrow> string list \<Rightarrow> view \<Rightarrow> unit res \<times> view" where
  "sync_rooms N self_node st [] v = (Ok (), v)"
| "sync_rooms N self_node st (c # cs) v =
     (case sync_room N self_node st c v of
        (Err ex, v1) \<Rightarrow> (Err ex, v1) | (Ok _, v1) \<Rightarrow> sync_rooms N self_node st cs v1)"

definition sync_sidebar :: "nacl \<Rightarrow> pyenv \<Rightarrow> (ui, unit) act" where
  "sync_sidebar N e u =
     (case bind_res (session_contacts e (u_fs u)) (\<lambda>cs. bind_res (contact_nodes cs) (\<lambda>ns. Ok (cs, ns))) of
        Err ex \<Rightarrow> (Err ex, u)
      | Ok (contacts, nodes) \<Rightarrow>
          (case sync_contacts (sort_key fst contacts) (drop_threads nodes (u_view u)) of
             (Err ex, v1) \<Rightarrow> (Err ex, u\<lparr>u_view := v1\<rparr>)
           | (Ok _, v1) \<Rightarrow>
               (case sync_rooms N (s_node (u_session u)) (u_store u) (rooms (u_store u)) v1 of
                  (r, v2) \<Rightarrow> (r, u\<lparr>u_view := v2\<rparr>))))"

section \<open>Drawing a conversation\<close>

text \<open>The line under a sent file; \<open>Delivered\<close> once no recipient has chunks left.\<close>

definition delivery_text :: "string \<Rightarrow> nat \<Rightarrow> (string \<times> int) list \<Rightarrow> string" where
  "delivery_text filename tot keys =
     (let left = length (remdups (map fst keys))
      in if tot = 0 then ''Sent '' @ filename
         else if left = 0 then ''Delivered '' @ filename @ '' '' @ [CHR 0xE2, CHR 0x9C, CHR 0x93]
         else if tot = 1 then ''Sending '' @ filename @ [CHR 0xE2, CHR 0x80, CHR 0xA6]
         else ''Sending '' @ filename @ '' - '' @ nat_digits (tot - left) @ ''/'' @ nat_digits tot @ '' delivered'')"

definition set_delivery_text :: "delivery_rec \<Rightarrow> delivery_rec" where
  "set_delivery_text r = r\<lparr>r_text := delivery_text (r_filename r) (r_total r) (r_keys r)\<rparr>"

text \<open>
  What \<open>_render_messages\<close> changes besides the widgets: a sent file whose delivery is tracked gets a
  new line, which the acknowledgements of its open chunks update from then on.
\<close>

definition tracked_file :: "msg_view \<Rightarrow> bool" where
  "tracked_file m \<longleftrightarrow> v_dir m = Out \<and> (case v_attachment m of Some a \<Rightarrow> json_truthy a | None \<Rightarrow> False) \<and>
     (case v_delivery m of Some (Some _, _, _) \<Rightarrow> True | _ \<Rightarrow> False)"

definition render_file :: "store \<Rightarrow> msg_view \<Rightarrow> view \<Rightarrow> view" where
  "render_file st m v =
     (let tot = fst (delivery_members st (v_id m)); keys = remdups (undelivered st (v_id m))
      in if \<not> tracked_file m \<or> tot = 0 then v
         else v\<lparr>v_recs := v_recs v @ [set_delivery_text
                  \<lparr>r_filename = (case v_text m of Some t \<Rightarrow> t | None \<Rightarrow> ''None''), r_keys = keys, r_total = tot, r_text = []\<rparr>],
                v_pending_files := fold (\<lambda>k. dict_set k (length (v_recs v))) keys (v_pending_files v)\<rparr>)"

definition render_messages :: "nacl \<Rightarrow> string \<Rightarrow> (ui, unit) act" where
  "render_messages N conv u =
     (case messages N (u_store u) conv of
        Err ex \<Rightarrow> (Err ex, u)
      | Ok ms \<Rightarrow> (Ok (), on_view (fold (render_file (u_store u)) ms) u))"

text \<open>\<open>_history_loaded\<close> and \<open>refresh_conversation\<close>: only the conversation on display is drawn again.\<close>

definition history_loaded :: "nacl \<Rightarrow> string \<Rightarrow> (ui, unit) act" where
  "history_loaded N conv u =
     (case v_selected (u_view u) of
        None \<Rightarrow> (Ok (), u)
      | Some i \<Rightarrow> if th_conv (v_objs (u_view u) ! i) \<noteq> conv then (Ok (), u) else render_messages N conv u)"

section \<open>Opening a conversation\<close>

text \<open>The peers of a conversation: the members of a room, or the node itself.\<close>

definition thread_peers :: "view \<Rightarrow> string \<Rightarrow> string list" where
  "thread_peers v conv =
     (case dict_get (v_threads v) conv of
        Some i \<Rightarrow> if th_room (v_objs v ! i) then map fst (th_members (v_objs v ! i)) else [conv]
      | None \<Rightarrow> [conv])"

definition load_history_async :: "string \<Rightarrow> ui \<Rightarrow> ui" where
  "load_history_async conv u =
     (if v_history_busy (u_view u) then u
      else start (HistoryTask conv (thread_peers (u_view u) conv)) (on_view (\<lambda>v. v\<lparr>v_history_busy := True\<rparr>) u))"

definition apply_hists :: "nacl \<Rightarrow> (string, json) dict \<Rightarrow> (ui, nat) act" where
  "apply_hists N hists u =
     (case apply_all N (identity (s_client (u_session u))) hists (u_store u) of
        (r, st) \<Rightarrow> (r, on_store (\<lambda>_. st) u))"

definition history_done :: "nacl \<Rightarrow> string \<Rightarrow> (string, json) dict res \<Rightarrow> (ui, unit) act" where
  "history_done N conv result u =
     (let u1 = on_view (\<lambda>v. v\<lparr>v_history_busy := False\<rparr>) u
      in case result of
           Err _ \<Rightarrow> (Ok (), u1)
         | Ok hists \<Rightarrow> bind_act (apply_hists N hists) (\<lambda>_. history_loaded N conv) u1)"

text \<open>An exception of a signal handler ends the handler only.\<close>

definition on_thread_selected :: "nacl \<Rightarrow> string option \<Rightarrow> ui \<Rightarrow> ui" where
  "on_thread_selected N row u =
     (case row of
        None \<Rightarrow> on_view (\<lambda>v. v\<lparr>v_selected := None\<rparr>) u
      | Some conv \<Rightarrow>
          (case dict_get (v_threads (u_view u)) conv of
             None \<Rightarrow> u
           | Some i \<Rightarrow>
               (case render_messages N conv
                   (on_store (mark_read conv)
                     (on_view (\<lambda>v. upd_thread i (\<lambda>t. t\<lparr>th_unread := 0\<rparr>) (v\<lparr>v_selected := Some i\<rparr>)) u)) of
                  (Err _, u1) \<Rightarrow> u1
                | (Ok _, u1) \<Rightarrow> load_history_async conv u1)))"

text \<open>\<open>select_row\<close> of a thread that may be gone.\<close>

definition select_conv :: "nacl \<Rightarrow> string \<Rightarrow> ui \<Rightarrow> ui" where
  "select_conv N conv u =
     (case dict_get (v_threads (u_view u)) conv of
        None \<Rightarrow> u
      | Some i \<Rightarrow> if v_selected (u_view u) = Some i then u else on_thread_selected N (Some conv) u)"

definition sender_label :: "thread \<Rightarrow> json \<Rightarrow> json res" where
  "sender_label t sender =
     (if \<not> json_truthy sender \<or> sender = JStr ''self'' then Ok JNull
      else case sender of
        JStr n \<Rightarrow>
          (case dict_get (th_members t) n of
             Some info \<Rightarrow>
               if json_truthy info then bind_res (json_get info ''screen'') (\<lambda>sc. Ok (name_or sc n))
               else if json_truthy (th_contact t)
               then bind_res (json_get (th_contact t) ''node'') (\<lambda>k.
                      Ok (if k = Some (JStr n) then th_screen t else JStr (first8 n)))
               else Ok (JStr (first8 n))
           | None \<Rightarrow>
               if json_truthy (th_contact t)
               then bind_res (json_get (th_contact t) ''node'') (\<lambda>k.
                      Ok (if k = Some (JStr n) then th_screen t else JStr (first8 n)))
               else Ok (JStr (first8 n)))
      | _ \<Rightarrow> Err (TypeError ''sender is not a string''))"

section \<open>Presence\<close>

definition room_presence ::
  "(json \<Rightarrow> (string, json) dict res) \<Rightarrow> json \<Rightarrow> (string, (string, json) dict) dict \<Rightarrow> string list
   \<Rightarrow> (string, bool \<times> json \<times> bool) dict" where
  "room_presence open_it self_node pres nodes =
     map (\<lambda>n. (n, presence_state open_it (case dict_get pres n of Some p \<Rightarrow> p | None \<Rightarrow> [])))
       (filter (\<lambda>n. JStr n \<noteq> self_node) nodes)"

definition refresh_thread ::
  "(json \<Rightarrow> (string, json) dict res) \<Rightarrow> json \<Rightarrow> (string, (string, json) dict) dict \<Rightarrow> thread \<Rightarrow> thread" where
  "refresh_thread open_it self_node pres t =
     (if th_room t
      then let pb = room_presence open_it self_node pres (map fst (th_members t))
           in t\<lparr>th_presence := pb, th_online := list_ex (\<lambda>(_, on, _). on) pb, th_away := JNull\<rparr>
      else case presence_state open_it (case dict_get pres (th_conv t) of Some p \<Rightarrow> p | None \<Rightarrow> []) of
             (on, away, _) \<Rightarrow> t\<lparr>th_online := on, th_away := away\<rparr>)"

definition refresh_presence ::
  "(json \<Rightarrow> (string, json) dict res) \<Rightarrow> json \<Rightarrow> (string, (string, json) dict) dict \<Rightarrow> view \<Rightarrow> view" where
  "refresh_presence open_it self_node pres v =
     fold (\<lambda>(_, i). upd_thread i (refresh_thread open_it self_node pres)) (v_threads v) v"

text \<open>\<open>{p["key"]: p for p in presence}\<close>; when the daemon does not answer everybody is offline.\<close>

definition presence_by_key :: "json \<Rightarrow> (string, (string, json) dict) dict res" where
  "presence_by_key answer =
     bind_res (json_iter answer) (\<lambda>ps.
     bind_res (traverse_res (\<lambda>p. bind_res (bind_res (json_item p ''key'') dict_key) (\<lambda>k.
         bind_res (json_dict p) (\<lambda>d. Ok (k, d)))) ps) (\<lambda>kvs. Ok (fold (\<lambda>(k, d). dict_set k d) kvs [])))"

definition presence_done ::
  "(json \<Rightarrow> (string, json) dict res) \<Rightarrow> (string, (string, json) dict) dict res \<Rightarrow> ui \<Rightarrow> ui" where
  "presence_done open_it result u =
     (case result of
        Ok p \<Rightarrow> on_view (refresh_presence open_it (s_node (u_session u)) p) u
      | Err _ \<Rightarrow>
          on_view (\<lambda>v. refresh_presence open_it (s_node (u_session u)) []
              (fold (\<lambda>(_, i). upd_thread i (\<lambda>t. t\<lparr>th_online := False\<rparr>)) (v_threads v) v)) u)"

section \<open>Catching up\<close>

definition catchup_unread :: "ui \<Rightarrow> ui" where
  "catchup_unread u =
     (if v_catchup_busy (u_view u) then u
      else start (SweepTask (remdups (concat (map (\<lambda>(conv, _). thread_peers (u_view u) conv) (v_threads (u_view u))))))
             (on_view (\<lambda>v. v\<lparr>v_catchup_busy := True\<rparr>) u))"

text \<open>\<open>len(store.messages(conv))\<close> of every conversation.\<close>

definition message_counts :: "nacl \<Rightarrow> store \<Rightarrow> (string, nat) dict \<Rightarrow> (string, nat) dict res" where
  "message_counts N st threads =
     traverse_res (\<lambda>(c, _). bind_res (messages N st c) (\<lambda>ms. Ok (c, length ms))) threads"

fun count_arrived :: "nacl \<Rightarrow> store \<Rightarrow> (string, nat) dict \<Rightarrow> (string, nat) dict \<Rightarrow> view \<Rightarrow> nat res \<times> view" where
  "count_arrived N st before [] v = (Ok 0, v)"
| "count_arrived N st before ((conv, i) # ts) v =
     (case messages N st conv of
        Err ex \<Rightarrow> (Err ex, v)
      | Ok ms \<Rightarrow>
          let delta = length ms - (case dict_get before conv of Some n \<Rightarrow> n | None \<Rightarrow> 0);
              v1 = (if delta > 0 \<and> v_selected v \<noteq> Some i
                    then upd_thread i (\<lambda>t. t\<lparr>th_unread := th_unread t + delta\<rparr>) v else v)
          in case count_arrived N st before ts v1 of
               (Ok n, v2) \<Rightarrow> (Ok (delta + n), v2)
             | (Err ex, v2) \<Rightarrow> (Err ex, v2))"

definition sweep_done :: "nacl \<Rightarrow> (string, json) dict res \<Rightarrow> (ui, nat) act" where
  "sweep_done N result u =
     (let u1 = on_view (\<lambda>v. v\<lparr>v_catchup_busy := False\<rparr>) u
      in case result of
           Err _ \<Rightarrow> (Ok 0, u1)
         | Ok hists \<Rightarrow>
             (case message_counts N (u_store u1) (v_threads (u_view u1)) of
                Err ex \<Rightarrow> (Err ex, u1)
              | Ok before \<Rightarrow>
                  bind_act (apply_hists N hists) (\<lambda>_ u2.
                    case count_arrived N (u_store u2) before (v_threads (u_view u2)) (u_view u2) of
                      (r, v) \<Rightarrow> (r, u2\<lparr>u_view := v\<rparr>)) u1))"

section \<open>Rooms\<close>

text \<open>The roster of a room, by node, from the members a message or a dialog names.\<close>

definition roster :: "json list \<Rightarrow> (string, json) dict res" where
  "roster ms =
     bind_res (traverse_res (\<lambda>m. bind_res (room_triplet m) (\<lambda>t. bind_res (json_key (fst t)) (\<lambda>k. Ok (k, triplet_json t)))) ms)
       (\<lambda>kvs. Ok (fold (\<lambda>(k, m). dict_set k m) kvs []))"

definition create_room :: "nacl \<Rightarrow> pyenv \<Rightarrow> json list \<Rightarrow> (ui, unit) act" where
  "create_room N e chosen_infos u =
     (let se = u_session u; me = triplet_json (s_node se, JStr (pubkey_hex (s_client se)), JStr (s_screen se))
      in case roster (me # chosen_infos) of
           Err ex \<Rightarrow> (Err ex, u)
         | Ok mems \<Rightarrow>
             let conv = room_id N (map fst mems)
             in bind_act (sync_sidebar N e) (\<lambda>_ u1. (Ok (), select_conv N conv u1))
                  (on_store (ensure_room N conv (JObj mems)) u))"

text \<open>The other members, sorted, and the workers' question for the newest message of each.\<close>

definition other_members :: "json \<Rightarrow> thread \<Rightarrow> string list" where
  "other_members self_node t = sort (filter (\<lambda>n. JStr n \<noteq> self_node) (map fst (th_members t)))"

fun latest_worker :: "'w request_fn \<Rightarrow> string list \<Rightarrow> (string, json) dict \<Rightarrow> (client \<times> 'w, (string, json) dict) act" where
  "latest_worker req [] d = ret_act d"
| "latest_worker req (n # ns) d =
     bind_act (history req n 0) (\<lambda>r. bind_act (lift_res (get_default r ''latest'' (JInt 0))) (\<lambda>v.
       latest_worker req ns (dict_set n v d)))"

definition latest_points :: "(string, json) dict \<Rightarrow> (string, int) dict res" where
  "latest_points d =
     traverse_res (\<lambda>(n, v). bind_res (if json_truthy v then json_int v else Ok 0) (\<lambda>i. Ok (n, i))) d"

definition on_delete_room :: "bool \<Rightarrow> ui \<Rightarrow> ui" where
  "on_delete_room confirmed u =
     (case v_selected (u_view u) of
        None \<Rightarrow> u
      | Some i \<Rightarrow>
          let t = v_objs (u_view u) ! i
          in if \<not> th_room t \<or> \<not> confirmed then u
             else start (DeleteTask i (th_conv t) (other_members (s_node (u_session u)) t)) u)"

definition delete_done :: "nat \<Rightarrow> string \<Rightarrow> (string, json) dict res \<Rightarrow> (ui, unit) act" where
  "delete_done i conv result u =
     (case result of
        Err _ \<Rightarrow> (Ok (), u)
      | Ok latests \<Rightarrow>
          (case latest_points latests of
             Err ex \<Rightarrow> (Err ex, u)
           | Ok pts \<Rightarrow> (Ok (), on_view (\<lambda>v. deselect i (pop_thread conv v)) (on_store (delete_room conv pts) u))))"

definition on_clear_history :: "bool \<Rightarrow> ui \<Rightarrow> ui" where
  "on_clear_history confirmed u =
     (case v_selected (u_view u) of
        None \<Rightarrow> u
      | Some i \<Rightarrow>
          let t = v_objs (u_view u) ! i
          in if \<not> confirmed then u
             else start (ClearTask i (th_conv t)
                    (if th_room t then other_members (s_node (u_session u)) t else [th_conv t])) u)"

definition clear_done :: "nat \<Rightarrow> string \<Rightarrow> (string, json) dict res \<Rightarrow> (ui, unit) act" where
  "clear_done i conv result u =
     (case result of
        Err _ \<Rightarrow> (Ok (), u)
      | Ok latests \<Rightarrow>
          (case latest_points latests of
             Err ex \<Rightarrow> (Err ex, on_store (clear_history conv) u)
           | Ok pts \<Rightarrow>
               (Ok (), on_view (upd_thread i (\<lambda>t. t\<lparr>th_preview := JStr []\<rparr>))
                  (on_store (\<lambda>st. fold (\<lambda>(n, latest) s. if latest \<noteq> 0 then set_scan_last conv n latest s else s) pts
                     (clear_history conv st)) u))))"

definition on_member_chip ::
  "nacl \<Rightarrow> pyenv \<Rightarrow> string \<Rightarrow> json option \<Rightarrow> bool \<Rightarrow> bool \<Rightarrow> (ui, unit) act" where
  "on_member_chip N e node screen known confirmed u =
     (if known then (Ok (), select_conv N node u)
      else if \<not> confirmed then (Ok (), u)
      else
        case (case v_selected (u_view u) of None \<Rightarrow> None | Some i \<Rightarrow> dict_get (th_members (v_objs (u_view u) ! i)) node) of
          None \<Rightarrow> (Ok (), u)
        | Some info \<Rightarrow>
            if \<not> json_truthy info then (Ok (), u)
            else
              (case get_default info ''pubkey'' JNull of
                 Err ex \<Rightarrow> (Err ex, u)
               | Ok pubkey \<Rightarrow>
                   (case add_contact_from_roster e node pubkey screen (u_fs u) of
                      (Err ex, f) \<Rightarrow> (Err ex, u\<lparr>u_fs := f\<rparr>)
                    | (Ok _, f) \<Rightarrow>
                        bind_act (sync_sidebar N e) (\<lambda>_ u1. (Ok (), select_conv N node u1))
                          (start (DaemonTask (UnblockNode node)) (on_store (unmute node) (u\<lparr>u_fs := f\<rparr>))))))"

section \<open>Muting and blocking\<close>

definition on_toggle_mute :: "nacl \<Rightarrow> ui \<Rightarrow> ui" where
  "on_toggle_mute N u =
     (case v_selected (u_view u) of
        None \<Rightarrow> u
      | Some i \<Rightarrow>
          let conv = th_conv (v_objs (u_view u) ! i)
          in on_store (if is_conversation_muted (u_store u) conv then unmute_conversation conv
                       else mute_conversation N conv) u)"

text \<open>Every entry of the node goes, under whatever name it is kept.\<close>

definition without_node :: "string \<Rightarrow> (string, json) dict \<Rightarrow> (string, json) dict res" where
  "without_node node allc =
     bind_res (traverse_res (\<lambda>(k, c). if k = ''_self'' then Ok (k, c, True)
         else bind_res (json_get c ''node'') (\<lambda>n. Ok (k, c, n \<noteq> Some (JStr node)))) allc)
       (\<lambda>kcs. Ok (map (\<lambda>(k, c, _). (k, c)) (filter (\<lambda>(_, _, stay). stay) kcs)))"

definition on_block :: "nacl \<Rightarrow> pyenv \<Rightarrow> bool \<Rightarrow> (ui, unit) act" where
  "on_block N e confirmed u =
     (case v_selected (u_view u) of
        None \<Rightarrow> (Ok (), u)
      | Some i \<Rightarrow>
          let t = v_objs (u_view u) ! i; node = th_conv t; u1 = on_store (mute node) u
          in if th_room t \<or> \<not> confirmed then (Ok (), u)
             else case enc_arg (th_screen t) of
               Err ex \<Rightarrow> (Err ex, u1)
             | Ok screen \<Rightarrow>
                 let u2 = on_store (set_blocked_screen N node screen) u1
                 in case bind_res (bind_res (load_contacts (contacts_path e) (u_fs u2)) json_dict) (without_node node) of
                      Err ex \<Rightarrow> (Err ex, u2)
                    | Ok allc \<Rightarrow>
                        (Ok (), start (DaemonTask (BlockNode node))
                           (on_view (\<lambda>v. deselect i (pop_thread node v))
                             (u2\<lparr>u_fs := save_contacts (contacts_path e) allc (u_fs u2)\<rparr>))))"

section \<open>Sending\<close>

definition append_outgoing ::
  "nacl \<Rightarrow> string \<Rightarrow> (string, int) dict \<Rightarrow> int \<Rightarrow> string \<Rightarrow> json option \<Rightarrow> (string \<times> int) list option \<Rightarrow> ui \<Rightarrow> string \<times> ui" where
  "append_outgoing N conv seqs ts body att delivery_keys u =
     (out_id seqs, on_store (\<lambda>st. snd (add_sent N conv seqs ts (Some body) att delivery_keys st)) u)"

text \<open>\<open>send_message\<close>: one message at a time; the composer is emptied when a worker starts.\<close>

definition send_message :: "string \<Rightarrow> int \<Rightarrow> ui \<Rightarrow> string \<times> ui" where
  "send_message composer now_ms u =
     (case v_selected (u_view u) of
        None \<Rightarrow> (composer, u)
      | Some i \<Rightarrow>
          let body = py_strip composer; t = v_objs (u_view u) ! i; u1 = on_view (\<lambda>v. v\<lparr>v_sending := True\<rparr>) u
          in if body = [] \<or> v_sending (u_view u) then (composer, u)
             else if th_room t then ([], start (RoomTask (th_conv t) (map snd (th_members t)) body now_ms) u1)
             else ([], start (DmTask (th_conv t) (th_contact t) body now_ms) u1))"

definition dm_worker :: "nacl \<Rightarrow> 'w request_fn \<Rightarrow> json \<Rightarrow> string \<Rightarrow> int \<Rightarrow> (client \<times> 'w, json) act" where
  "dm_worker N req contact body ts =
     bind_act (lift_res (bind_res (json_item contact ''pubkey'') dict_key)) (\<lambda>pubkey.
     bind_act (lift_res (bind_res (json_item contact ''node'') dict_key)) (\<lambda>node.
       send N req pubkey node body ts))"

definition int_seqs :: "(string, json) dict \<Rightarrow> (string, int) dict res" where
  "int_seqs seqs = traverse_res (\<lambda>(n, v). bind_res (json_int v) (\<lambda>i. Ok (n, i))) seqs"

text \<open>The row of the conversation that is selected now shows the text, whichever it was sent to.\<close>

definition preview_selected :: "json \<Rightarrow> (ui, unit) act" where
  "preview_selected p u =
     (case v_selected (u_view u) of
        None \<Rightarrow> (Err (TypeError ''NoneType object does not support item assignment''), u)
      | Some i \<Rightarrow> (Ok (), on_view (upd_thread i (\<lambda>t. t\<lparr>th_preview := p\<rparr>)) u))"

definition sent :: "nacl \<Rightarrow> string \<Rightarrow> (string, json) dict res \<Rightarrow> string \<Rightarrow> int \<Rightarrow> (ui, unit) act" where
  "sent N conv result body ts u =
     (let u1 = on_view (\<lambda>v. v\<lparr>v_sending := False\<rparr>) u
      in case result of
           Err _ \<Rightarrow> (Ok (), u1)
         | Ok seqs \<Rightarrow>
             (case int_seqs seqs of
                Err ex \<Rightarrow> (Err ex, u1)
              | Ok ss \<Rightarrow> preview_selected (JStr body) (snd (append_outgoing N conv ss ts body None None u1))))"

definition room_sent :: "nacl \<Rightarrow> string \<Rightarrow> (string, json) dict res \<Rightarrow> string \<Rightarrow> int \<Rightarrow> (ui, unit) act" where
  "room_sent N conv result body ts = sent N conv result body ts"

definition dm_sent :: "nacl \<Rightarrow> string \<Rightarrow> json \<Rightarrow> json res \<Rightarrow> string \<Rightarrow> int \<Rightarrow> (ui, unit) act" where
  "dm_sent N conv contact result body ts u =
     (case result of
        Err ex \<Rightarrow> sent N conv (Err ex) body ts u
      | Ok resp \<Rightarrow>
          (case bind_res (bind_res (json_item contact ''node'') dict_key) (\<lambda>node.
                bind_res (get_default resp ''seq'' (JInt 0)) (\<lambda>seq. Ok [(node, seq)])) of
             Err ex \<Rightarrow> (Err ex, on_view (\<lambda>v. v\<lparr>v_sending := False\<rparr>) u)
           | Ok seqs \<Rightarrow> sent N conv (Ok seqs) body ts u))"

section \<open>Requests of unknown senders\<close>

text \<open>
  \<open>surface_pending_requests\<close> up to its dialog, which runs a main loop of its own, and from the
  answer on. While a dialog is open no other is opened.
\<close>

definition surface_pending_requests :: "nacl \<Rightarrow> (ui, unit) act" where
  "surface_pending_requests N u =
     (if u_asking u \<noteq> None then (Ok (), u)
      else case pending_pop N (u_store u) of
             (Err ex, st) \<Rightarrow> (Err ex, on_store (\<lambda>_. st) u)
           | (Ok None, st) \<Rightarrow> (Ok (), on_store (\<lambda>_. st) u)
           | (Ok (Some r), st) \<Rightarrow> (Ok (), (on_store (\<lambda>_. st) u)\<lparr>u_asking := Some r\<rparr>))"

datatype choice = ACCEPT | NO | REJECT

definition req_field :: "json \<Rightarrow> string \<Rightarrow> json \<Rightarrow> json res" where
  "req_field r k d = bind_res (get_default r k d) (\<lambda>v. Ok (if json_truthy v then v else d))"

text \<open>The message that was withheld, with the room it belongs to.\<close>

definition release_request :: "nacl \<Rightarrow> json \<Rightarrow> string \<Rightarrow> (ui, string) act" where
  "release_request N r node u =
     (case bind_res (get_default r ''conv'' JNull) (\<lambda>cv.
           if json_truthy cv
           then bind_res (bind_res (get_default r ''members'' (JArr [])) json_iter) (\<lambda>ms.
                bind_res (roster ms) (\<lambda>mems. bind_res (sql_text cv) (\<lambda>conv.
                  Ok (conv, if mems = [] then u else on_store (ensure_room N conv (JObj mems)) u))))
           else Ok (node, u)) of
        Err ex \<Rightarrow> (Err ex, u)
      | Ok (conv, u1) \<Rightarrow>
          (case bind_res (entry_seq r) (\<lambda>seq. bind_res (get_default r ''ts'' (JInt 0)) (\<lambda>ts.
                bind_res (get_default r ''text'' (JStr [])) (\<lambda>body. Ok (seq, ts, body)))) of
             Err ex \<Rightarrow> (Err ex, u1)
           | Ok (seq, ts, body) \<Rightarrow>
               (case ingest_json N (JStr conv) node seq ts body (u_store u1) of
                  (Err ex, st) \<Rightarrow> (Err ex, on_store (\<lambda>_. st) u1)
                | (Ok _, st) \<Rightarrow> (Ok conv, on_store (\<lambda>_. st) u1))))"

definition accept_request :: "nacl \<Rightarrow> pyenv \<Rightarrow> json \<Rightarrow> string \<Rightarrow> (ui, unit) act" where
  "accept_request N e r node u =
     (case bind_res (json_item r ''pubkey'') (\<lambda>pubkey. bind_res (json_get r ''screen'') (\<lambda>screen. Ok (pubkey, screen))) of
        Err ex \<Rightarrow> (Err ex, u)
      | Ok (pubkey, screen) \<Rightarrow>
          (case add_contact_from_roster e node pubkey screen (u_fs u) of
             (Err ex, f) \<Rightarrow> (Err ex, u\<lparr>u_fs := f\<rparr>)
           | (Ok _, f) \<Rightarrow>
               bind_act (release_request N r node) (\<lambda>conv. bind_act (sync_sidebar N e) (\<lambda>_. history_loaded N conv))
                 (start (DaemonTask (UnblockNode node)) (on_store (unmute node) (u\<lparr>u_fs := f\<rparr>)))))"

definition block_request :: "nacl \<Rightarrow> json \<Rightarrow> string \<Rightarrow> (ui, unit) act" where
  "block_request N r node u =
     (let u1 = on_store (mute node) u
      in case bind_res (json_get r ''screen'') (\<lambda>sc. enc_arg (name_or sc node)) of
           Err ex \<Rightarrow> (Err ex, u1)
         | Ok screen \<Rightarrow>
             (Ok (), start (DaemonTask (BlockNode node)) (on_store (set_blocked_screen N node screen) u1)))"

definition answer_request :: "nacl \<Rightarrow> pyenv \<Rightarrow> choice \<Rightarrow> (ui, unit) act" where
  "answer_request N e answer u =
     (case u_asking u of
        None \<Rightarrow> (Ok (), u)
      | Some r \<Rightarrow>
          let u1 = u\<lparr>u_asking := None\<rparr>
          in case bind_res (json_item r ''node'') dict_key of
               Err ex \<Rightarrow> (Err ex, u1)
             | Ok node \<Rightarrow>
                 bind_act (case answer of
                     ACCEPT \<Rightarrow> accept_request N e r node
                   | NO \<Rightarrow> block_request N r node
                   | REJECT \<Rightarrow> ret_act ()) (\<lambda>_ u2. (Ok (), start SurfaceTask u2)) u1)"

section \<open>Messages that arrive\<close>

definition alert_state :: "string \<Rightarrow> string \<Rightarrow> ui \<Rightarrow> bool \<times> bool \<times> bool" where
  "alert_state conv node u =
     (u_visible u \<and> (case v_selected (u_view u) of None \<Rightarrow> False | Some i \<Rightarrow> th_conv (v_objs (u_view u) ! i) = conv),
      is_conversation_muted (u_store u) conv, is_muted (u_store u) node)"

text \<open>The notification and the sound of a new message.\<close>

definition alert :: "pyenv \<Rightarrow> int \<Rightarrow> string \<Rightarrow> string \<Rightarrow> json \<Rightarrow> json \<Rightarrow> ui \<Rightarrow> ui" where
  "alert e now_ms conv node who what u =
     (let (visible, muted, blocked) = alert_state conv node u;
          u1 = (if should_notify visible muted blocked (u_prefs u) then u\<lparr>u_notified := u_notified u @ [(who, what)]\<rparr> else u)
      in if should_play_sound e visible muted blocked (u_prefs u)
         then (case play_notification_sound (sound_enabled e (u_prefs u)) False now_ms (u_last_sound u) of
                 (cmd, t) \<Rightarrow> u1\<lparr>u_sounds := u_sounds u1 @ (case cmd of None \<Rightarrow> [] | Some c \<Rightarrow> [c]), u_last_sound := t\<rparr>)
         else u1)"

text \<open>A message with a conversation id brings the room and its roster.\<close>

definition incoming_room :: "nacl \<Rightarrow> string \<Rightarrow> (string, json) dict \<Rightarrow> (ui, unit) act" where
  "incoming_room N node opened u =
     (case dict_get opened ''conv'' of
        None \<Rightarrow> (Ok (), u)
      | Some cv \<Rightarrow>
          if \<not> json_truthy cv then (Ok (), u)
          else
            (case bind_res (bind_res (json_iter (case dict_get opened ''members'' of None \<Rightarrow> JArr [] | Some v \<Rightarrow> v)) roster)
                   (\<lambda>mems. if mems = [] then Ok None else bind_res (sql_text cv) (\<lambda>conv. Ok (Some (conv, mems)))) of
               Err ex \<Rightarrow> (Err ex, u)
             | Ok None \<Rightarrow> (Ok (), u)
             | Ok (Some (conv, mems)) \<Rightarrow> (Ok (), on_store (ensure_room N conv (JObj mems)) u)))"

definition add_recv_json :: "nacl \<Rightarrow> string \<Rightarrow> string \<Rightarrow> (string, json) dict \<Rightarrow> (string, json) dict \<Rightarrow> (ui, unit) act" where
  "add_recv_json N conv node ev opened u =
     (case bind_res (entry_seq (JObj ev)) (\<lambda>seq. bind_res (json_item (JObj opened) ''ts'') (\<lambda>ts.
           bind_res (json_item (JObj opened) ''text'') (\<lambda>body. Ok (seq, ts, body)))) of
        Err ex \<Rightarrow> (Err ex, u)
      | Ok (seq, ts, body) \<Rightarrow>
          (case ingest_json N (JStr conv) node seq ts body (u_store u) of
             (Err ex, st) \<Rightarrow> (Err ex, on_store (\<lambda>_. st) u)
           | (Ok _, st) \<Rightarrow> (Ok (), on_store (\<lambda>_. st) u)))"

text \<open>What is kept of a message until its sender is accepted.\<close>

definition request_entry :: "string \<Rightarrow> (string, json) dict \<Rightarrow> (string, json) dict \<Rightarrow> (string, json) dict res" where
  "request_entry node ev opened =
     (let get = (\<lambda>d k. case dict_get d k of Some v \<Rightarrow> v | None \<Rightarrow> JNull)
      in bind_res (json_item (JObj opened) ''ts'') (\<lambda>ts. bind_res (json_item (JObj opened) ''text'') (\<lambda>body.
         Ok [(''node'', JStr node), (''pubkey'', get opened ''from''),
             (''screen'', name_or (dict_get opened ''screen'') node), (''conv'', get opened ''conv''),
             (''members'', if json_truthy (get opened ''members'') then get opened ''members'' else JArr []),
             (''seq'', case dict_get ev ''seq'' of Some v \<Rightarrow> v | None \<Rightarrow> JInt 0), (''ts'', ts), (''text'', body)])))"

definition withhold :: "nacl \<Rightarrow> string \<Rightarrow> (string, json) dict \<Rightarrow> (string, json) dict \<Rightarrow> (ui, unit) act" where
  "withhold N node ev opened u =
     (if is_muted (u_store u) node then (Ok (), u)
      else case request_entry node ev opened of
             Err ex \<Rightarrow> (Err ex, u)
           | Ok r \<Rightarrow> surface_pending_requests N (on_store (add_pending N r) u))"

text \<open>The thread of a known sender's message, after a look at the store when there is none.\<close>

definition find_thread :: "nacl \<Rightarrow> pyenv \<Rightarrow> string \<Rightarrow> (ui, nat option) act" where
  "find_thread N e conv u =
     (case dict_get (v_threads (u_view u)) conv of
        Some i \<Rightarrow> (Ok (Some i), u)
      | None \<Rightarrow> bind_act (sync_sidebar N e) (\<lambda>_ u1. (Ok (dict_get (v_threads (u_view u1)) conv), u1)) u)"

definition show_incoming :: "nat \<Rightarrow> json \<Rightarrow> ui \<Rightarrow> ui" where
  "show_incoming i p u =
     on_view (\<lambda>v. upd_thread i (\<lambda>t. if v_selected v = Some i then t\<lparr>th_preview := p\<rparr>
        else t\<lparr>th_preview := p, th_unread := th_unread t + 1\<rparr>) v) u"

definition incoming_text :: "nacl \<Rightarrow> pyenv \<Rightarrow> int \<Rightarrow> string \<Rightarrow> (string, json) dict \<Rightarrow> (string, json) dict \<Rightarrow> (ui, unit) act" where
  "incoming_text N e now_ms node ev opened =
     bind_act (incoming_room N node opened) (\<lambda>_.
     bind_act (lift_res (sql_text (opened_conv node opened))) (\<lambda>conv u.
       if is_conversation_muted (u_store u) conv then add_recv_json N conv node ev opened u
       else
         (case bind_res (session_contacts e (u_fs u)) contact_nodes of
            Err ex \<Rightarrow> (Err ex, u)
          | Ok nodes \<Rightarrow>
              if JStr node \<notin> set nodes then withhold N node ev opened u
              else
                bind_act (find_thread N e conv) (\<lambda>th.
                  case th of
                    None \<Rightarrow> ret_act ()
                  | Some i \<Rightarrow>
                      bind_act (add_recv_json N conv node ev opened) (\<lambda>_ u1.
                        case json_item (JObj opened) ''text'' of
                          Err ex \<Rightarrow> (Err ex, u1)
                        | Ok body \<Rightarrow>
                            (Ok (), alert e now_ms conv node (name_or (dict_get opened ''screen'') node) body
                               (show_incoming i body u1)))) u)))"

definition incoming_message :: "nacl \<Rightarrow> pyenv \<Rightarrow> int \<Rightarrow> (string, json) dict \<Rightarrow> (ui, unit) act" where
  "incoming_message N e now_ms ev u =
     (case dict_get ev ''from'' of
        Some (JStr node) \<Rightarrow>
          (case decrypt_recv N (s_client (u_session u)) ev of
             Err ex \<Rightarrow> (if is_ValueError ex \<or> is_KeyError ex then Ok () else Err ex, u)
           | Ok opened \<Rightarrow> incoming_text N e now_ms node ev opened u)
      | _ \<Rightarrow> (Err (TypeError ''sender is not a string''), u))"

text \<open>The main window on a store, without files and contacts.\<close>

definition new_window :: "nacl \<Rightarrow> bytes \<Rightarrow> store \<Rightarrow> ui" where
  "new_window N seed st =
     \<lparr>u_session = \<lparr>s_store = st, s_recovered = None, s_node = JStr ''me'', s_screen = ''me'', s_client = client_init N seed ''me''\<rparr>,
      u_view = view_init, u_fs = \<lparr>files = (\<lambda>_. None), dirs = (\<lambda>_. None)\<rparr>, u_prefs = [], u_tasks = [], u_asking = None,
      u_visible = False, u_notified = [], u_sounds = [], u_last_sound = 0\<rparr>"

definition empty_dm :: "string \<Rightarrow> thread" where
  "empty_dm node = \<lparr>th_conv = node, th_room = False, th_petname = None, th_contact = JNull, th_members = [], th_screen = JStr node,
     th_online = False, th_away = JNull, th_preview = JStr [], th_unread = 0, th_presence = []\<rparr>"

definition home_env :: "string \<Rightarrow> pyenv" where
  "home_env h = \<lparr>environ = (\<lambda>_. None), home_dir = h\<rparr>"

lemma new_window_sel [simp]:
  "u_store (new_window N seed st) = st" "u_view (new_window N seed st) = view_init"
  "identity (s_client (u_session (new_window N seed st))) = seed" "u_asking (new_window N seed st) = None"
  "session_contacts e (u_fs (new_window N seed st)) = Ok []" "contact_nodes [] = Ok []"
  by (simp_all add: new_window_def client_init_def session_contacts_def load_contacts_def os_exists_def contact_nodes_def)

lemma sealed_hi:
  assumes "nacl_ok N" "length a = 32" "length b = 32"
  shows "\<exists>p. seal_message N 0 a (bytes_hex (n_verify_key N b)) ''hi'' 7 None None None = Ok p \<and>
    open_message N b p = Ok (opened_message (bytes_hex (n_verify_key N a)) ''hi'' 7 None None None)"
proof -
  have "valid_json (JObj (message_body ''hi'' 7 None None None))" by (rule message_body_valid) (auto simp: valid_str_lit)
  then show ?thesis using open_seal_message [OF assms, of "''hi''" 7 None None None 0] by blast
qed

section \<open>Frames\<close>

lemma on_store_sel [simp]:
  "u_store (on_store f u) = f (u_store u)" "u_view (on_store f u) = u_view u" "u_fs (on_store f u) = u_fs u"
  "u_prefs (on_store f u) = u_prefs u" "u_tasks (on_store f u) = u_tasks u" "u_asking (on_store f u) = u_asking u"
  "u_notified (on_store f u) = u_notified u" "u_visible (on_store f u) = u_visible u" "u_sounds (on_store f u) = u_sounds u"
  "s_client (u_session (on_store f u)) = s_client (u_session u)" "s_node (u_session (on_store f u)) = s_node (u_session u)"
  by (simp_all add: on_store_def)

lemma on_view_sel [simp]:
  "u_session (on_view f u) = u_session u" "u_view (on_view f u) = f (u_view u)" "u_fs (on_view f u) = u_fs u"
  "u_prefs (on_view f u) = u_prefs u" "u_tasks (on_view f u) = u_tasks u" "u_asking (on_view f u) = u_asking u"
  "u_notified (on_view f u) = u_notified u" "u_visible (on_view f u) = u_visible u" "u_sounds (on_view f u) = u_sounds u"
  by (simp_all add: on_view_def)

lemma start_sel [simp]:
  "u_session (start t u) = u_session u" "u_view (start t u) = u_view u" "u_fs (start t u) = u_fs u"
  "u_prefs (start t u) = u_prefs u" "u_tasks (start t u) = u_tasks u @ [t]" "u_asking (start t u) = u_asking u"
  "u_notified (start t u) = u_notified u"
  by (simp_all add: start_def)

lemma enc_sel [simp]:
  "t_messages (snd (enc N x st)) = t_messages st" "t_conversations (snd (enc N x st)) = t_conversations st"
  "t_pending (snd (enc N x st)) = t_pending st" "t_muted_nodes (snd (enc N x st)) = t_muted_nodes st"
  by (simp_all add: enc_def split: option.split)

lemma ensure_room_sel [simp]:
  "t_messages (ensure_room N c m st) = t_messages st" "t_pending (ensure_room N c m st) = t_pending st"
  "t_muted_nodes (ensure_room N c m st) = t_muted_nodes st"
  by (simp_all add: ensure_room_def enc_def)

lemma is_muted_cong: "t_muted_nodes st = t_muted_nodes st' \<Longrightarrow> is_muted st = is_muted st'"
  by (simp add: is_muted_def fun_eq_iff)

lemma ensure_room_muted [simp]:
  "is_conversation_muted (ensure_room N c m st) k = is_conversation_muted st k"
  by (simp add: ensure_room_def enc_def is_conversation_muted_def dict_get_set map_add_def split: option.split)

text \<open>Bringing a room changes the list of conversations only.\<close>

lemma incoming_room_frame:
  assumes "incoming_room N node opened u = (r, u1)"
  shows "t_messages (u_store u1) = t_messages (u_store u)" "t_pending (u_store u1) = t_pending (u_store u)"
    and "t_muted_nodes (u_store u1) = t_muted_nodes (u_store u)"
    and "is_conversation_muted (u_store u1) c = is_conversation_muted (u_store u) c"
    and "u_view u1 = u_view u" "u_fs u1 = u_fs u" "u_asking u1 = u_asking u" "u_notified u1 = u_notified u" "u_sounds u1 = u_sounds u"
  using assms by (auto simp: incoming_room_def split: option.splits if_splits res.splits)

lemma add_pending_frame [simp]:
  "t_messages (add_pending N r st) = t_messages st" "t_conversations (add_pending N r st) = t_conversations st"
  "t_muted_nodes (add_pending N r st) = t_muted_nodes st"
  by (simp_all add: add_pending_def enc_def Let_def)

lemma pending_pop_frame [simp]:
  "t_messages (snd (pending_pop N st)) = t_messages st" "t_conversations (snd (pending_pop N st)) = t_conversations st"
  "t_muted_nodes (snd (pending_pop N st)) = t_muted_nodes st"
  by (simp_all add: pending_pop_def Let_def split: list.split prod.split)

lemma pending_pop_eq:
  "pending_pop N st = (r, st1) \<Longrightarrow> t_messages st1 = t_messages st \<and> t_conversations st1 = t_conversations st"
  using pending_pop_frame [of N st] by (metis snd_conv)

lemma surface_frame:
  assumes "surface_pending_requests N u = (r, u1)"
  shows "t_messages (u_store u1) = t_messages (u_store u)" "t_conversations (u_store u1) = t_conversations (u_store u)"
    and "u_view u1 = u_view u" "u_fs u1 = u_fs u" "u_notified u1 = u_notified u" "u_sounds u1 = u_sounds u"
  using assms
  by (auto simp: surface_pending_requests_def split: if_splits prod.splits res.splits option.splits dest: pending_pop_eq)

lemma withhold_frame:
  assumes "withhold N node ev opened u = (r, u1)"
  shows "t_messages (u_store u1) = t_messages (u_store u)" "t_conversations (u_store u1) = t_conversations (u_store u)"
    and "u_view u1 = u_view u" "u_fs u1 = u_fs u" "u_notified u1 = u_notified u" "u_sounds u1 = u_sounds u"
    and "is_muted (u_store u) node \<Longrightarrow> u1 = u"
  using assms by (auto simp: withhold_def split: if_splits res.splits dest: surface_frame)

text \<open>
  A node that is no contact, or contacts that cannot be read, and an event in a conversation that
  is not muted.
\<close>

definition unknown_node :: "pyenv \<Rightarrow> string \<Rightarrow> ui \<Rightarrow> bool" where
  "unknown_node e node u \<longleftrightarrow> (\<forall>nodes. bind_res (session_contacts e (u_fs u)) contact_nodes = Ok nodes \<longrightarrow> JStr node \<notin> set nodes)"

definition unmuted_event :: "nacl \<Rightarrow> (string, json) dict \<Rightarrow> string \<Rightarrow> ui \<Rightarrow> bool" where
  "unmuted_event N ev node u \<longleftrightarrow> (\<forall>opened conv. decrypt_recv N (s_client (u_session u)) ev = Ok opened \<longrightarrow>
     sql_text (opened_conv node opened) = Ok conv \<longrightarrow> \<not> is_conversation_muted (u_store u) conv)"

lemma incoming_unknown:
  assumes "dict_get ev ''from'' = Some (JStr node)" and "unknown_node e node u" and "unmuted_event N ev node u"
    and "incoming_message N e now_ms ev u = (r, u')"
  shows "t_messages (u_store u') = t_messages (u_store u) \<and> u_fs u' = u_fs u \<and> u_view u' = u_view u \<and>
    u_notified u' = u_notified u \<and> u_sounds u' = u_sounds u \<and>
    (is_muted (u_store u) node \<longrightarrow> t_pending (u_store u') = t_pending (u_store u) \<and> u_asking u' = u_asking u)"
proof (cases "decrypt_recv N (s_client (u_session u)) ev")
  case (Ok opened)
  obtain r1 u1 where room: "incoming_room N node opened u = (r1, u1)" by fastforce
  note frame = incoming_room_frame [OF room]
  have run: "incoming_text N e now_ms node ev opened u = (r, u')" using assms(1,4) Ok by (simp add: incoming_message_def)
  have muted: "is_muted (u_store u1) node \<longleftrightarrow> is_muted (u_store u) node" by (simp add: is_muted_def frame)
  show ?thesis
  proof (cases "r1 = Ok () \<and> is_ok (sql_text (opened_conv node opened))")
    case True
    then obtain conv where conv: "sql_text (opened_conv node opened) = Ok conv" by (cases "sql_text (opened_conv node opened)") auto
    with assms(3) Ok frame have "\<not> is_conversation_muted (u_store u1) conv" by (simp add: unmuted_event_def)
    with run room True conv assms(2) frame have "u' = u1 \<or> withhold N node ev opened u1 = (r, u')"
      by (auto simp: incoming_text_def bind_act_def lift_res_def unknown_node_def split: res.splits)
    then show ?thesis using frame muted withhold_frame by (metis (no_types, lifting))
  next
    case False
    with run room have "u' = u1"
      by (auto simp: incoming_text_def bind_act_def lift_res_def split: res.splits)
    with frame show ?thesis by simp
  qed
qed (use assms in \<open>auto simp: incoming_message_def split: if_splits\<close>)

section \<open>A message between two nodes\<close>

lemma opened_dm [simp]:
  "opened_conv node (opened_message h body ts screen None None) = JStr node"
  "incoming_room N node (opened_message h body ts screen None None) u = (Ok (), u)"
  "dict_get (opened_message h body ts screen None None) ''text'' = Some (JStr body)"
  "dict_get (opened_message h body ts screen None None) ''ts'' = Some (JInt ts)"
  "dict_get (opened_message h body ts screen None None) ''from'' = Some (JStr h)"
  "dict_get (opened_message h body ts screen None None) ''conv'' = None"
  "dict_get (opened_message h body ts screen None None) ''members'' = None"
  by (cases screen; simp add: opened_conv_def opened_message_def opt_field_def incoming_room_def)+

lemma ingest_muted [simp]:
  "is_conversation_muted (snd (ingest N conv sender seq ts body att st)) c = is_conversation_muted st c"
  "is_muted (snd (ingest N conv sender seq ts body att st)) node = is_muted st node"
  by (auto simp: is_conversation_muted_def is_muted_def ingest_sel Let_def dict_get_update_row ensure_conv_def enc_def
      insert_or_ignore_def map_add_def split: option.split)

lemma add_recv_dm:
  assumes "entry_seq (JObj ev) = Ok seq"
  shows "add_recv_json N node node ev (opened_message h body ts screen None None) u =
    (Ok (), on_store (\<lambda>st. snd (ingest N node node seq ts (Some body) None st)) u)"
  using assms by (simp add: add_recv_json_def ingest_json_def on_store_def split: prod.split)

lemma alert_sel [simp]:
  "u_view (alert e now_ms conv node who what u) = u_view u"
  "u_session (alert e now_ms conv node who what u) = u_session u"
  "u_fs (alert e now_ms conv node who what u) = u_fs u"
  "u_tasks (alert e now_ms conv node who what u) = u_tasks u"
  "u_asking (alert e now_ms conv node who what u) = u_asking u"
  "u_notified (alert e now_ms conv node who what u) =
     u_notified u @ (case alert_state conv node u of (visible, muted, blocked) \<Rightarrow>
       if should_notify visible muted blocked (u_prefs u) then [(who, what)] else [])"
  by (simp_all add: alert_def Let_def split: prod.split)

lemma show_incoming_sel [simp]:
  "u_session (show_incoming i p u) = u_session u" "u_fs (show_incoming i p u) = u_fs u"
  "u_prefs (show_incoming i p u) = u_prefs u" "u_notified (show_incoming i p u) = u_notified u"
  "v_selected (u_view (show_incoming i p u)) = v_selected (u_view u)" "u_visible (show_incoming i p u) = u_visible u"
  by (simp_all add: show_incoming_def upd_thread_def)

lemma incoming_contact:
  assumes "dict_get ev ''from'' = Some (JStr node)" and "entry_seq (JObj ev) = Ok seq"
    and "decrypt_recv N (s_client (u_session u)) ev = Ok (opened_message h body ts screen None None)"
    and "\<not> is_conversation_muted (u_store u) node"
    and "session_contacts e (u_fs u) = Ok cs" and "contact_nodes cs = Ok nodes" and "JStr node \<in> set nodes"
    and "dict_get (v_threads (u_view u)) node = Some i"
  shows "incoming_message N e now_ms ev u =
    (Ok (), alert e now_ms node node (name_or (dict_get (opened_message h body ts screen None None) ''screen'') node) (JStr body)
       (show_incoming i (JStr body) (on_store (\<lambda>st. snd (ingest N node node seq ts (Some body) None st)) u)))"
  using assms by (simp add: incoming_message_def incoming_text_def bind_act_def lift_res_def find_thread_def add_recv_dm)

section \<open>Properties\<close>

text \<open>
  C8: a message of a sender who is not a contact, in a conversation that is not muted, changes no
  stored message, no contact, no conversation in the list and raises no notification or sound,
  whatever it contains and whether or not the handler raises; from a blocked sender it does not
  even reach the requests.
\<close>

theorem stranger_withheld:
  assumes "dict_get ev ''from'' = Some (JStr node)" and "unknown_node e node u" and "unmuted_event N ev node u"
    and "incoming_message N e now_ms ev u = (r, u')"
  shows "t_messages (u_store u') = t_messages (u_store u) \<and> u_fs u' = u_fs u \<and> u_view u' = u_view u \<and>
    u_notified u' = u_notified u \<and> u_sounds u' = u_sounds u \<and>
    (is_muted (u_store u) node \<longrightarrow> t_pending (u_store u') = t_pending (u_store u) \<and> u_asking u' = u_asking u)"
  using assms by (rule incoming_unknown)

theorem stranger_withheld_witness:
  "\<exists>p r u'. open_message plain_nacl (replicate 32 2) p = Ok (opened_message (bytes_hex (replicate 32 1)) ''hi'' 7 None None None) \<and>
     incoming_message plain_nacl (home_env ''/h'') 0
       [(''from'', JStr ''ann''), (''payload'', JStr p)] (new_window plain_nacl (replicate 32 2) empty_store) = (r, u') \<and>
     t_messages (u_store u') = [] \<and> u_view u' = view_init"
proof -
  define a b :: bytes where ab: "a = replicate 32 1" "b = replicate 32 2"
  have key: "n_verify_key plain_nacl a = a" by (simp add: plain_nacl_def)
  have len: "length a = 32" "length b = 32" by (simp_all add: ab)
  obtain p where p: "open_message plain_nacl b p = Ok (opened_message (bytes_hex a) ''hi'' 7 None None None)"
    using sealed_hi [OF plain_nacl_ok len] key by metis
  let ?ev = "[(''from'', JStr ''ann''), (''payload'', JStr p)]" and ?u = "new_window plain_nacl b empty_store"
  have opened: "decrypt_recv plain_nacl (s_client (u_session ?u)) ?ev = Ok (opened_message (bytes_hex a) ''hi'' 7 None None None)"
    using p by (simp add: decrypt_recv_def)
  obtain r u' where run: "incoming_message plain_nacl (home_env ''/h'') 0 ?ev ?u = (r, u')" by fastforce
  have "t_messages (u_store u') = t_messages (u_store ?u) \<and> u_view u' = u_view ?u"
    using stranger_withheld [OF _ _ _ run, of "''ann''"] opened
    by (simp add: unknown_node_def unmuted_event_def is_conversation_muted_def empty_store_def)
  with run p show ?thesis unfolding ab
    by (intro exI [of _ p] exI [of _ r] exI [of _ u']) (simp add: empty_store_def)
qed

lemma contact_message_run:
  assumes N: "nacl_ok N" and st: "store_ok N (u_store u)" and node: "valid_str node" "valid_str body"
    and opened: "decrypt_recv N (s_client (u_session u)) ev = Ok (opened_message h body ts screen None None)"
    and ev: "dict_get ev ''from'' = Some (JStr node)" "entry_seq (JObj ev) = Ok seq"
    and new: "is_new (u_store u) (in_id node seq)" and loud: "\<not> is_conversation_muted (u_store u) node"
    and contacts: "session_contacts e (u_fs u) = Ok cs" "contact_nodes cs = Ok nodes" "JStr node \<in> set nodes"
    and thread: "dict_get (v_threads (u_view u)) node = Some i" "i < length (v_objs (u_view u))" "th_conv (v_objs (u_view u) ! i) = node"
  shows "\<exists>u' ms m. incoming_message N e now_ms ev u = (Ok (), u') \<and>
    messages N (u_store u') node = Ok ms \<and> m \<in> set ms \<and> v_id m = in_id node seq \<and> v_dir m = In \<and> v_attachment m = None \<and>
    v_text m = Some body \<and> v_ts m = ts \<and>
    th_preview (v_objs (u_view u') ! i) = JStr body \<and>
    th_unread (v_objs (u_view u') ! i) = th_unread (v_objs (u_view u) ! i) + (if v_selected (u_view u) = Some i then 0 else 1) \<and>
    length (u_notified u') = length (u_notified u) +
      (if should_notify (fst (alert_state node node u)) False (is_muted (u_store u) node) (u_prefs u) then 1 else 0)"
proof -
  let ?u1 = "on_store (\<lambda>st. snd (ingest N node node seq ts (Some body) None st)) u"
  let ?u2 = "show_incoming i (JStr body) ?u1"
  note run = incoming_contact [OF ev opened loud contacts thread(1)]
  obtain ms m where ms: "messages N (u_store ?u1) node = Ok ms" "m \<in> set ms" "v_id m = in_id node seq" "v_text m = Some body" "v_ts m = ts"
      "v_dir m = In" "v_attachment m = None"
    using ingest_messages [OF N st node(1) _ _ new refl, of "Some body" None node ts] node(2) by auto
  have still: "is_conversation_muted (u_store ?u1) node \<longleftrightarrow> False" "is_muted (u_store ?u1) node = is_muted (u_store u) node"
    using loud by simp_all
  have same: "alert_state node node ?u2 = (fst (alert_state node node u), False, is_muted (u_store u) node)"
    using still thread(2,3) by (auto simp: alert_state_def show_incoming_def upd_thread_def nth_list_update split: option.split)
  show ?thesis
    unfolding run using ms thread(2) same
    by (intro exI [of _ "alert e now_ms node node _ (JStr body) ?u2"] exI [of _ ms] exI [of _ m])
       (auto simp: show_incoming_def upd_thread_def)
qed

text \<open>
  C11: a message a contact sealed for this user is stored and read back as sent, becomes the
  preview of their conversation, counts as unread exactly when that conversation is not the
  selected one, and raises one notification exactly when the rules for notifications ask for it.
\<close>

theorem contact_message_shown:
  assumes N: "nacl_ok N" and st: "store_ok N (u_store u)" and lens: "length seed = 32" "length (identity (s_client (u_session u))) = 32"
    and obj: "valid_json (JObj (message_body body ts screen None None))" and node: "valid_str node" "valid_str body"
    and sealed: "seal_message N d seed (bytes_hex (n_verify_key N (identity (s_client (u_session u))))) body ts screen None None = Ok payload"
    and ev: "dict_get ev ''from'' = Some (JStr node)" "dict_get ev ''payload'' = Some (JStr payload)" "entry_seq (JObj ev) = Ok seq"
    and new: "is_new (u_store u) (in_id node seq)" and loud: "\<not> is_conversation_muted (u_store u) node"
    and contacts: "session_contacts e (u_fs u) = Ok cs" "contact_nodes cs = Ok nodes" "JStr node \<in> set nodes"
    and thread: "dict_get (v_threads (u_view u)) node = Some i" "i < length (v_objs (u_view u))" "th_conv (v_objs (u_view u) ! i) = node"
  shows "\<exists>u' ms m. incoming_message N e now_ms ev u = (Ok (), u') \<and>
    messages N (u_store u') node = Ok ms \<and> m \<in> set ms \<and> v_id m = in_id node seq \<and> v_text m = Some body \<and> v_ts m = ts \<and>
    th_preview (v_objs (u_view u') ! i) = JStr body \<and>
    th_unread (v_objs (u_view u') ! i) = th_unread (v_objs (u_view u) ! i) + (if v_selected (u_view u) = Some i then 0 else 1) \<and>
    length (u_notified u') = length (u_notified u) +
      (if should_notify (fst (alert_state node node u)) False (is_muted (u_store u) node) (u_prefs u) then 1 else 0)"
proof -
  let ?opened = "opened_message (bytes_hex (n_verify_key N seed)) body ts screen None None"
  obtain p where "seal_message N d seed (bytes_hex (n_verify_key N (identity (s_client (u_session u))))) body ts screen None None = Ok p"
    "open_message N (identity (s_client (u_session u))) p = Ok ?opened"
    using open_seal_message [OF N lens obj] by blast
  with sealed have "decrypt_recv N (s_client (u_session u)) ev = Ok ?opened" by (simp add: decrypt_recv_def ev)
  from contact_message_run [OF N st node this ev(1,3) new loud contacts thread] show ?thesis by blast
qed

theorem contact_message_shown_witness:
  "\<exists>p u u' ms m. seal_message plain_nacl 0 (replicate 32 1) (bytes_hex (n_verify_key plain_nacl (replicate 32 2))) ''hi'' 7 None None None = Ok p \<and>
     incoming_message plain_nacl (home_env ''/h'') 0 [(''from'', JStr ''n1''), (''payload'', JStr p), (''seq'', JInt 3)] u = (Ok (), u') \<and>
     messages plain_nacl (u_store u') ''n1'' = Ok ms \<and> m \<in> set ms \<and> v_text m = Some ''hi'' \<and>
     length (u_notified u') = length (u_notified u) + 1"
proof -
  define a b :: bytes where ab: "a = replicate 32 1" "b = replicate 32 2"
  have len: "length a = 32" "length b = 32" by (simp_all add: ab)
  obtain p where p: "seal_message plain_nacl 0 a (bytes_hex (n_verify_key plain_nacl b)) ''hi'' 7 None None None = Ok p"
    using sealed_hi [OF plain_nacl_ok len] by blast
  obtain st where st: "store_ok plain_nacl st" "open_store plain_nacl ''pw'' [1] empty_store = Ok st"
    using open_store_ok [OF plain_nacl_ok] by blast
  have empty: "t_messages st = []" "t_conversations st = []" "t_muted_nodes st = []"
    using st(2) by (auto simp: open_store_def salt_def empty_store_def)
  let ?contacts = "[(''ann'', JObj [(''node'', JStr ''n1'')])]" and ?e = "home_env ''/h''"
  let ?u = "(new_window plain_nacl b st)\<lparr>u_fs := save_contacts (contacts_path ?e) ?contacts \<lparr>files = (\<lambda>_. None), dirs = (\<lambda>_. None)\<rparr>,
    u_view := new_thread (empty_dm ''n1'') view_init\<rparr>"
  have contacts: "session_contacts ?e (u_fs ?u) = Ok ?contacts" "contact_nodes ?contacts = Ok [JStr ''n1'']"
    by (simp_all add: session_contacts_def load_save_contacts valid_str_lit contact_nodes_def)
  have thread: "dict_get (v_threads (u_view ?u)) ''n1'' = Some 0" "0 < length (v_objs (u_view ?u))" "th_conv (v_objs (u_view ?u) ! 0) = ''n1''"
    by (simp_all add: new_thread_def view_init_def empty_dm_def)
  have body: "valid_json (JObj (message_body ''hi'' 7 None None None))" by (rule message_body_valid) (auto simp: valid_str_lit)
  have notify: "should_notify (fst (alert_state ''n1'' ''n1'' ?u)) False (is_muted (u_store ?u) ''n1'') (u_prefs ?u)"
    by (simp add: should_notify_def alert_state_def is_muted_def empty new_window_def pref_def DEFAULT_PREFS_def)
  have "\<exists>u' ms m. incoming_message plain_nacl ?e 0 [(''from'', JStr ''n1''), (''payload'', JStr p), (''seq'', JInt 3)] ?u = (Ok (), u') \<and>
     messages plain_nacl (u_store u') ''n1'' = Ok ms \<and> m \<in> set ms \<and> v_text m = Some ''hi'' \<and>
     length (u_notified u') = length (u_notified ?u) + 1"
    using contact_message_shown [of plain_nacl ?u a "''hi''" 7 None "''n1''" 0 p "[(''from'', JStr ''n1''), (''payload'', JStr p), (''seq'', JInt 3)]" 3
        ?e ?contacts "[JStr ''n1'']" 0 0] plain_nacl_ok st(1) len body p contacts thread notify
    by (auto simp: valid_str_lit entry_seq_def is_new_def is_conversation_muted_def empty)
  then show ?thesis using p unfolding ab by blast
qed

end
