(* ===== verification/Requests.thy ===== *)
theory Requests
  imports Chat
begin

text \<open>
  What becomes of a message of an unknown sender: it waits as a request, and the user's answer
  decides. And what blocking a contact does to the messages that follow.
\<close>

section \<open>Requests\<close>

lemma valid_first8: "valid_str s \<Longrightarrow> valid_str (first8 s)"
  unfolding first8_def valid_str_def
  by (metis utf8_cps_concat list_all_append append_take_drop_id)

lemma name_or_valid:
  assumes "valid_str node" and "pred_option valid_json v"
  shows "valid_json (name_or v node)"
  using assms valid_first8 [OF assms(1)] by (auto simp: name_or_def split: option.split)

lemma pop_added:
  assumes N: "nacl_ok N" and key: "length (box_key st) = 32" and r: "valid_json (JObj r)" "req_node r = Some n" and none: "t_pending st = []"
  obtains st1 where "pending_pop N (add_pending N r st) = (Ok (Some (JObj r)), st1)"
    and "t_messages st1 = t_messages st" "t_pending st1 = []" "t_muted_nodes st1 = t_muted_nodes st"
    and "box_key st1 = box_key st" "t_conversations st1 = t_conversations st"
    and "st1 = st\<lparr>draws := draws st + 1\<rparr>"
proof -
  let ?st1 = "st\<lparr>draws := draws st + 1\<rparr>"
  let ?blob = "n_box_encrypt N (box_key st) (draws st) (encode_utf8 (json_dumps (JObj r)))"
  have add: "add_pending N r st = ?st1\<lparr>t_pending := [(Some n, ?blob)]\<rparr>"
    using r(2) none by (simp add: add_pending_def enc_def)
  have "dec N (Some ?blob) st' = Ok (Some (json_dumps (JObj r)))" if "box_key st' = box_key st" for st'
    using dec_enc [OF N key, of "Some (json_dumps (JObj r))" st'] valid_str_dumps [OF r(1)] that by (simp add: enc_def)
  then have "pending_pop N (add_pending N r st) = (Ok (Some (JObj r)), ?st1)"
    using none unfolding add pending_pop_def by (simp add: json_loads_dumps [OF r(1)])
  then show thesis by (rule that) (use none in simp_all)
qed

text \<open>The request made of a message between two nodes.\<close>

definition dm_request :: "string \<Rightarrow> string \<Rightarrow> string \<Rightarrow> int \<Rightarrow> string option \<Rightarrow> int \<Rightarrow> (string, json) dict" where
  "dm_request node h body ts screen seq =
     [(''node'', JStr node), (''pubkey'', JStr h),
      (''screen'', name_or (dict_get (opened_message h body ts screen None None) ''screen'') node), (''conv'', JNull),
      (''members'', JArr []), (''seq'', JInt seq), (''ts'', JInt ts), (''text'', JStr body)]"

lemma opened_screen: "dict_get (opened_message h body ts screen None None) ''screen'' =
    (case screen of None \<Rightarrow> None | Some s \<Rightarrow> if s = [] then None else Some (JStr s))"
  by (cases screen) (auto simp: opened_message_def opt_field_def)

lemma dm_request_valid:
  assumes "valid_str node" "valid_str body" "valid_str h" "pred_option valid_str screen"
  shows "valid_json (JObj (dm_request node h body ts screen seq))"
  using assms name_or_valid [OF assms(1), of "dict_get (opened_message h body ts screen None None) ''screen''"]
  by (auto simp: dm_request_def valid_str_lit opened_screen split: option.splits if_splits)

lemma request_entry_dm:
  "dict_get ev ''seq'' = Some (JInt seq) \<Longrightarrow>
   request_entry node ev (opened_message h body ts screen None None) = Ok (dm_request node h body ts screen seq)"
  by (simp add: request_entry_def dm_request_def)

lemma sync_sidebar_frame:
  assumes "sync_sidebar N e u = (r, u1)"
  shows "u_session u1 = u_session u" "u_fs u1 = u_fs u" "u_tasks u1 = u_tasks u"
  using assms by (auto simp: sync_sidebar_def split: res.splits prod.splits)

lemma history_loaded_frame:
  "u_session (snd (history_loaded N conv u)) = u_session u" "u_fs (snd (history_loaded N conv u)) = u_fs u"
  by (simp_all add: history_loaded_def render_messages_def split: option.split res.split)

lemma refreshed_frame:
  assumes "bind_act (sync_sidebar N e) (\<lambda>_. history_loaded N conv) u = (r, u1)"
  shows "u_session u1 = u_session u" "u_fs u1 = u_fs u"
  using assms sync_sidebar_frame [of N e u] history_loaded_frame [of N conv]
  by (auto simp: bind_act_def split: prod.splits res.splits) (metis snd_conv)+

lemma release_dm:
  "release_request N (JObj (dm_request node h body ts screen seq)) node u =
   (Ok node, on_store (\<lambda>st. snd (ingest N node node seq ts (Some body) None st)) u)"
  by (simp add: release_request_def dm_request_def get_default_def entry_seq_def ingest_json_def on_store_def
      split: prod.split)

lemma accept_dm:
  assumes "load_contacts (contacts_path e) (u_fs u) = Ok (JObj kvs)"
  obtains r u3 petname where
    "accept_request N e (JObj (dm_request node h body ts screen seq)) node u = (r, u3)"
    and "u_store u3 = snd (ingest N node node seq ts (Some body) None (unmute node (u_store u)))"
    and "petname \<notin> fst ` set kvs"
    and "u_fs u3 = save_contacts (contacts_path e) (dict_set petname
      (JObj [(''pubkey'', JStr h), (''node'', JStr node), (''screen'', name_or (Some (name_or
        (dict_get (opened_message h body ts screen None None) ''screen'') node)) node)]) kvs) (u_fs u)"
proof -
  let ?r = "dm_request node h body ts screen seq" and ?sc = "name_or (dict_get (opened_message h body ts screen None None) ''screen'') node"
  let ?pet = "free_petname kvs (py_str (name_or (Some ?sc) node))"
  let ?f = "save_contacts (contacts_path e) (dict_set ?pet (JObj [(''pubkey'', JStr h), (''node'', JStr node), (''screen'', name_or (Some ?sc) node)]) kvs) (u_fs u)"
  let ?u1 = "on_store (\<lambda>st. snd (ingest N node node seq ts (Some body) None st))
    (start (DaemonTask (UnblockNode node)) (on_store (unmute node) (u\<lparr>u_fs := ?f\<rparr>)))"
  have "json_item (JObj ?r) ''pubkey'' = Ok (JStr h)" "json_get (JObj ?r) ''screen'' = Ok (Some ?sc)"
    by (simp_all add: dm_request_def)
  then have run: "accept_request N e (JObj ?r) node u = bind_act (sync_sidebar N e) (\<lambda>_. history_loaded N node) ?u1"
    using assms by (simp add: accept_request_def add_contact_from_roster_def Let_def bind_act_step release_dm)
  obtain r u3 where sync: "bind_act (sync_sidebar N e) (\<lambda>_. history_loaded N node) ?u1 = (r, u3)" by fastforce
  show thesis
  proof (rule that [of r u3 ?pet])
    show "accept_request N e (JObj ?r) node u = (r, u3)" using run sync by simp
    show "u_store u3 = snd (ingest N node node seq ts (Some body) None (unmute node (u_store u)))"
      "u_fs u3 = ?f" using refreshed_frame [OF sync] by simp_all
    show "?pet \<notin> fst ` set kvs" using free_from_fresh unfolding free_petname_def by (metis image_set)
  qed
qed

lemma unmute_sel [simp]:
  "t_messages (unmute n st) = t_messages st" "box_key (unmute n st) = box_key st" "t_pending (unmute n st) = t_pending st"
  by (simp_all add: unmute_def)

lemma mute_sel [simp]:
  "t_messages (mute n st) = t_messages st" "t_pending (mute n st) = t_pending st" "is_muted (mute n st) n"
  "is_conversation_muted (mute n st) c = is_conversation_muted st c"
  by (simp_all add: mute_def is_muted_def is_conversation_muted_def)

lemma set_blocked_screen_sel [simp]:
  "t_messages (set_blocked_screen N n sc st) = t_messages st" "t_pending (set_blocked_screen N n sc st) = t_pending st"
  "t_muted_nodes (set_blocked_screen N n sc st) = t_muted_nodes st"
  by (simp_all add: set_blocked_screen_def enc_def split: option.split)

lemma store_ok_more_draws: "store_ok N st \<Longrightarrow> store_ok N (st\<lparr>draws := d\<rparr>)"
  by (simp add: store_ok_def)

lemma store_ok_unmute: "store_ok N st \<Longrightarrow> store_ok N (unmute n st)"
  by (simp add: store_ok_def unmute_def)

text \<open>The message of an unknown sender becomes a question to the user.\<close>

lemma incoming_request:
  assumes N: "nacl_ok N" and st: "store_ok N (u_store u)" and valid: "valid_str node" "valid_str body" "valid_str h" "pred_option valid_str screen"
    and opened: "decrypt_recv N (s_client (u_session u)) ev = Ok (opened_message h body ts screen None None)"
    and ev: "dict_get ev ''from'' = Some (JStr node)" "dict_get ev ''seq'' = Some (JInt seq)"
    and loud: "\<not> is_conversation_muted (u_store u) node" "\<not> is_muted (u_store u) node"
    and contacts: "bind_res (session_contacts e (u_fs u)) contact_nodes = Ok nodes" "JStr node \<notin> set nodes"
    and idle: "u_asking u = None" "t_pending (u_store u) = []"
  obtains u1 where "incoming_message N e now_ms ev u = (Ok (), u1)" and "u_asking u1 = Some (JObj (dm_request node h body ts screen seq))"
    and "u_store u1 = (u_store u)\<lparr>draws := draws (u_store u) + 1\<rparr>" and "u_fs u1 = u_fs u"
proof -
  let ?r = "dm_request node h body ts screen seq"
  have key: "length (box_key (u_store u)) = 32" using st by (simp add: store_ok_def)
  have rv: "valid_json (JObj ?r)" "req_node ?r = Some node"
    using dm_request_valid [OF valid] by (blast, simp add: req_node_def dm_request_def)
  obtain st1 where pop: "pending_pop N (add_pending N ?r (u_store u)) = (Ok (Some (JObj ?r)), st1)"
      and st1: "st1 = (u_store u)\<lparr>draws := draws (u_store u) + 1\<rparr>"
    using pop_added [OF N key rv idle(2)] by blast
  let ?u1 = "(on_store (\<lambda>_. st1) u)\<lparr>u_asking := Some (JObj ?r)\<rparr>"
  have "incoming_message N e now_ms ev u = surface_pending_requests N (on_store (add_pending N ?r) u)"
    using ev(1) opened loud contacts
    by (simp add: incoming_message_def incoming_text_def bind_act_def lift_res_def withhold_def request_entry_dm [OF ev(2)])
  then have "incoming_message N e now_ms ev u = (Ok (), ?u1)"
    using pop idle(1) by (simp add: surface_pending_requests_def on_store_def)
  then show thesis by (rule that) (simp_all add: st1)
qed

lemma answer_request_node:
  assumes "u_asking u1 = Some (JObj (dm_request node h body ts screen seq))"
  shows "answer_request N e a u1 =
    bind_act (case a of ACCEPT \<Rightarrow> accept_request N e (JObj (dm_request node h body ts screen seq)) node
        | NO \<Rightarrow> block_request N (JObj (dm_request node h body ts screen seq)) node | REJECT \<Rightarrow> ret_act ())
      (\<lambda>_ u2. (Ok (), start SurfaceTask u2)) (u1\<lparr>u_asking := None\<rparr>)"
proof -
  have "json_item (JObj (dm_request node h body ts screen seq)) ''node'' = Ok (JStr node)" by (simp add: dm_request_def)
  with assms show ?thesis by (simp add: answer_request_def Let_def del: json_item.simps)
qed

lemma answer_decline:
  assumes "u_asking u1 = Some (JObj (dm_request node h body ts screen seq))"
  shows "case answer_request N e REJECT u1 of (_, u2) \<Rightarrow> u_store u2 = u_store u1 \<and> u_fs u2 = u_fs u1"
    and "case answer_request N e NO u1 of (_, u2) \<Rightarrow>
       t_messages (u_store u2) = t_messages (u_store u1) \<and> u_fs u2 = u_fs u1 \<and> is_muted (u_store u2) node"
  using mute_sel(3) [of node "u_store u1"]
  by (auto simp: answer_request_node [OF assms] bind_act_def ret_act_def block_request_def Let_def is_muted_def split: res.splits)

lemma answer_accept:
  assumes "u_asking u1 = Some (JObj (dm_request node h body ts screen seq))"
    and "load_contacts (contacts_path e) (u_fs u1) = Ok (JObj kvs)"
  shows "case answer_request N e ACCEPT u1 of (_, u2) \<Rightarrow>
    u_store u2 = snd (ingest N node node seq ts (Some body) None (unmute node (u_store u1))) \<and>
    (\<exists>petname sc. petname \<notin> fst ` set kvs \<and> u_fs u2 = save_contacts (contacts_path e) (dict_set petname
       (JObj [(''pubkey'', JStr h), (''node'', JStr node), (''screen'', sc)]) kvs) (u_fs u1))"
proof -
  have "load_contacts (contacts_path e) (u_fs (u1\<lparr>u_asking := None\<rparr>)) = Ok (JObj kvs)" using assms(2) by simp
  then obtain r u3 petname where acc: "accept_request N e (JObj (dm_request node h body ts screen seq)) node (u1\<lparr>u_asking := None\<rparr>) = (r, u3)"
      "u_store u3 = snd (ingest N node node seq ts (Some body) None (unmute node (u_store (u1\<lparr>u_asking := None\<rparr>))))"
      "petname \<notin> fst ` set kvs"
      "u_fs u3 = save_contacts (contacts_path e) (dict_set petname
        (JObj [(''pubkey'', JStr h), (''node'', JStr node), (''screen'', name_or (Some (name_or
          (dict_get (opened_message h body ts screen None None) ''screen'') node)) node)]) kvs) (u_fs (u1\<lparr>u_asking := None\<rparr>))"
    by (rule accept_dm)
  have "u_store (snd (answer_request N e ACCEPT u1)) = u_store u3 \<and> u_fs (snd (answer_request N e ACCEPT u1)) = u_fs u3"
    by (cases r) (simp_all add: answer_request_node [OF assms(1)] bind_act_def acc(1))
  moreover have "u_store (u1\<lparr>u_asking := None\<rparr>) = u_store u1" "u_fs (u1\<lparr>u_asking := None\<rparr>) = u_fs u1" by simp_all
  ultimately show ?thesis using acc(2-4) unfolding case_prod_beta by metis
qed

section \<open>Properties\<close>

text \<open>
  C9: a message of an unknown sender opens a request and is not stored; declining it leaves no
  trace, blocking it stores the block and not the message, and accepting it stores exactly the
  message that was sent and adds the sender, with the key that signed it, under a name not in use.
\<close>

theorem request_outcomes:
  assumes N: "nacl_ok N" and st: "store_ok N (u_store u)" and lens: "length seed = 32" "length (identity (s_client (u_session u))) = 32"
    and valid: "valid_str node" "valid_str body" "pred_option valid_str screen"
    and sealed: "seal_message N d seed (bytes_hex (n_verify_key N (identity (s_client (u_session u))))) body ts screen None None = Ok payload"
    and ev: "dict_get ev ''from'' = Some (JStr node)" "dict_get ev ''payload'' = Some (JStr payload)" "dict_get ev ''seq'' = Some (JInt seq)"
    and new: "is_new (u_store u) (in_id node seq)" and loud: "\<not> is_conversation_muted (u_store u) node" "\<not> is_muted (u_store u) node"
    and contacts: "load_contacts (contacts_path e) (u_fs u) = Ok (JObj kvs)"
      "contact_nodes (filter (\<lambda>(k, _). k \<noteq> ''_self'') kvs) = Ok nodes" "JStr node \<notin> set nodes"
    and idle: "u_asking u = None" "t_pending (u_store u) = []"
  shows "\<exists>u1. incoming_message N e now_ms ev u = (Ok (), u1) \<and> u_asking u1 \<noteq> None \<and> t_messages (u_store u1) = t_messages (u_store u) \<and>
    (case answer_request N e REJECT u1 of (_, u2) \<Rightarrow>
       t_messages (u_store u2) = t_messages (u_store u) \<and> u_fs u2 = u_fs u \<and> \<not> is_muted (u_store u2) node) \<and>
    (case answer_request N e NO u1 of (_, u2) \<Rightarrow>
       t_messages (u_store u2) = t_messages (u_store u) \<and> u_fs u2 = u_fs u \<and> is_muted (u_store u2) node) \<and>
    (case answer_request N e ACCEPT u1 of (_, u2) \<Rightarrow>
       (\<exists>ms m. messages N (u_store u2) node = Ok ms \<and> m \<in> set ms \<and> v_id m = in_id node seq \<and> v_text m = Some body \<and> v_ts m = ts) \<and>
       (\<exists>petname sc. petname \<notin> fst ` set kvs \<and> u_fs u2 = save_contacts (contacts_path e) (dict_set petname
          (JObj [(''pubkey'', JStr (bytes_hex (n_verify_key N seed))), (''node'', JStr node), (''screen'', sc)]) kvs) (u_fs u)))"
proof -
  let ?h = "bytes_hex (n_verify_key N seed)" and ?r = "dm_request node (bytes_hex (n_verify_key N seed)) body ts screen seq"
  have "valid_json (JObj (message_body body ts screen None None))" using valid by (intro message_body_valid) auto
  then have opened: "decrypt_recv N (s_client (u_session u)) ev = Ok (opened_message ?h body ts screen None None)"
    using open_seal_message [OF N lens, of body ts screen None None d thesis for thesis] sealed by (fastforce simp: decrypt_recv_def ev)
  have "bind_res (session_contacts e (u_fs u)) contact_nodes = Ok nodes" using contacts by (simp add: session_contacts_def)
  then obtain u1 where u1: "incoming_message N e now_ms ev u = (Ok (), u1)" "u_asking u1 = Some (JObj ?r)"
      "u_store u1 = (u_store u)\<lparr>draws := draws (u_store u) + 1\<rparr>" "u_fs u1 = u_fs u"
    using incoming_request [OF N st valid(1,2) _ valid(3) opened ev(1,3) loud _ contacts(3) idle] by auto
  let ?st = "unmute node (u_store u1)"
  have "store_ok N ?st" unfolding u1(3) using st by (intro store_ok_unmute store_ok_more_draws)
  moreover have "is_new ?st (in_id node seq)" using new by (simp add: is_new_def u1(3))
  ultimately have read: "\<exists>ms m. messages N (snd (ingest N node node seq ts (Some body) None ?st)) node = Ok ms \<and> m \<in> set ms \<and>
      v_id m = in_id node seq \<and> v_text m = Some body \<and> v_ts m = ts"
    using ingest_messages [OF N _ valid(1) _ _ _ refl, of ?st "Some body" None seq node ts] valid(2) by auto
  note decline = answer_decline [OF u1(2), of N e]
  have accept: "case answer_request N e ACCEPT u1 of (_, u2) \<Rightarrow> u_store u2 = snd (ingest N node node seq ts (Some body) None ?st) \<and>
      (\<exists>petname sc. petname \<notin> fst ` set kvs \<and> u_fs u2 = save_contacts (contacts_path e) (dict_set petname
         (JObj [(''pubkey'', JStr ?h), (''node'', JStr node), (''screen'', sc)]) kvs) (u_fs u))"
    using answer_accept [OF u1(2), of e kvs N] contacts(1) u1(4) by simp
  have "\<not> is_muted (u_store u1) node" "t_messages (u_store u1) = t_messages (u_store u)" using loud(2) by (simp_all add: u1(3) is_muted_def)
  then show ?thesis
    using u1 decline accept read by (intro exI [of _ u1]) (auto split: prod.splits)
qed

theorem request_outcomes_witness:
  "\<exists>p u u1 ms m. open_message plain_nacl (replicate 32 2) p = Ok (opened_message (bytes_hex (replicate 32 1)) ''hi'' 7 None None None) \<and>
     incoming_message plain_nacl (home_env ''/h'') 0 [(''from'', JStr ''n1''), (''payload'', JStr p), (''seq'', JInt 3)] u = (Ok (), u1) \<and>
     t_messages (u_store u1) = [] \<and>
     messages plain_nacl (u_store (snd (answer_request plain_nacl (home_env ''/h'') ACCEPT u1))) ''n1'' = Ok ms \<and>
     m \<in> set ms \<and> v_text m = Some ''hi''"
proof -
  define a b :: bytes where ab: "a = replicate 32 1" "b = replicate 32 2"
  have len: "length a = 32" "length b = 32" by (simp_all add: ab)
  have key: "n_verify_key plain_nacl a = a" by (simp add: plain_nacl_def)
  obtain p where p: "seal_message plain_nacl 0 a (bytes_hex (n_verify_key plain_nacl b)) ''hi'' 7 None None None = Ok p"
    "open_message plain_nacl b p = Ok (opened_message (bytes_hex a) ''hi'' 7 None None None)"
    using sealed_hi [OF plain_nacl_ok len] key by metis
  obtain st where st: "store_ok plain_nacl st" "open_store plain_nacl ''pw'' [1] empty_store = Ok st"
    using open_store_ok [OF plain_nacl_ok] by blast
  have empty: "t_messages st = []" "t_conversations st = []" "t_muted_nodes st = []" "t_pending st = []"
    using st(2) by (auto simp: open_store_def salt_def empty_store_def)
  let ?u = "new_window plain_nacl b st" and ?ev = "[(''from'', JStr ''n1''), (''payload'', JStr p), (''seq'', JInt 3)]"
  have none: "load_contacts (contacts_path (home_env ''/h'')) (u_fs ?u) = Ok (JObj [])"
    by (simp add: load_contacts_def os_exists_def new_window_def)
  have "\<exists>u1. incoming_message plain_nacl (home_env ''/h'') 0 ?ev ?u = (Ok (), u1) \<and> t_messages (u_store u1) = t_messages (u_store ?u) \<and>
    (\<exists>ms m. messages plain_nacl (u_store (snd (answer_request plain_nacl (home_env ''/h'') ACCEPT u1))) ''n1'' = Ok ms \<and> m \<in> set ms \<and> v_text m = Some ''hi'')"
    using request_outcomes [of plain_nacl ?u a "''n1''" "''hi''" None 0 7 p ?ev 3 "home_env ''/h''" "[]" "[]" 0]
      plain_nacl_ok st(1) len p(1) none
    by (simp add: valid_str_lit is_new_def is_conversation_muted_def is_muted_def empty case_prod_beta) blast
  then show ?thesis using p(2) unfolding ab
    by (metis empty(1) new_window_sel(1))
qed

section \<open>Blocking\<close>

lemma without_node_Ok:
  assumes "without_node node allc = Ok out"
  shows "\<exists>P. out = filter P allc \<and> (\<forall>(k, c) \<in> set out. k \<noteq> ''_self'' \<longrightarrow> json_get c ''node'' \<noteq> Ok (Some (JStr node)))"
proof -
  let ?f = "\<lambda>(k, c). if k = ''_self'' then Ok (k, c, True) else bind_res (json_get c ''node'') (\<lambda>n. Ok (k, c, n \<noteq> Some (JStr node)))"
  let ?P = "\<lambda>(k, c). k = ''_self'' \<or> json_get c ''node'' \<noteq> Ok (Some (JStr node))"
  obtain kcs where kcs: "traverse_res ?f allc = Ok kcs" "out = map (\<lambda>(k, c, _). (k, c)) (filter (\<lambda>(_, _, stay). stay) kcs)"
    using assms by (auto simp: without_node_def elim!: bind_res_Ok)
  have "map (\<lambda>(k, c, _). (k, c)) (filter (\<lambda>(_, _, stay). stay) kcs) = filter ?P allc"
    using kcs(1)
  proof (induction allc arbitrary: kcs)
    case (Cons kc allc)
    then show ?case by (cases kc) (auto elim!: bind_res_Ok split: if_splits)
  qed simp
  with kcs(2) show ?thesis by (intro exI [of _ ?P]) auto
qed

lemma contact_nodes_Ok:
  assumes "contact_nodes cs = Ok nodes" and "JStr node \<in> set nodes"
  shows "\<exists>k c. (k, c) \<in> set cs \<and> json_get c ''node'' = Ok (Some (JStr node))"
proof -
  have "list_all2 (\<lambda>x n. bind_res (json_item (snd x) ''node'') hashable = Ok n) cs nodes"
    using assms(1) unfolding contact_nodes_def traverse_res_list_all2 by (simp add: case_prod_beta)
  then obtain k c where kc: "(k, c) \<in> set cs" "bind_res (json_item c ''node'') hashable = Ok (JStr node)"
    using assms(2) unfolding list_all2_conv_all_nth in_set_conv_nth by (metis nth_mem prod.collapse)
  from kc(2) obtain v where v: "json_item c ''node'' = Ok v" "hashable v = Ok (JStr node)" by (auto elim!: bind_res_Ok)
  then have "v = JStr node" by (cases v) auto
  with v(1) have "json_get c ''node'' = Ok (Some (JStr node))" by (cases c) (auto split: option.splits)
  with kc(1) show ?thesis by blast
qed



end
