(* ===== verification/FileTransfer.thy ===== *)
theory FileTransfer
  imports Chat
begin

text \<open>
  File transfers of \<open>MessagesView\<close> in \<open>client/aimless/gtkui.py\<close>: sending a file in chunks, the
  acknowledgements of its chunks, collecting the chunks that arrive and storing the file, and the
  sweep for transfers the daemon kept. \<open>drain_events\<close> dispatches the daemon's events.

  A chunk index that is a float is not equal to the header's, and a conversation or file name
  that is not a text is refused with a \<open>TypeError\<close>. The \<open>failed\<close> mark of a buffer is set only on a buffer that
  is removed at once, so it has no counterpart. Progress lines are left out except those of a
  sent file's delivery.
\<close>

section \<open>Sending a file\<close>

function file_pieces :: "nat \<Rightarrow> bytes \<Rightarrow> bytes list" where
  "file_pieces n data = (if data = [] \<or> n = 0 then [] else take n data # file_pieces n (drop n data))"
  by pat_completeness auto
termination by (relation "measure (\<lambda>(_, data). length data)") (auto simp: neq_Nil_conv)

declare file_pieces.simps [simp del]

definition mime_hint :: "string \<Rightarrow> string" where
  "mime_hint filename =
     (if list_ex (\<lambda>ext. suffix ext (map ascii_lower filename)) [''.png'', ''.jpg'', ''.jpeg'', ''.gif'', ''.webp'']
      then ''image'' else ''application'')"

text \<open>
  \<open>on_attach\<close> after its dialog: \<open>None\<close> is a cancelled dialog; the size is checked, and a large file
  for a big room needs a confirmation.
\<close>

definition attach_size :: "fs \<Rightarrow> string \<Rightarrow> nat res" where
  "attach_size f path =
     bind_res (os_read path f) (\<lambda>bs. bind_res (validate_send_size (length bs)) (\<lambda>_. Ok (length bs)))"

text \<open>What the worker of a file needs: the chunks in order and the attachment entry of the message.\<close>

definition file_chunks :: "nacl \<Rightarrow> string \<Rightarrow> string \<Rightarrow> nat \<Rightarrow> bytes \<Rightarrow> string option \<Rightarrow> (string, json) dict list" where
  "file_chunks N tid filename nbytes data conv =
     (let pieces = file_pieces FILE_CHUNK_SIZE data; sha = bytes_hex (n_sha256 N data)
      in map (\<lambda>(i, piece). make_chunk tid (int i) (int (length pieces)) filename (mime_hint filename) sha (int nbytes) piece conv)
           (enumerate 0 pieces))"

definition file_attachment :: "string \<Rightarrow> string \<Rightarrow> nat \<Rightarrow> json" where
  "file_attachment path filename nbytes =
     JObj [(''path'', JStr path), (''filename'', JStr filename), (''mime_hint'', JStr (mime_hint filename)),
           (''size'', JInt (int nbytes))]"

definition prepare_file ::
  "nacl \<Rightarrow> nat \<Rightarrow> string \<Rightarrow> string \<Rightarrow> nat \<Rightarrow> bytes \<Rightarrow> (ui, (string, json) dict list) act" where
  "prepare_file N i path filename nbytes fresh u =
     (let t = v_objs (u_view u) ! i
      in case os_read path (u_fs u) of
           Err ex \<Rightarrow> if is_OSError ex then (Ok [], u) else (Err ex, u)
         | Ok data \<Rightarrow>
             (Ok (file_chunks N (new_transfer_id fresh) filename nbytes data (if th_room t then Some (th_conv t) else None)),
              start (FileTask i (th_conv t) filename path (file_attachment path filename nbytes)) u))"

definition on_attach :: "nacl \<Rightarrow> string option \<Rightarrow> bool \<Rightarrow> bytes \<Rightarrow> (ui, (string, json) dict list) act" where
  "on_attach N chosen confirmed fresh u =
     (case (v_selected (u_view u), chosen) of
        (Some i, Some path) \<Rightarrow>
          if path = [] then (Ok [], u)
          else
            (case attach_size (u_fs u) path of
               Err ex \<Rightarrow> if is_OSError ex \<or> is_ValueError ex then (Ok [], u) else (Err ex, u)
             | Ok nbytes \<Rightarrow>
                 let t = v_objs (u_view u) ! i
                 in if th_room t \<and> nbytes > 5 * 1024 * 1024 \<and> length (th_members t) > 3 \<and> \<not> confirmed then (Ok [], u)
                    else prepare_file N i path (path_basename path) nbytes fresh u)
      | _ \<Rightarrow> (Ok [], u))"

text \<open>The worker: every chunk to every recipient, the last sequence number of each and all of them.\<close>

fun dm_file_worker ::
  "nacl \<Rightarrow> 'w request_fn \<Rightarrow> string \<Rightarrow> json \<Rightarrow> (string, json) dict list \<Rightarrow> (string, int) dict \<Rightarrow> (string \<times> int) list
   \<Rightarrow> (client \<times> 'w, (string, int) dict \<times> (string \<times> int) list) act" where
  "dm_file_worker N req conv contact [] seqs expected = ret_act (seqs, expected)"
| "dm_file_worker N req conv contact (chunk # chunks) seqs expected = (\<lambda>(c, w).
     bind_act (lift_res (json_item contact ''pubkey'')) (\<lambda>pubkey.
     bind_act (seal_for (\<lambda>d p. build_file_payload N d (identity c) p chunk) pubkey) (\<lambda>payload.
     bind_act (send_file req conv payload) (\<lambda>resp.
     bind_act (lift_res (bind_res (get_default resp ''seq'' (JInt 0)) json_int)) (\<lambda>seq.
       dm_file_worker N req conv contact chunks (dict_set conv seq seqs) (List.insert (conv, seq) expected))))) (c, w))"

fun room_file_worker ::
  "nacl \<Rightarrow> 'w request_fn \<Rightarrow> string \<Rightarrow> json list \<Rightarrow> (string, json) dict list \<Rightarrow> (string, int) dict \<Rightarrow> (string \<times> int) list
   \<Rightarrow> (client \<times> 'w, (string, int) dict \<times> (string \<times> int) list) act" where
  "room_file_worker N req conv mems [] seqs expected = ret_act (seqs, expected)"
| "room_file_worker N req conv mems (chunk # chunks) seqs expected =
     bind_act (send_file_room N req mems conv chunk) (\<lambda>chunk_seqs.
     bind_act (lift_res (int_seqs chunk_seqs)) (\<lambda>ss.
       room_file_worker N req conv mems chunks (fold (\<lambda>(n, s). dict_set n s) ss seqs) (fold List.insert ss expected)))"

section \<open>Acknowledgements\<close>

definition register_file_delivery :: "string \<Rightarrow> (string \<times> int) list \<Rightarrow> view \<Rightarrow> view" where
  "register_file_delivery filename expected v =
     (let keys = remdups (filter (\<lambda>(_, s). s \<noteq> 0) expected);
          pending = filter (\<lambda>k. k \<notin> set (v_acked_seen v)) keys;
          r = set_delivery_text \<lparr>r_filename = filename, r_keys = pending, r_total = length (remdups (map fst keys)), r_text = []\<rparr>
      in v\<lparr>v_recs := v_recs v @ [r],
           v_pending_files := fold (\<lambda>k. dict_set k (length (v_recs v))) pending (v_pending_files v)\<rparr>)"

definition file_sent ::
  "nacl \<Rightarrow> nat \<Rightarrow> string \<Rightarrow> string \<Rightarrow> json \<Rightarrow> ((string, int) dict \<times> (string \<times> int) list) res \<Rightarrow> int \<Rightarrow> ui \<Rightarrow> ui" where
  "file_sent N i conv filename att result ts u =
     (case result of
        Err _ \<Rightarrow> u
      | Ok (seqs, expected) \<Rightarrow>
          let u1 = snd (append_outgoing N conv seqs ts filename (Some att) (Some expected) u)
          in on_view (\<lambda>v. register_file_delivery filename expected
               (if v_selected v = Some i then upd_thread i (\<lambda>t. t\<lparr>th_preview := JStr filename\<rparr>) v else v)) u1)"

text \<open>\<open>note_acked\<close>: whether the acknowledgement was one of a file.\<close>

definition ack_key :: "string \<Rightarrow> int \<Rightarrow> view \<Rightarrow> bool \<times> view" where
  "ack_key node seq v =
     (let key = (node, seq); seen = List.insert key (v_acked_seen v);
          v1 = v\<lparr>v_acked_seen := (if length seen > 4096 then [] else seen)\<rparr>
      in case dict_get (v_pending_files v1) key of
           None \<Rightarrow> (False, v1)
         | Some j \<Rightarrow>
             (True, v1\<lparr>v_pending_files := dict_del key (v_pending_files v1),
                       v_recs := (v_recs v1)[j := set_delivery_text
                         ((v_recs v1 ! j)\<lparr>r_keys := removeAll key (r_keys (v_recs v1 ! j))\<rparr>)]\<rparr>))"

definition note_acked :: "string \<Rightarrow> int \<Rightarrow> ui \<Rightarrow> bool \<times> ui" where
  "note_acked node seq u =
     (case ack_key node seq (u_view u) of
        (hit, v) \<Rightarrow> (hit, on_store (\<lambda>st. snd (mark_delivered node seq st)) (u\<lparr>u_view := v\<rparr>)))"

section \<open>Receiving a file\<close>

text \<open>
  A chunk whose sealed body agrees with its routing header: the transfer id, index and total are
  then known to be well formed. \<open>None\<close> is a payload that is skipped.
\<close>

definition open_chunk :: "nacl \<Rightarrow> bytes \<Rightarrow> json \<Rightarrow> (file_payload \<times> (string, json) dict) option" where
  "open_chunk N seed msg =
     (case bind_res (json_item msg ''payload'') (\<lambda>p. case p of JStr s \<Rightarrow> parse_file_payload s | _ \<Rightarrow> Err (TypeError ''payload'')) of
        Err _ \<Rightarrow> None
      | Ok parsed \<Rightarrow>
          (case open_file_chunk N seed (fp_sealed parsed) of
             Err _ \<Rightarrow> None
           | Ok chunk \<Rightarrow>
               if dict_get chunk ''transfer_id'' \<noteq> Some (JStr (bytes_hex (fp_tid parsed))) \<or>
                  \<not> json_eq_int (dict_get chunk ''index'') (int (fp_index parsed)) \<or>
                  \<not> json_eq_int (dict_get chunk ''total'') (int (fp_total parsed)) then None
               else Some (parsed, chunk)))"

definition chunk_conv :: "string \<Rightarrow> (string, json) dict \<Rightarrow> string res" where
  "chunk_conv node chunk = dict_key (opened_conv node chunk)"

definition store_attachment :: "pyenv \<Rightarrow> string \<Rightarrow> string \<Rightarrow> string \<Rightarrow> bytes \<Rightarrow> fs \<Rightarrow> string \<times> fs" where
  "store_attachment e conv tid filename data f =
     (let d = path_join (attachments_dir e) conv;
          path = path_join d (tid @ ''-'' @ sanitize_filename filename)
      in (path, run_ops (atomic_ops path data 420) (f\<lparr>dirs := makedirs 511 d (dirs f)\<rparr>)))"

text \<open>The message of a stored file; a time that is \<open>null\<close> makes SQLite skip the row.\<close>

definition add_recv_file :: "nacl \<Rightarrow> string \<Rightarrow> string \<Rightarrow> int \<Rightarrow> json \<Rightarrow> string \<Rightarrow> json \<Rightarrow> (store, unit) act" where
  "add_recv_file N conv node seq ts filename att st =
     (let st1 = snd (enc N (attachment_text (Some att)) (snd (enc N (Some filename) (ensure_conv N conv (conv = node) st))))
      in case sql_ts ts of
           Ok (Some t) \<Rightarrow> (Ok (), snd (ingest N conv node seq t (Some filename) (Some att) st))
         | Ok None \<Rightarrow> (Ok (), st1)
         | Err ex \<Rightarrow> (Err ex, st1))"

definition empty_thread :: thread where
  "empty_thread = \<lparr>th_conv = [], th_room = False, th_petname = None, th_contact = JNull, th_members = [], th_screen = JNull,
     th_online = False, th_away = JNull, th_preview = JStr [], th_unread = 0, th_presence = []\<rparr>"

definition thread_or_empty :: "string \<Rightarrow> view \<Rightarrow> thread" where
  "thread_or_empty conv v = (case dict_get (v_threads v) conv of Some i \<Rightarrow> v_objs v ! i | None \<Rightarrow> empty_thread)"

definition alert_file :: "pyenv \<Rightarrow> int \<Rightarrow> string \<Rightarrow> string \<Rightarrow> string \<Rightarrow> (ui, bool) act" where
  "alert_file e now_ms conv node filename u =
     (let (visible, muted, blocked) = alert_state conv node u
      in case (if should_notify visible muted blocked (u_prefs u)
               then sender_label (thread_or_empty conv (u_view u)) (JStr node) else Ok JNull) of
           Err ex \<Rightarrow> (Err ex, u)
         | Ok who \<Rightarrow>
             (Ok True, alert e now_ms conv node (if json_truthy who then who else JStr (first8 node))
                (JStr (''file: '' @ filename)) u))"

definition finalize_attachment ::
  "nacl \<Rightarrow> pyenv \<Rightarrow> int \<Rightarrow> string \<Rightarrow> string \<Rightarrow> file_buf \<Rightarrow> int \<Rightarrow> json \<Rightarrow> bool \<Rightarrow> (ui, bool) act" where
  "finalize_attachment N e now_ms conv node b seq ts notify u =
     (case reassemble_file (b_chunks b) (b_total b) of
        None \<Rightarrow> (Ok False, u)
      | Some rebuilt \<Rightarrow>
          if dict_get (b_meta b) ''sha256'' \<noteq> Some (JStr (bytes_hex (n_sha256 N rebuilt))) then (Ok False, u)
          else
            (case bind_res (req_field (JObj (b_meta b)) ''filename'' (JStr ''file'')) (\<lambda>fn. bind_res (dict_key fn) (\<lambda>filename.
                  bind_res (bind_res (json_item (JObj (b_meta b)) ''transfer_id'') dict_key) (\<lambda>tid. Ok (filename, tid)))) of
               Err ex \<Rightarrow> (Err ex, u)
             | Ok (filename, tid) \<Rightarrow>
                 let (path, f) = store_attachment e conv tid filename rebuilt (u_fs u);
                     att = JObj [(''path'', JStr path), (''filename'', JStr filename),
                       (''mime_hint'', case dict_get (b_meta b) ''mime_hint'' of Some m \<Rightarrow> m | None \<Rightarrow> JStr []),
                       (''size'', JInt (int (length rebuilt)))];
                     u1 = u\<lparr>u_fs := f\<rparr>
                 in case add_recv_file N conv node seq ts filename att (u_store u1) of
                      (Err ex, st) \<Rightarrow> (Err ex, on_store (\<lambda>_. st) u1)
                    | (Ok _, st) \<Rightarrow>
                        let u2 = on_store (\<lambda>_. st) u1;
                            u3 = (case dict_get (v_threads (u_view u2)) conv of
                                    Some i \<Rightarrow> show_incoming i (JStr filename) u2 | None \<Rightarrow> u2);
                            u4 = start (DaemonTask (AckFile node (JStr tid))) u3
                        in if notify then alert_file e now_ms conv node filename u4 else (Ok True, u4)))"

definition drop_buf :: "string \<times> string \<Rightarrow> ui \<Rightarrow> ui" where
  "drop_buf key u = on_view (\<lambda>v. v\<lparr>v_file_bufs := dict_del key (v_file_bufs v)\<rparr>) u"

definition incoming_file :: "nacl \<Rightarrow> pyenv \<Rightarrow> int \<Rightarrow> (string, json) dict \<Rightarrow> (ui, unit) act" where
  "incoming_file N e now_ms ev u =
     (case dict_get ev ''from'' of
        Some (JStr node) \<Rightarrow>
          (case open_chunk N (identity (s_client (u_session u))) (JObj ev) of
             None \<Rightarrow> (Ok (), u)
           | Some (parsed, chunk) \<Rightarrow>
               (case chunk_conv node chunk of
                  Err ex \<Rightarrow> (Err ex, u)
                | Ok conv \<Rightarrow>
                    let key = (conv, bytes_hex (fp_tid parsed));
                        b = (case dict_get (v_file_bufs (u_view u)) key of
                               Some b \<Rightarrow> b
                             | None \<Rightarrow> \<lparr>b_total = int (fp_total parsed), b_meta = chunk, b_chunks = []\<rparr>);
                        put = (\<lambda>b. on_view (\<lambda>v. v\<lparr>v_file_bufs := dict_set key b (v_file_bufs v)\<rparr>))
                    in case bind_res (json_item (JObj chunk) ''data'') b64decode_json of
                         Err ex \<Rightarrow> (Err ex, put b u)
                       | Ok data \<Rightarrow>
                           let b1 = b\<lparr>b_chunks := dict_set (int (fp_index parsed)) data (b_chunks b)\<rparr>; u1 = put b1 u
                           in if int (length (b_chunks b1)) \<noteq> b_total b1 then (Ok (), u1)
                              else
                                bind_act (lift_res (entry_seq (JObj ev))) (\<lambda>seq.
                                bind_act (finalize_attachment N e now_ms conv node b1 seq
                                    (case dict_get ev ''ts'' of Some t \<Rightarrow> t | None \<Rightarrow> JInt 0) True)
                                  (\<lambda>_ u2. (Ok (), drop_buf key u2))) u1))
      | _ \<Rightarrow> (Err (TypeError ''sender is not a string''), u))"

definition incoming :: "nacl \<Rightarrow> pyenv \<Rightarrow> int \<Rightarrow> (string, json) dict \<Rightarrow> (ui, unit) act" where
  "incoming N e now_ms ev =
     (if dict_get ev ''type'' = Some (JStr ''file'') then incoming_file N e now_ms ev else incoming_message N e now_ms ev)"

section \<open>Transfers the daemon kept\<close>

fun collect_chunks :: "nacl \<Rightarrow> bytes \<Rightarrow> json list \<Rightarrow> file_buf \<times> int \<times> int \<Rightarrow> (file_buf \<times> int \<times> int) res" where
  "collect_chunks N seed [] acc = Ok acc"
| "collect_chunks N seed (entry # entries) (b, seq, ts) =
     (case open_chunk N seed entry of
        None \<Rightarrow> collect_chunks N seed entries (b, seq, ts)
      | Some (parsed, chunk) \<Rightarrow>
          bind_res (bind_res (json_item (JObj chunk) ''data'') b64decode_json) (\<lambda>data.
          bind_res (entry_seq entry) (\<lambda>s. bind_res (bind_res (get_default entry ''ts'' (JInt 0)) json_int) (\<lambda>t.
            collect_chunks N seed entries
              (\<lparr>b_total = int (fp_total parsed), b_meta = chunk,
                 b_chunks = dict_set (int (fp_index parsed)) data (b_chunks b)\<rparr>, max s seq, max t ts)))))"

definition process_fetched_transfer :: "nacl \<Rightarrow> pyenv \<Rightarrow> string \<Rightarrow> json list \<Rightarrow> (ui, bool) act" where
  "process_fetched_transfer N e node chunks u =
     (case collect_chunks N (identity (s_client (u_session u))) chunks (\<lparr>b_total = 0, b_meta = [], b_chunks = []\<rparr>, 0, 0) of
        Err ex \<Rightarrow> (Err ex, u)
      | Ok (b, seq, ts) \<Rightarrow>
          if b_chunks b = [] then (Ok False, u)
          else bind_act (lift_res (chunk_conv node (b_meta b))) (\<lambda>conv.
                 finalize_attachment N e 0 conv node b seq (JInt ts) False) u)"

definition attachment_nodes :: "nacl \<Rightarrow> pyenv \<Rightarrow> ui \<Rightarrow> string list res" where
  "attachment_nodes N e u =
     bind_res (session_contacts e (u_fs u)) (\<lambda>contacts.
     bind_res (traverse_res (\<lambda>(_, info). bind_res (json_get info ''node'') (\<lambda>n.
         case n of Some v \<Rightarrow> if json_truthy v then bind_res (dict_key v) (\<lambda>k. Ok [k]) else Ok [] | None \<Rightarrow> Ok [])) contacts) (\<lambda>cs.
     bind_res (traverse_res (\<lambda>conv. bind_res (bind_res (members N (u_store u) conv) json_dict) (\<lambda>mems.
         Ok (filter (\<lambda>n. JStr n \<noteq> s_node (u_session u)) (map fst mems)))) (rooms (u_store u))) (\<lambda>rs.
       Ok (remdups (concat cs @ concat rs)))))"

definition catchup_attachments :: "nacl \<Rightarrow> pyenv \<Rightarrow> (ui, unit) act" where
  "catchup_attachments N e u =
     (if v_catchup_busy (u_view u) then (Ok (), u)
      else let u1 = on_view (\<lambda>v. v\<lparr>v_catchup_busy := True\<rparr>) u
           in case attachment_nodes N e u of
                Err ex \<Rightarrow> (Err ex, u1)
              | Ok nodes \<Rightarrow> (Ok (), start (AttachmentsTask nodes) u1))"

text \<open>A daemon error of one node or transfer skips it.\<close>

definition skip_daemon_error :: "'a \<Rightarrow> ('s, 'a) act \<Rightarrow> ('s, 'a) act" where
  "skip_daemon_error d m s = (case m s of (Err ex, s1) \<Rightarrow> (if is_DaemonError ex then Ok d else Err ex, s1) | r \<Rightarrow> r)"

fun fetch_transfers :: "'w request_fn \<Rightarrow> string \<Rightarrow> json list \<Rightarrow> (client \<times> 'w, (string \<times> json) list) act" where
  "fetch_transfers req n [] = ret_act []"
| "fetch_transfers req n (t # ts) =
     bind_act (skip_daemon_error []
         (bind_act (lift_res (bind_res (json_item t ''tid'') dict_key)) (\<lambda>tid.
          bind_act (fetch_attachment req n tid) (\<lambda>chunks. ret_act [(n, chunks)])))) (\<lambda>xs.
     bind_act (fetch_transfers req n ts) (\<lambda>ys. ret_act (xs @ ys)))"

fun attachments_worker :: "'w request_fn \<Rightarrow> string list \<Rightarrow> (client \<times> 'w, (string \<times> json) list) act" where
  "attachments_worker req [] = ret_act []"
| "attachments_worker req (n # ns) =
     bind_act (skip_daemon_error (JArr []) (pending_attachments req n)) (\<lambda>transfers.
     bind_act (lift_res (json_iter transfers)) (\<lambda>ts.
     bind_act (fetch_transfers req n ts) (\<lambda>xs.
     bind_act (attachments_worker req ns) (\<lambda>ys. ret_act (xs @ ys)))))"

fun process_all :: "nacl \<Rightarrow> pyenv \<Rightarrow> (string \<times> json) list \<Rightarrow> (ui, unit) act" where
  "process_all N e [] = ret_act ()"
| "process_all N e ((node, chunks) # xs) =
     bind_act (lift_res (json_iter chunks)) (\<lambda>cs.
     bind_act (process_fetched_transfer N e node cs) (\<lambda>_. process_all N e xs))"

definition attachments_done :: "nacl \<Rightarrow> pyenv \<Rightarrow> (string \<times> json) list res \<Rightarrow> (ui, unit) act" where
  "attachments_done N e result u =
     (let u1 = on_view (\<lambda>v. v\<lparr>v_catchup_busy := False\<rparr>) u
      in case result of Err _ \<Rightarrow> (Ok (), u1) | Ok xs \<Rightarrow> process_all N e xs u1)"

section \<open>The daemon's events\<close>

definition handle_event :: "nacl \<Rightarrow> pyenv \<Rightarrow> int \<Rightarrow> (string, json) dict \<Rightarrow> (ui, unit) act" where
  "handle_event N e now_ms ev u =
     (if dict_get ev ''op'' = Some (JStr ''recv'') then incoming N e now_ms ev u
      else if dict_get ev ''op'' = Some (JStr ''acked'')
      then (case (dict_get ev ''to'', entry_seq (JObj ev)) of
              (Some (JStr node), Ok seq) \<Rightarrow> (Ok (), snd (note_acked node seq u))
            | (_, Err ex) \<Rightarrow> (Err ex, u)
            | _ \<Rightarrow> (Err (TypeError ''node is not a string''), u))
      else (Ok (), u))"

text \<open>\<open>drain_events\<close>: an exception ends this round; the events behind it wait for the next.\<close>

fun drain_events :: "nacl \<Rightarrow> pyenv \<Rightarrow> int \<Rightarrow> (string, json) dict list \<Rightarrow> ui \<Rightarrow> (string, json) dict list \<times> ui" where
  "drain_events N e now_ms [] u = ([], u)"
| "drain_events N e now_ms (ev # evs) u =
     (case handle_event N e now_ms ev u of
        (Ok _, u1) \<Rightarrow> drain_events N e now_ms evs u1
      | (Err _, u1) \<Rightarrow> (evs, u1))"

section \<open>The chunks of one file\<close>

lemma concat_file_pieces: "0 < n \<Longrightarrow> concat (file_pieces n data) = data"
  by (induction n data rule: file_pieces.induct) (subst file_pieces.simps, simp)

lemma length_file_chunks [simp]: "length (file_chunks N tid filename nbytes data conv) = length (file_pieces FILE_CHUNK_SIZE data)"
  by (simp add: file_chunks_def Let_def)

lemma nth_file_chunks:
  "i < length (file_pieces FILE_CHUNK_SIZE data) \<Longrightarrow>
   file_chunks N tid filename nbytes data conv ! i =
     make_chunk tid (int i) (int (length (file_pieces FILE_CHUNK_SIZE data))) filename (mime_hint filename)
       (bytes_hex (n_sha256 N data)) (int nbytes) (file_pieces FILE_CHUNK_SIZE data ! i) conv"
  by (simp add: file_chunks_def Let_def enumerate_eq_zip)

lemma mime_hint_valid: "valid_str (mime_hint filename)"
  by (simp add: mime_hint_def valid_str_lit)

lemma valid_sanitized: "valid_str (sanitize_filename filename)"
proof (rule valid_str_lit)
  have "ascii (filter name_char filename)" by (auto simp: ascii_def list_all_iff name_char_def less_eq_char_def)
  then show "ascii (sanitize_filename filename)"
    unfolding sanitize_filename_def strip_chars_def rdropWhile_def Let_def ascii_def
    by (auto simp: list_all_iff dest!: in_set_takeD set_dropWhileD)
qed

text \<open>The data every opened chunk of the file has in common.\<close>

definition file_meta :: "nacl \<Rightarrow> bytes \<Rightarrow> string \<Rightarrow> bytes \<Rightarrow> string option \<Rightarrow> (string, json) dict \<Rightarrow> bool" where
  "file_meta N tid filename data conv chunk \<longleftrightarrow>
     dict_get chunk ''transfer_id'' = Some (JStr (bytes_hex tid)) \<and> dict_get chunk ''filename'' = Some (JStr filename) \<and>
     dict_get chunk ''sha256'' = Some (JStr (bytes_hex (n_sha256 N data))) \<and>
     dict_get chunk ''mime_hint'' = Some (JStr (mime_hint filename)) \<and> dict_get chunk ''conv'' = map_option JStr conv"

text \<open>The event of a chunk.\<close>

definition file_event :: "string \<Rightarrow> string \<Rightarrow> int \<Rightarrow> int \<Rightarrow> (string, json) dict" where
  "file_event node payload seq ts =
     [(''op'', JStr ''recv''), (''type'', JStr ''file''), (''from'', JStr node), (''payload'', JStr payload),
      (''seq'', JInt seq), (''ts'', JInt ts)]"

lemma open_chunk_sent:
  assumes N: "nacl_ok N" and lens: "length a = 32" "length me = 32" "length tid = 16"
    and parts: "parts = file_pieces FILE_CHUNK_SIZE data" "length parts \<le> 65535" "i < length parts"
    and valid: "valid_str filename" "pred_option (\<lambda>c. valid_str c \<and> c \<noteq> []) conv"
    and sent: "build_file_payload N d a (bytes_hex (n_verify_key N me)) (file_chunks N (bytes_hex tid) filename nbytes data conv ! i) = Ok p"
  obtains sealed chunk where
    "open_chunk N me (JObj (file_event node p seq ts)) =
       Some (\<lparr>fp_tid = tid, fp_index = i, fp_total = length parts, fp_sealed = sealed\<rparr>, chunk)"
    and "file_meta N tid filename data conv chunk" and "json_item (JObj chunk) ''data'' = Ok (JStr (b64encode (parts ! i)))"
proof -
  let ?chunk = "file_chunks N (bytes_hex tid) filename nbytes data conv ! i"
  have chunk: "?chunk = make_chunk (bytes_hex tid) (int i) (int (length parts)) filename (mime_hint filename)
      (bytes_hex (n_sha256 N data)) (int nbytes) (parts ! i) conv"
    using parts by (simp add: nth_file_chunks)
  have opt: "pred_option valid_str conv" using valid(2) by (auto simp: pred_option_def)
  have range: "0 \<le> int i" "int i < int (length parts)" "int (length parts) \<le> 65535" using parts by simp_all
  obtain sealed opened where got:
      "parse_file_payload p = Ok \<lparr>fp_tid = tid, fp_index = nat (int i), fp_total = nat (int (length parts)), fp_sealed = sealed\<rparr>"
      "open_file_chunk N me sealed = Ok opened"
      "dict_get opened = (dict_get ?chunk)(''from'' \<mapsto> JStr (bytes_hex (n_verify_key N a)))"
    using payload_opens [OF N lens range valid(1) mime_hint_valid valid_str_hex opt chunk, of d] sent by auto
  have gets: "dict_get opened ''index'' = Some (JInt (int i))" "dict_get opened ''total'' = Some (JInt (int (length parts)))"
      "dict_get opened ''data'' = Some (JStr (b64encode (parts ! i)))" "file_meta N tid filename data conv opened"
    using valid(2) by (auto simp: got(3) chunk make_chunk_def file_meta_def split: option.splits)
  then have "open_chunk N me (JObj (file_event node p seq ts)) =
       Some (\<lparr>fp_tid = tid, fp_index = i, fp_total = length parts, fp_sealed = sealed\<rparr>, opened)"
    using got(1,2) by (simp add: open_chunk_def file_event_def file_meta_def)
  with gets that show thesis by simp
qed

section \<open>Collecting the chunks\<close>

abbreviation conv_or :: "string \<Rightarrow> string option \<Rightarrow> string" where
  "conv_or node conv \<equiv> (case conv of None \<Rightarrow> node | Some c \<Rightarrow> c)"

lemma arrivals_snoc: "dict_set i d (arrivals arr) = arrivals (arr @ [(i, d)])"
  by (simp add: arrivals_def)

lemma length_arrivals: "length (arrivals arr) = card (fst ` set arr)"
proof -
  have "fst ` set (arrivals arr) = fst ` set arr"
    by (induction arr rule: rev_induct) (simp_all add: arrivals_def case_prod_beta dom_update)
  then show ?thesis using distinct_card [OF wf_arrivals [of arr]] by simp
qed

lemma chunk_conv_meta:
  "file_meta N tid filename data conv chunk \<Longrightarrow> pred_option (\<lambda>c. valid_str c \<and> c \<noteq> []) conv \<Longrightarrow>
   chunk_conv node chunk = Ok (conv_or node conv)"
  by (cases conv) (simp_all add: chunk_conv_def file_meta_def opened_conv_def)

text \<open>The buffer of a transfer after some of its chunks.\<close>

definition receiving ::
  "((string, json) dict \<Rightarrow> bool) \<Rightarrow> nat \<Rightarrow> string \<times> string \<Rightarrow> (int \<times> bytes) list \<Rightarrow> ui \<Rightarrow> bool" where
  "receiving meta n key arr u \<longleftrightarrow>
     (case dict_get (v_file_bufs (u_view u)) key of
        None \<Rightarrow> arr = []
      | Some b \<Rightarrow> b_total b = int n \<and> meta (b_meta b) \<and> b_chunks b = arrivals arr)"

definition set_bufs :: "(string \<times> string, file_buf) dict \<Rightarrow> ui \<Rightarrow> ui" where
  "set_bufs F u = on_view (\<lambda>v. v\<lparr>v_file_bufs := F\<rparr>) u"

lemma set_bufs_set_bufs [simp]: "set_bufs F (set_bufs G u) = set_bufs F u"
  by (simp add: set_bufs_def on_view_def)

lemma handle_chunk:
  assumes chunk: "open_chunk N (identity (s_client (u_session u))) (JObj (file_event node p seq ts)) =
      Some (\<lparr>fp_tid = tid, fp_index = i, fp_total = n, fp_sealed = sealed\<rparr>, chunk)"
    and meta: "meta chunk" "chunk_conv node chunk = Ok conv" "json_item (JObj chunk) ''data'' = Ok (JStr (b64encode d))"
    and recv: "receiving meta n (conv, bytes_hex tid) arr u"
  obtains b F where "b_total b = int n" "meta (b_meta b)" "b_chunks b = arrivals (arr @ [(int i, d)])"
    and "dict_get F (conv, bytes_hex tid) = Some b"
    and "handle_event N e now_ms (file_event node p seq ts) u =
      (if card (insert (int i) (fst ` set arr)) \<noteq> n then (Ok (), set_bufs F u)
       else bind_act (finalize_attachment N e now_ms conv node b seq (JInt ts) True)
              (\<lambda>_ u2. (Ok (), drop_buf (conv, bytes_hex tid) u2)) (set_bufs F u))"
proof -
  let ?key = "(conv, bytes_hex tid)"
  define b0 where "b0 = (case dict_get (v_file_bufs (u_view u)) ?key of Some b \<Rightarrow> b | None \<Rightarrow>
      \<lparr>b_total = int (fp_total \<lparr>fp_tid = tid, fp_index = i, fp_total = n, fp_sealed = sealed\<rparr>), b_meta = chunk, b_chunks = []\<rparr>)"
  let ?b = "b0\<lparr>b_chunks := arrivals (arr @ [(int i, d)])\<rparr>"
  have b0: "b_total b0 = int n" "meta (b_meta b0)" "b_chunks b0 = arrivals arr"
    using recv meta(1) by (auto simp: b0_def receiving_def arrivals_def split: option.splits)
  have len: "length (arrivals (arr @ [(int i, d)])) = card (insert (int i) (fst ` set arr))" by (simp add: length_arrivals)
  have data: "bind_res (json_item (JObj chunk) ''data'') b64decode_json = Ok d" using meta(3) by (simp add: b64decode_encode)
  have seq: "entry_seq (JObj (file_event node p seq ts)) = Ok seq" by (simp add: entry_seq_def file_event_def)
  have ev: "dict_get (file_event node p seq ts) ''op'' = Some (JStr ''recv'')" "dict_get (file_event node p seq ts) ''type'' = Some (JStr ''file'')"
    "dict_get (file_event node p seq ts) ''from'' = Some (JStr node)" "dict_get (file_event node p seq ts) ''ts'' = Some (JInt ts)"
    by (simp_all add: file_event_def)
  show thesis
  proof (rule that [of ?b "dict_set ?key ?b (v_file_bufs (u_view u))"])
    show "handle_event N e now_ms (file_event node p seq ts) u =
      (if card (insert (int i) (fst ` set arr)) \<noteq> n then (Ok (), set_bufs (dict_set ?key ?b (v_file_bufs (u_view u))) u)
       else bind_act (finalize_attachment N e now_ms conv node ?b seq (JInt ts) True)
              (\<lambda>_ u2. (Ok (), drop_buf ?key u2)) (set_bufs (dict_set ?key ?b (v_file_bufs (u_view u))) u))"
      unfolding handle_event_def incoming_def ev incoming_file_def option.case json.case
      using chunk meta(2) data seq b0 len
      by (simp add: ev Let_def bind_act_def lift_res_def arrivals_snoc set_bufs_def on_view_def del: json_item.simps flip: b0_def)
  qed (use b0 in \<open>simp_all add: dict_get_set\<close>)
qed

text \<open>A chunk of a file of \<open>n\<close> chunks that has reached this user as event \<open>ev\<close>.\<close>

definition chunk_event ::
  "nacl \<Rightarrow> bytes \<Rightarrow> string \<Rightarrow> bytes \<Rightarrow> ((string, json) dict \<Rightarrow> bool) \<Rightarrow> string \<Rightarrow> bytes list \<Rightarrow> nat \<Rightarrow> string \<Rightarrow> bool" where
  "chunk_event N me node tid meta conv parts i p \<longleftrightarrow> i < length parts \<and>
     (\<forall>seq ts. \<exists>sealed chunk. open_chunk N me (JObj (file_event node p seq ts)) =
          Some (\<lparr>fp_tid = tid, fp_index = i, fp_total = length parts, fp_sealed = sealed\<rparr>, chunk) \<and>
        meta chunk \<and> chunk_conv node chunk = Ok conv \<and> json_item (JObj chunk) ''data'' = Ok (JStr (b64encode (parts ! i))))"

definition seen :: "bytes list \<Rightarrow> nat list \<Rightarrow> (int \<times> bytes) list" where
  "seen parts idx = map (\<lambda>i. (int i, parts ! i)) idx"

lemma fst_seen [simp]: "fst ` set (seen parts idx) = int ` set idx"
  by (auto simp: seen_def image_iff)

lemma card_seen: "card (insert (int i) (fst ` set (seen parts idx))) = card (set (i # idx))"
proof -
  have "insert (int i) (fst ` set (seen parts idx)) = int ` set (i # idx)" by simp
  then show ?thesis by (simp only: card_image inj_on_of_nat)
qed

lemma handle_chunk_event:
  assumes "chunk_event N (identity (s_client (u_session u))) node tid meta conv parts i p"
    and "receiving meta (length parts) (conv, bytes_hex tid) (seen parts idx) u"
  obtains b F where "b_total b = int (length parts)" "meta (b_meta b)" "b_chunks b = arrivals (seen parts (idx @ [i]))"
    and "dict_get F (conv, bytes_hex tid) = Some b"
    and "handle_event N e now_ms (file_event node p seq ts) u =
      (if card (set (i # idx)) \<noteq> length parts then (Ok (), set_bufs F u)
       else bind_act (finalize_attachment N e now_ms conv node b seq (JInt ts) True)
              (\<lambda>_ u2. (Ok (), drop_buf (conv, bytes_hex tid) u2)) (set_bufs F u))"
proof -
  from assms(1) obtain sealed chunk where c:
      "open_chunk N (identity (s_client (u_session u))) (JObj (file_event node p seq ts)) =
        Some (\<lparr>fp_tid = tid, fp_index = i, fp_total = length parts, fp_sealed = sealed\<rparr>, chunk)"
      "meta chunk" "chunk_conv node chunk = Ok conv" "json_item (JObj chunk) ''data'' = Ok (JStr (b64encode (parts ! i)))"
    unfolding chunk_event_def by blast
  have snoc: "seen parts idx @ [(int i, parts ! i)] = seen parts (idx @ [i])" by (simp add: seen_def)
  show thesis
    by (rule handle_chunk [OF c assms(2), of e now_ms]) (use that in \<open>simp only: snoc card_seen\<close>)
qed

text \<open>Any number of chunks, as long as one index is missing.\<close>

lemma drain_incomplete:
  assumes "list_all (\<lambda>(i, p, seq, ts). chunk_event N (identity (s_client (u_session u))) node tid meta conv parts i p) xs"
    and "receiving meta (length parts) (conv, bytes_hex tid) (seen parts idx) u"
    and "set idx \<union> set (map fst xs) \<noteq> {..<length parts}" and "set idx \<subseteq> {..<length parts}"
  shows "\<exists>F. drain_events N e now_ms (map (\<lambda>(i, p, seq, ts). file_event node p seq ts) xs @ rest) u =
      drain_events N e now_ms rest (set_bufs F u) \<and>
    receiving meta (length parts) (conv, bytes_hex tid) (seen parts (idx @ map fst xs)) (set_bufs F u)"
  using assms
proof (induction xs arbitrary: idx u)
  case Nil
  have "set_bufs (v_file_bufs (u_view u)) u = u" by (simp add: set_bufs_def on_view_def)
  with Nil.prems(2) show ?case by (intro exI [of _ "v_file_bufs (u_view u)"]) simp
next
  case (Cons x xs)
  obtain i p seq ts where x: "x = (i, p, seq, ts)" by (cases x)
  have ev: "chunk_event N (identity (s_client (u_session u))) node tid meta conv parts i p" using Cons.prems(1) x by simp
  then have i: "i < length parts" by (simp add: chunk_event_def)
  obtain b F where b: "b_total b = int (length parts)" "meta (b_meta b)" "b_chunks b = arrivals (seen parts (idx @ [i]))"
      "dict_get F (conv, bytes_hex tid) = Some b"
    and run: "handle_event N e now_ms (file_event node p seq ts) u =
      (if card (set (i # idx)) \<noteq> length parts then (Ok (), set_bufs F u)
       else bind_act (finalize_attachment N e now_ms conv node b seq (JInt ts) True)
              (\<lambda>_ u2. (Ok (), drop_buf (conv, bytes_hex tid) u2)) (set_bufs F u))"
    by (rule handle_chunk_event [OF ev Cons.prems(2)])
  have sub: "set (i # idx) \<subseteq> {..<length parts}" using i Cons.prems(4) by simp
  have sub': "set (map fst xs) \<subseteq> {..<length parts}" using Cons.prems(1) by (auto simp: list_all_iff chunk_event_def)
  have "card (set (i # idx)) \<noteq> length parts"
  proof
    assume "card (set (i # idx)) = length parts"
    then have "set (i # idx) = {..<length parts}" using card_subset_eq [OF finite_lessThan sub] by simp
    with Cons.prems(3) sub' x show False by auto
  qed
  with run have step: "handle_event N e now_ms (file_event node p seq ts) u = (Ok (), set_bufs F u)" by simp
  have recv: "receiving meta (length parts) (conv, bytes_hex tid) (seen parts (idx @ [i])) (set_bufs F u)"
    using b by (simp add: receiving_def set_bufs_def)
  have "\<exists>G. drain_events N e now_ms (map (\<lambda>(i, p, seq, ts). file_event node p seq ts) xs @ rest) (set_bufs F u) =
      drain_events N e now_ms rest (set_bufs G (set_bufs F u)) \<and>
    receiving meta (length parts) (conv, bytes_hex tid) (seen parts ((idx @ [i]) @ map fst xs)) (set_bufs G (set_bufs F u))"
    using Cons.prems x sub by (intro Cons.IH) (auto simp: set_bufs_def recv [unfolded set_bufs_def])
  then show ?case by (simp add: x step)
qed

section \<open>Storing the file\<close>

definition attachment_path :: "pyenv \<Rightarrow> string \<Rightarrow> bytes \<Rightarrow> string \<Rightarrow> string" where
  "attachment_path e conv tid filename =
     path_join (path_join (attachments_dir e) conv) (bytes_hex tid @ ''-'' @ sanitize_filename filename)"

definition stored_attachment :: "pyenv \<Rightarrow> string \<Rightarrow> bytes \<Rightarrow> string \<Rightarrow> bytes \<Rightarrow> json" where
  "stored_attachment e conv tid filename data =
     JObj [(''path'', JStr (attachment_path e conv tid filename)), (''filename'', JStr filename),
           (''mime_hint'', JStr (mime_hint filename)), (''size'', JInt (int (length data)))]"

text \<open>The sender has a name in the conversation's thread: its members and contact are objects.\<close>

definition labelled :: "string \<Rightarrow> string \<Rightarrow> view \<Rightarrow> bool" where
  "labelled conv node v \<longleftrightarrow> is_ok (sender_label (thread_or_empty conv v) (JStr node))"

lemma sender_label_cong:
  "th_members s = th_members t \<Longrightarrow> th_contact s = th_contact t \<Longrightarrow> th_screen s = th_screen t \<Longrightarrow> sender_label s = sender_label t"
  by (auto simp: sender_label_def fun_eq_iff split: json.split option.split cong: if_cong)

lemma nth_update_keeps: "f t = f (xs ! i) \<Longrightarrow> f (xs[i := t] ! j) = f (xs ! j)"
  by (cases "i < length xs"; cases "j = i") (simp_all add: list_update_beyond)

lemma labelled_show_incoming: "labelled conv node (u_view (show_incoming i q u)) = labelled conv node (u_view u)"
proof -
  have "sender_label (thread_or_empty conv (u_view (show_incoming i q u))) = sender_label (thread_or_empty conv (u_view u))"
    by (rule sender_label_cong)
       (auto simp: thread_or_empty_def show_incoming_def upd_thread_def nth_update_keeps split: option.split)
  then show ?thesis by (simp add: labelled_def)
qed

lemma alert_file_frame:
  assumes "labelled conv node (u_view u)"
  shows "\<exists>u'. alert_file e now_ms conv node filename u = (Ok True, u') \<and> u_session u' = u_session u \<and> u_fs u' = u_fs u \<and>
    u_view u' = u_view u \<and> u_tasks u' = u_tasks u"
proof -
  obtain v m b where "alert_state conv node u = (v, m, b)" by (cases "alert_state conv node u")
  moreover obtain who where "sender_label (thread_or_empty conv (u_view u)) (JStr node) = Ok who"
    using assms by (cases "sender_label (thread_or_empty conv (u_view u)) (JStr node)") (auto simp: labelled_def)
  ultimately show ?thesis by (simp add: alert_file_def)
qed

lemma reassemble_seen:
  assumes "set idx = {..<length parts}"
  shows "reassemble_file (arrivals (seen parts idx)) (int (length parts)) = Some (concat parts)"
proof -
  have "int ` {..<n} = {0..<int n}" for n
    by (auto simp: image_iff) (metis lessThan_iff nat_0_le nat_less_iff)
  then have "fst ` set (seen parts idx) = {0..<int (length parts)}" using assms by simp
  then show ?thesis using assms by (subst reassemble_arrivals) (auto simp: seen_def)
qed

lemma finalize_complete:
  assumes b: "b_total b = int (length parts)" "file_meta N tid filename data cv (b_meta b)" "b_chunks b = arrivals (seen parts idx)"
    and whole: "set idx = {..<length parts}" "concat parts = data" and filename: "filename \<noteq> []"
    and label: "labelled conv node (u_view u)"
  obtains u' where "finalize_attachment N e now_ms conv node b seq (JInt ts) True u = (Ok True, u')"
    and "u_store u' = snd (ingest N conv node seq ts (Some filename) (Some (stored_attachment e conv tid filename data)) (u_store u))"
    and "os_read (attachment_path e conv tid filename) (u_fs u') = Ok data"
    and "DaemonTask (AckFile node (JStr (bytes_hex tid))) \<in> set (u_tasks u')"
    and "v_file_bufs (u_view u') = v_file_bufs (u_view u)"
proof -
  let ?path = "attachment_path e conv tid filename" and ?att = "stored_attachment e conv tid filename data"
  let ?f = "run_ops (atomic_ops ?path data 420) ((u_fs u)\<lparr>dirs := makedirs 511 (path_join (attachments_dir e) conv) (dirs (u_fs u))\<rparr>)"
  have meta: "dict_get (b_meta b) ''sha256'' = Some (JStr (bytes_hex (n_sha256 N data)))"
      "req_field (JObj (b_meta b)) ''filename'' (JStr ''file'') = Ok (JStr filename)"
      "json_item (JObj (b_meta b)) ''transfer_id'' = Ok (JStr (bytes_hex tid))"
      "dict_get (b_meta b) ''mime_hint'' = Some (JStr (mime_hint filename))"
    using b(2) filename by (simp_all add: file_meta_def req_field_def get_default_def)
  have rebuilt: "reassemble_file (b_chunks b) (b_total b) = Some data" using reassemble_seen [OF whole(1)] b whole(2) by simp
  have stored: "store_attachment e conv (bytes_hex tid) filename data (u_fs u) = (?path, ?f)"
    by (simp add: store_attachment_def attachment_path_def Let_def)
  let ?u2 = "on_store (\<lambda>_. snd (ingest N conv node seq ts (Some filename) (Some ?att) (u_store u))) (u\<lparr>u_fs := ?f\<rparr>)"
  let ?u3 = "case dict_get (v_threads (u_view u)) conv of Some i \<Rightarrow> show_incoming i (JStr filename) ?u2 | None \<Rightarrow> ?u2"
  let ?u4 = "start (DaemonTask (AckFile node (JStr (bytes_hex tid)))) ?u3"
  have run: "finalize_attachment N e now_ms conv node b seq (JInt ts) True u = alert_file e now_ms conv node filename ?u4"
    unfolding finalize_attachment_def rebuilt option.case
    using meta stored by (simp add: Let_def add_recv_file_def stored_attachment_def del: json_item.simps split: option.split)
  have u3: "u_session ?u3 = u_session ?u2" "u_fs ?u3 = ?f" "v_file_bufs (u_view ?u3) = v_file_bufs (u_view u)"
    by (simp_all add: show_incoming_def upd_thread_def split: option.split)
  have "labelled conv node (u_view ?u4)" using label by (simp add: labelled_show_incoming split: option.split)
  then obtain u' where u': "alert_file e now_ms conv node filename ?u4 = (Ok True, u')" "u_session u' = u_session ?u4"
      "u_fs u' = u_fs ?u4" "u_view u' = u_view ?u4" "u_tasks u' = u_tasks ?u4"
    using alert_file_frame by blast
  show thesis
    by (rule that [of u']) (use run u' u3 atomic.read_back in simp_all)
qed

lemma length_file_pieces: "0 < n \<Longrightarrow> length (file_pieces n data) \<le> length data div n + 1"
proof (induction n data rule: file_pieces.induct)
  case (1 n data)
  show ?case
  proof (cases "data = [] \<or> length data < n")
    case True
    then show ?thesis using 1(2) by (auto simp: file_pieces.simps [of n data] file_pieces.simps [of n "[]"])
  next
    case False
    then have len: "length data div n = Suc (length (drop n data) div n)" using 1(2) by (simp add: div_if [of "length data"])
    have "length (file_pieces n data) = Suc (length (file_pieces n (drop n data)))"
      using False 1(2) by (simp add: file_pieces.simps [of n data])
    also have "\<dots> \<le> Suc (length (drop n data) div n + 1)" using 1 False by simp
    finally show ?thesis using len by simp
  qed
qed

lemma pieces_fit: "length data \<le> MAX_SEND_BYTES \<Longrightarrow> length (file_pieces FILE_CHUNK_SIZE data) \<le> 65535"
  using length_file_pieces [of FILE_CHUNK_SIZE data] div_le_mono [of "length data" MAX_SEND_BYTES FILE_CHUNK_SIZE]
  by (simp add: FILE_CHUNK_SIZE_def MAX_SEND_BYTES_def)

lemma valid_str_Cons: "of_char c < (128 :: nat) \<Longrightarrow> valid_str s \<Longrightarrow> valid_str (c # s)"
  using valid_str_append [of "[c]" s] valid_str_ascii [of "[c]"] by simp

lemma valid_path_join: "valid_str a \<Longrightarrow> valid_str b \<Longrightarrow> valid_str (path_join a b)"
  by (auto simp: path_join_def intro!: valid_str_append valid_str_Cons)

lemma stored_attachment_valid:
  assumes "valid_str (attachments_dir e)" "valid_str conv" "valid_str filename"
  shows "valid_json (stored_attachment e conv tid filename data)"
  using assms mime_hint_valid valid_sanitized
  by (auto simp: stored_attachment_def attachment_path_def valid_str_lit intro!: valid_path_join valid_str_append valid_str_Cons)

text \<open>
  The chunks of a file, sealed by \<open>a\<close> for this user, each at least once and in any order; the
  last of them completes the file.
\<close>

definition complete_transfer ::
  "nacl \<Rightarrow> bytes \<Rightarrow> bytes \<Rightarrow> (string, json) dict list \<Rightarrow> (nat \<times> string \<times> int \<times> int) list \<Rightarrow> bool" where
  "complete_transfer N a me chunks xs \<longleftrightarrow> xs \<noteq> [] \<and>
     list_all (\<lambda>(i, p, _). i < length chunks \<and> (\<exists>d. build_file_payload N d a (bytes_hex (n_verify_key N me)) (chunks ! i) = Ok p)) xs \<and>
     set (map fst xs) = {..<length chunks} \<and> set (map fst (butlast xs)) \<noteq> {..<length chunks}"

lemma drain_file:
  assumes N: "nacl_ok N" and lens: "length a = 32" "length (identity (s_client (u_session u))) = 32" "length tid = 16"
    and data: "length data \<le> MAX_SEND_BYTES" and valid: "valid_str filename" "filename \<noteq> []" "pred_option (\<lambda>c. valid_str c \<and> c \<noteq> []) cv"
    and xs: "complete_transfer N a (identity (s_client (u_session u))) (file_chunks N (bytes_hex tid) filename nbytes data cv) (xs @ [(i, p, seq, ts)])"
    and free: "dict_get (v_file_bufs (u_view u)) (conv_or node cv, bytes_hex tid) = None" and label: "labelled (conv_or node cv) node (u_view u)"
  obtains u' where "drain_events N e now_ms (map (\<lambda>(i, p, seq, ts). file_event node p seq ts) (xs @ [(i, p, seq, ts)])) u = ([], u')"
    and "u_store u' = snd (ingest N (conv_or node cv) node seq ts (Some filename)
      (Some (stored_attachment e (conv_or node cv) tid filename data)) (u_store u))"
    and "os_read (attachment_path e (conv_or node cv) tid filename) (u_fs u') = Ok data"
    and "DaemonTask (AckFile node (JStr (bytes_hex tid))) \<in> set (u_tasks u')"
    and "dict_get (v_file_bufs (u_view u')) (conv_or node cv, bytes_hex tid) = None"
proof -
  let ?me = "identity (s_client (u_session u))" and ?conv = "conv_or node cv" and ?meta = "file_meta N tid filename data cv"
  define parts where "parts = file_pieces FILE_CHUNK_SIZE data"
  have whole: "concat parts = data" by (simp add: parts_def concat_file_pieces FILE_CHUNK_SIZE_def)
  have fit: "length parts \<le> 65535" using pieces_fit [OF data] by (simp add: parts_def)
  have event: "chunk_event N ?me node tid ?meta ?conv parts j q" if "j < length parts"
    "build_file_payload N d a (bytes_hex (n_verify_key N ?me)) (file_chunks N (bytes_hex tid) filename nbytes data cv ! j) = Ok q" for j q d
    unfolding chunk_event_def
    using that open_chunk_sent [OF N lens parts_def fit that(1) valid(1,3) that(2)] chunk_conv_meta [OF _ valid(3)] by metis
  have events: "list_all (\<lambda>(i, p, seq, ts). chunk_event N ?me node tid ?meta ?conv parts i p) (xs @ [(i, p, seq, ts)])"
    and idx: "set (map fst xs) \<noteq> {..<length parts}" "set (map fst xs @ [i]) = {..<length parts}"
    using xs event by (auto simp: complete_transfer_def parts_def [symmetric] list_all_iff)
  have "receiving ?meta (length parts) (?conv, bytes_hex tid) (seen parts []) u" using free by (simp add: receiving_def seen_def)
  then obtain F where some: "drain_events N e now_ms (map (\<lambda>(i, p, seq, ts). file_event node p seq ts) xs @ [file_event node p seq ts]) u =
      drain_events N e now_ms [file_event node p seq ts] (set_bufs F u)"
    and recv: "receiving ?meta (length parts) (?conv, bytes_hex tid) (seen parts (map fst xs)) (set_bufs F u)"
    using drain_incomplete [of N u node tid ?meta ?conv parts xs "[]" e now_ms "[file_event node p seq ts]"] events idx(1)
    by (metis append_Nil empty_subsetI list.pred_inject(1) list_all_append set_empty sup_bot_left list.set(1))
  have same: "u_session (set_bufs G w) = u_session w" "u_fs (set_bufs G w) = u_fs w" "v_file_bufs (u_view (set_bufs G w)) = G"
    "labelled ?conv node (u_view (set_bufs G w)) = labelled ?conv node (u_view w)" for G w
    by (simp_all add: set_bufs_def labelled_def thread_or_empty_def cong: option.case_cong)
  have last: "chunk_event N (identity (s_client (u_session (set_bufs F u)))) node tid ?meta ?conv parts i p" using events by (simp add: same)
  have full: "card (set (i # map fst xs)) = length parts" using idx(2) by (metis card_lessThan rotate1.simps(2) set_rotate1)
  obtain b G where b: "b_total b = int (length parts)" "?meta (b_meta b)" "b_chunks b = arrivals (seen parts (map fst xs @ [i]))"
    and run: "handle_event N e now_ms (file_event node p seq ts) (set_bufs F u) =
      bind_act (finalize_attachment N e now_ms ?conv node b seq (JInt ts) True)
        (\<lambda>_ u2. (Ok (), drop_buf (?conv, bytes_hex tid) u2)) (set_bufs G (set_bufs F u))"
    by (rule handle_chunk_event [OF last recv]) (use full in auto)
  obtain u' where u': "finalize_attachment N e now_ms ?conv node b seq (JInt ts) True (set_bufs G (set_bufs F u)) = (Ok True, u')"
      "u_store u' = snd (ingest N ?conv node seq ts (Some filename) (Some (stored_attachment e ?conv tid filename data)) (u_store u))"
      "os_read (attachment_path e ?conv tid filename) (u_fs u') = Ok data" "DaemonTask (AckFile node (JStr (bytes_hex tid))) \<in> set (u_tasks u')"
    using finalize_complete [OF b idx(2) whole valid(2), of ?conv node "set_bufs G (set_bufs F u)" e now_ms seq ts] label by (auto simp: same)
  show thesis
    by (rule that [of "drop_buf (?conv, bytes_hex tid) u'"])
       (use some run u' in \<open>simp_all add: bind_act_def drop_buf_def delete_conv\<close>)
qed

text \<open>A file of three bytes, sent in one chunk.\<close>

lemma small_transfer:
  assumes "nacl_ok N" "length a = 32" "length b = 32" "length tid = 16" "pred_option valid_str cv"
  obtains p where "complete_transfer N a b (file_chunks N (bytes_hex tid) ''a.txt'' 3 [1, 2, 3] cv) [(0, p, 5, 7)]"
proof -
  have parts: "file_pieces FILE_CHUNK_SIZE [1, 2, 3] = [[1, 2, 3]]"
    by (simp add: file_pieces.simps FILE_CHUNK_SIZE_def)
  let ?chunks = "file_chunks N (bytes_hex tid) ''a.txt'' 3 [1, 2, 3] cv"
  have chunk: "?chunks ! 0 = make_chunk (bytes_hex tid) 0 1 ''a.txt'' (mime_hint ''a.txt'') (bytes_hex (n_sha256 N [1, 2, 3])) 3 [1, 2, 3] cv"
    by (subst nth_file_chunks) (simp_all add: parts)
  obtain p where "build_file_payload N 0 a (bytes_hex (n_verify_key N b)) (?chunks ! 0) = Ok p"
    using payload_opens [OF assms(1-4) _ _ _ _ mime_hint_valid valid_str_hex assms(5) chunk, of 0] by (auto simp: valid_str_lit)
  then have "complete_transfer N a b ?chunks [(0, p, 5, 7)]" by (auto simp: complete_transfer_def parts lessThan_Suc)
  then show thesis by (rule that)
qed

lemma labelled_new: "node \<noteq> [] \<Longrightarrow> labelled conv node view_init"
  by (simp add: labelled_def thread_or_empty_def view_init_def sender_label_def empty_thread_def)

section \<open>Tracking a sent file\<close>

text \<open>The record at index \<open>j\<close> has exactly the keys that lead to it, and its line is up to date.\<close>

definition tracked :: "nat \<Rightarrow> string \<Rightarrow> nat \<Rightarrow> view \<Rightarrow> bool" where
  "tracked j filename tot v \<longleftrightarrow> j < length (v_recs v) \<and>
     (\<forall>k. k \<in> set (r_keys (v_recs v ! j)) \<longleftrightarrow> dict_get (v_pending_files v) k = Some j) \<and>
     r_filename (v_recs v ! j) = filename \<and> r_total (v_recs v ! j) = tot \<and>
     r_text (v_recs v ! j) = delivery_text filename tot (r_keys (v_recs v ! j))"

definition refs_ok :: "view \<Rightarrow> bool" where
  "refs_ok v \<longleftrightarrow> (\<forall>k j. dict_get (v_pending_files v) k = Some j \<longrightarrow> j < length (v_recs v))"

lemma fold_dict_set_get:
  "dict_get (fold (\<lambda>k. dict_set k j) ks d) k = (if k \<in> set ks then Some j else dict_get d k)"
  by (induction ks arbitrary: d) (auto simp: dict_get_set)

lemma register_tracked:
  fixes v :: view and expected :: "(string \<times> int) list"
  defines "keys \<equiv> remdups (filter (\<lambda>(_, s). s \<noteq> 0) expected)"
  assumes "refs_ok v"
  shows "tracked (length (v_recs v)) filename (length (remdups (map fst keys))) (register_file_delivery filename expected v)"
    and "r_keys (v_recs (register_file_delivery filename expected v) ! length (v_recs v)) = filter (\<lambda>k. k \<notin> set (v_acked_seen v)) keys"
proof -
  have "dict_get (v_pending_files v) k \<noteq> Some (length (v_recs v))" for k using assms(2) unfolding refs_ok_def by (metis less_irrefl)
  then show "tracked (length (v_recs v)) filename (length (remdups (map fst keys))) (register_file_delivery filename expected v)"
    by (auto simp: tracked_def register_file_delivery_def Let_def keys_def set_delivery_text_def fold_dict_set_get)
  show "r_keys (v_recs (register_file_delivery filename expected v) ! length (v_recs v)) = filter (\<lambda>k. k \<notin> set (v_acked_seen v)) keys"
    by (simp add: register_file_delivery_def Let_def keys_def set_delivery_text_def)
qed

lemma ack_tracked:
  assumes "tracked j filename tot v"
  shows "tracked j filename tot (snd (ack_key node seq v)) \<and>
    r_keys (v_recs (snd (ack_key node seq v)) ! j) = removeAll (node, seq) (r_keys (v_recs v ! j))"
proof (cases "dict_get (v_pending_files v) (node, seq)")
  case None
  then have "(node, seq) \<notin> set (r_keys (v_recs v ! j))" using assms by (simp add: tracked_def)
  with None assms show ?thesis by (simp add: ack_key_def Let_def tracked_def)
next
  case (Some i)
  show ?thesis
  proof (cases "i = j")
    case True
    with Some assms show ?thesis
      by (auto simp: ack_key_def Let_def tracked_def set_delivery_text_def delete_conv)
  next
    case False
    then have "(node, seq) \<notin> set (r_keys (v_recs v ! j))" using assms Some by (simp add: tracked_def)
    with False Some assms show ?thesis
      by (auto simp: ack_key_def Let_def tracked_def set_delivery_text_def delete_conv)
  qed
qed

lemma acks_tracked:
  assumes "tracked j filename tot v"
  shows "tracked j filename tot (fold (\<lambda>(n, s) v. snd (ack_key n s v)) acks v) \<and>
    r_keys (v_recs (fold (\<lambda>(n, s) v. snd (ack_key n s v)) acks v) ! j) = filter (\<lambda>k. k \<notin> set acks) (r_keys (v_recs v ! j))"
  using assms
proof (induction acks arbitrary: v)
  case (Cons a acks)
  obtain n s where a: "a = (n, s)" by (cases a)
  from Cons.IH [of "snd (ack_key n s v)"] ack_tracked [OF Cons.prems, of n s]
  show ?case by (simp add: a removeAll_filter_not_eq conj_commute eq_commute)
qed simp

lemma delivered_text: "delivery_text filename tot keys = ''Delivered '' @ filename @ '' '' @ [CHR 0xE2, CHR 0x9C, CHR 0x93] \<longleftrightarrow> tot \<noteq> 0 \<and> keys = []"
  by (cases keys) (auto simp: delivery_text_def Let_def)

section \<open>Properties\<close>

text \<open>
  C12: the chunk events of a file, in any order and with repetitions, end with exactly the
  file's bytes at its place below the attachments, a message that carries it, an
  acknowledgement to the daemon and no buffer left. The sender need not be a contact.
\<close>

theorem file_delivered:
  assumes N: "nacl_ok N" and st: "store_ok N (u_store u)"
    and lens: "length a = 32" "length (identity (s_client (u_session u))) = 32" "length tid = 16" "length data \<le> MAX_SEND_BYTES"
    and valid: "valid_str filename" "filename \<noteq> []" "pred_option (\<lambda>c. valid_str c \<and> c \<noteq> []) cv" "valid_str node" "valid_str (attachments_dir e)"
    and xs: "complete_transfer N a (identity (s_client (u_session u))) (file_chunks N (bytes_hex tid) filename nbytes data cv) (xs @ [(i, p, seq, ts)])"
    and free: "dict_get (v_file_bufs (u_view u)) (conv_or node cv, bytes_hex tid) = None" "labelled (conv_or node cv) node (u_view u)"
    and new: "is_new (u_store u) (in_id node seq)"
  shows "\<exists>u' ms m. drain_events N e now_ms (map (\<lambda>(i, p, seq, ts). file_event node p seq ts) (xs @ [(i, p, seq, ts)])) u = ([], u') \<and>
    os_read (attachment_path e (conv_or node cv) tid filename) (u_fs u') = Ok data \<and>
    messages N (u_store u') (conv_or node cv) = Ok ms \<and> m \<in> set ms \<and> v_id m = in_id node seq \<and>
    v_attachment m = Some (stored_attachment e (conv_or node cv) tid filename data) \<and>
    DaemonTask (AckFile node (JStr (bytes_hex tid))) \<in> set (u_tasks u') \<and>
    dict_get (v_file_bufs (u_view u')) (conv_or node cv, bytes_hex tid) = None"
proof -
  let ?att = "stored_attachment e (conv_or node cv) tid filename data"
  obtain u' where u': "drain_events N e now_ms (map (\<lambda>(i, p, seq, ts). file_event node p seq ts) (xs @ [(i, p, seq, ts)])) u = ([], u')"
      "u_store u' = snd (ingest N (conv_or node cv) node seq ts (Some filename) (Some ?att) (u_store u))"
      "os_read (attachment_path e (conv_or node cv) tid filename) (u_fs u') = Ok data"
      "DaemonTask (AckFile node (JStr (bytes_hex tid))) \<in> set (u_tasks u')"
      "dict_get (v_file_bufs (u_view u')) (conv_or node cv, bytes_hex tid) = None"
    by (rule drain_file [OF N lens(1,2,3,4) valid(1,2,3) xs free])
  have "valid_str (conv_or node cv)" using valid(3,4) by (auto split: option.splits)
  then have "pred_option valid_json (Some ?att)" using stored_attachment_valid [OF valid(5) _ valid(1)] by simp
  then obtain ms m where "messages N (u_store u') (conv_or node cv) = Ok ms" "m \<in> set ms" "v_id m = in_id node seq"
      "v_attachment m = (if json_truthy ?att then Some ?att else None)"
    using ingest_messages [OF N st valid(4) _ _ new refl, of "Some filename" "Some ?att" "conv_or node cv" ts] valid(1) u'(2) by auto
  moreover have "json_truthy ?att" by (simp add: stored_attachment_def)
  ultimately show ?thesis using u' by auto
qed

theorem file_delivered_witness:
  "\<exists>p st u' ms m. drain_events plain_nacl (home_env ''/h'') 0 [file_event ''n1'' p 5 7] (new_window plain_nacl (replicate 32 2) st) = ([], u') \<and>
    os_read (attachment_path (home_env ''/h'') ''n1'' (replicate 16 9) ''a.txt'') (u_fs u') = Ok [1, 2, 3] \<and>
    messages plain_nacl (u_store u') ''n1'' = Ok ms \<and> m \<in> set ms \<and>
    v_attachment m = Some (stored_attachment (home_env ''/h'') ''n1'' (replicate 16 9) ''a.txt'' [1, 2, 3])"
proof -
  define a b tid :: bytes where defs: "a = replicate 32 1" "b = replicate 32 2" "tid = replicate 16 9"
  have len: "length a = 32" "length b = 32" "length tid = 16" by (simp_all add: defs)
  obtain p where p: "complete_transfer plain_nacl a b (file_chunks plain_nacl (bytes_hex tid) ''a.txt'' 3 [1, 2, 3] None) [(0, p, 5, 7)]"
    by (rule small_transfer [OF plain_nacl_ok len]) auto
  obtain st where st: "store_ok plain_nacl st" "open_store plain_nacl ''pw'' [1] empty_store = Ok st"
    using open_store_ok [OF plain_nacl_ok] by blast
  have new: "is_new st (in_id ''n1'' 5)" using st(2) by (auto simp: is_new_def open_store_def salt_def empty_store_def)
  have dir: "valid_str (attachments_dir (home_env ''/h''))"
    by (rule valid_str_lit) code_simp
  let ?u = "new_window plain_nacl b st"
  have "\<exists>u' ms m. drain_events plain_nacl (home_env ''/h'') 0 [file_event ''n1'' p 5 7] ?u = ([], u') \<and>
      os_read (attachment_path (home_env ''/h'') ''n1'' tid ''a.txt'') (u_fs u') = Ok [1, 2, 3] \<and>
      messages plain_nacl (u_store u') ''n1'' = Ok ms \<and> m \<in> set ms \<and>
      v_attachment m = Some (stored_attachment (home_env ''/h'') ''n1'' tid ''a.txt'' [1, 2, 3])"
    using file_delivered [of plain_nacl ?u a tid "[1, 2, 3]" "''a.txt''" None "''n1''" "home_env ''/h''" 3 "[]" 0 p 5 7 0]
      plain_nacl_ok st(1) len p labelled_new [of "''n1''" "''n1''"] new dir
    by (simp add: valid_str_lit MAX_SEND_BYTES_def view_init_def) blast
  then show ?thesis unfolding defs by blast
qed

text \<open>
  C13: a sender who names an absolute path as the conversation of a file chooses the directory it
  is stored in: the file ends up below that path, wherever this user keeps the attachments.
\<close>

theorem sender_chooses_directory:
  assumes "nacl_ok N" "length a = 32" "length (identity (s_client (u_session u))) = 32" "length tid = 16" "length data \<le> MAX_SEND_BYTES"
    and "valid_str filename" "filename \<noteq> []" "valid_str dir" "hd dir = CHR ''/''" "last dir = CHR ''/''" "dir \<noteq> []"
    and "complete_transfer N a (identity (s_client (u_session u))) (file_chunks N (bytes_hex tid) filename nbytes data (Some dir)) [(i, p, seq, ts)]"
    and "dict_get (v_file_bufs (u_view u)) (dir, bytes_hex tid) = None" "labelled dir node (u_view u)"
  shows "\<exists>u'. drain_events N e now_ms [file_event node p seq ts] u = ([], u') \<and>
    os_read (dir @ bytes_hex tid @ ''-'' @ sanitize_filename filename) (u_fs u') = Ok data"
proof -
  have cv: "pred_option (\<lambda>c. valid_str c \<and> c \<noteq> []) (Some dir)" using assms(8,11) by simp
  have hex: "bytes_hex tid \<noteq> []" "CHR ''/'' \<notin> set (bytes_hex tid)"
    using assms(4) bytes_hex_chars [of tid] by (auto simp: bytes_hex_def hex_digits_def)
  then have "hd (bytes_hex tid) \<noteq> CHR ''/''" by (metis list.set_sel(1))
  then have path: "attachment_path e dir tid filename = dir @ bytes_hex tid @ ''-'' @ sanitize_filename filename"
    using assms(9,10,11) hex(1) by (simp add: attachment_path_def path_join_def)
  have "complete_transfer N a (identity (s_client (u_session u))) (file_chunks N (bytes_hex tid) filename nbytes data (Some dir)) ([] @ [(i, p, seq, ts)])"
    using assms(12) by simp
  from drain_file [OF assms(1-7) cv this, of node e now_ms] assms(13,14) path show ?thesis by auto
qed

theorem sender_chooses_directory_witness:
  "\<exists>p u'. drain_events plain_nacl (home_env ''/h'') 0 [file_event ''n1'' p 5 7] (new_window plain_nacl (replicate 32 2) empty_store) = ([], u') \<and>
    os_read (''/tmp/'' @ bytes_hex (replicate 16 9) @ ''-'' @ sanitize_filename ''a.txt'') (u_fs u') = Ok [1, 2, 3]"
proof -
  define a b tid :: bytes where defs: "a = replicate 32 1" "b = replicate 32 2" "tid = replicate 16 9"
  have len: "length a = 32" "length b = 32" "length tid = 16" by (simp_all add: defs)
  have opt: "pred_option valid_str (Some ''/tmp/'')" by (simp add: valid_str_lit)
  obtain p where p: "complete_transfer plain_nacl a b (file_chunks plain_nacl (bytes_hex tid) ''a.txt'' 3 [1, 2, 3] (Some ''/tmp/'')) [(0, p, 5, 7)]"
    by (rule small_transfer [OF plain_nacl_ok len opt])
  let ?u = "new_window plain_nacl b empty_store"
  have "\<exists>u'. drain_events plain_nacl (home_env ''/h'') 0 [file_event ''n1'' p 5 7] ?u = ([], u') \<and>
      os_read (''/tmp/'' @ bytes_hex tid @ ''-'' @ sanitize_filename ''a.txt'') (u_fs u') = Ok [1, 2, 3]"
    using sender_chooses_directory [of plain_nacl a ?u tid "[1, 2, 3]" "''a.txt''" "''/tmp/''" 3 0 p 5 7 "''n1''" "home_env ''/h''" 0]
      plain_nacl_ok len p labelled_new [of "''n1''" "''/tmp/''"]
    by (simp add: valid_str_lit MAX_SEND_BYTES_def view_init_def)
  then show ?thesis unfolding defs by blast
qed



end
