(* ===== verification/Window.thy ===== *)
theory Window
  imports FileTransfer
begin

text \<open>
  The main window of \<open>client/aimless/gtkui.py\<close> as a state machine: what the user does, the
  events of the daemon and the ends of the background tasks, in any order, each one of the
  handlers of \<open>Chat\<close> and \<open>FileTransfer\<close>. The invariant is what the handlers rely on when they use
  the objects of the window, and that no background task is started twice.
\<close>

section \<open>Steps\<close>

text \<open>What a background task ends with.\<close>

datatype outcome =
    Hists "(string, json) dict res"
  | Latests "(string, json) dict res"
  | Seqs "(string, json) dict res"
  | Resp "json res"
  | FileSeqs "((string, int) dict \<times> (string \<times> int) list) res"
  | Transfers "(string \<times> json) list res"
  | Done

text \<open>The \<open>done\<close> or \<open>fail\<close> function of a task; \<open>None\<close> for an outcome the task cannot have.\<close>

definition finish :: "nacl \<Rightarrow> pyenv \<Rightarrow> int \<Rightarrow> task \<Rightarrow> outcome \<Rightarrow> ui \<Rightarrow> ui option" where
  "finish N e now_ms t out u =
     (case (t, out) of
        (SweepTask _, Hists r) \<Rightarrow> Some (snd (sweep_done N r u))
      | (HistoryTask conv _, Hists r) \<Rightarrow> Some (snd (history_done N conv r u))
      | (DeleteTask i conv _, Latests r) \<Rightarrow> Some (snd (delete_done i conv r u))
      | (ClearTask i conv _, Latests r) \<Rightarrow> Some (snd (clear_done i conv r u))
      | (RoomTask conv _ body ts, Seqs r) \<Rightarrow> Some (snd (room_sent N conv r body ts u))
      | (DmTask conv contact body ts, Resp r) \<Rightarrow> Some (snd (dm_sent N conv contact r body ts u))
      | (FileTask i conv filename _ att, FileSeqs r) \<Rightarrow> Some (file_sent N i conv filename att r now_ms u)
      | (AttachmentsTask _, Transfers r) \<Rightarrow> Some (snd (attachments_done N e r u))
      | (SurfaceTask, Done) \<Rightarrow> Some (snd (surface_pending_requests N u))
      | (DaemonTask _, Done) \<Rightarrow> Some u
      | _ \<Rightarrow> None)"

datatype ui_event =
    Daemon_Event "(string, json) dict"
  | Row_Selected "string option"
  | Send_Pressed string
  | Attach_Pressed "string option" bool bytes
  | Room_Created "json list"
  | Chip_Pressed string "json option" bool bool
  | Mute_Pressed
  | Block_Pressed bool
  | Delete_Pressed bool
  | Clear_Pressed bool
  | Request_Answered choice
  | Presence_Arrived "(string, (string, json) dict) dict res"
  | Catchup_Unread
  | Catchup_Attachments
  | Contacts_Changed fs
  | Task_Ended nat outcome

definition end_task :: "nacl \<Rightarrow> pyenv \<Rightarrow> int \<Rightarrow> nat \<Rightarrow> outcome \<Rightarrow> ui \<Rightarrow> ui" where
  "end_task N e now_ms n out u =
     (if n < length (u_tasks u)
      then case finish N e now_ms (u_tasks u ! n) out (u\<lparr>u_tasks := take n (u_tasks u) @ drop (Suc n) (u_tasks u)\<rparr>) of
             Some u' \<Rightarrow> u' | None \<Rightarrow> u
      else u)"

definition ui_step :: "nacl \<Rightarrow> pyenv \<Rightarrow> (json \<Rightarrow> (string, json) dict res) \<Rightarrow> int \<Rightarrow> ui_event \<Rightarrow> ui \<Rightarrow> ui" where
  "ui_step N e open_it now_ms ev u =
     (case ev of
        Daemon_Event d \<Rightarrow> snd (handle_event N e now_ms d u)
      | Row_Selected row \<Rightarrow> on_thread_selected N row u
      | Send_Pressed composer \<Rightarrow> snd (send_message composer now_ms u)
      | Attach_Pressed path confirmed fresh \<Rightarrow> snd (on_attach N path confirmed fresh u)
      | Room_Created infos \<Rightarrow> snd (create_room N e infos u)
      | Chip_Pressed node screen known confirmed \<Rightarrow> snd (on_member_chip N e node screen known confirmed u)
      | Mute_Pressed \<Rightarrow> on_toggle_mute N u
      | Block_Pressed confirmed \<Rightarrow> snd (on_block N e confirmed u)
      | Delete_Pressed confirmed \<Rightarrow> on_delete_room confirmed u
      | Clear_Pressed confirmed \<Rightarrow> on_clear_history confirmed u
      | Request_Answered answer \<Rightarrow> snd (answer_request N e answer u)
      | Presence_Arrived r \<Rightarrow> presence_done open_it r u
      | Catchup_Unread \<Rightarrow> catchup_unread u
      | Catchup_Attachments \<Rightarrow> snd (catchup_attachments N e u)
      | Contacts_Changed f \<Rightarrow> snd (sync_sidebar N e (u\<lparr>u_fs := f\<rparr>))
      | Task_Ended n out \<Rightarrow> end_task N e now_ms n out u)"

inductive ui_runs :: "nacl \<Rightarrow> pyenv \<Rightarrow> (json \<Rightarrow> (string, json) dict res) \<Rightarrow> ui \<Rightarrow> ui \<Rightarrow> bool" for N e open_it where
  runs_refl: "ui_runs N e open_it u u"
| runs_step: "ui_runs N e open_it u v \<Longrightarrow> ui_runs N e open_it u (ui_step N e open_it now_ms ev v)"

section \<open>The invariant\<close>

definition view_ok :: "view \<Rightarrow> bool" where
  "view_ok v \<longleftrightarrow> wf_dict (v_threads v) \<and>
     list_all (\<lambda>(conv, i). i < length (v_objs v) \<and> th_conv (v_objs v ! i) = conv) (v_threads v) \<and>
     (case v_selected v of None \<Rightarrow> True | Some i \<Rightarrow> dict_get (v_threads v) (th_conv (v_objs v ! i)) = Some i) \<and> refs_ok v"

fun task_ref :: "task \<Rightarrow> nat option" where
  "task_ref (DeleteTask i _ _) = Some i"
| "task_ref (ClearTask i _ _) = Some i"
| "task_ref (FileTask i _ _ _ _) = Some i"
| "task_ref _ = None"

fun is_send :: "task \<Rightarrow> bool" where
  "is_send (RoomTask _ _ _ _) = True"
| "is_send (DmTask _ _ _ _) = True"
| "is_send _ = False"

fun is_history :: "task \<Rightarrow> bool" where
  "is_history (HistoryTask _ _) = True"
| "is_history _ = False"

fun is_catchup :: "task \<Rightarrow> bool" where
  "is_catchup (SweepTask _) = True"
| "is_catchup (AttachmentsTask _) = True"
| "is_catchup _ = False"

definition running :: "(task \<Rightarrow> bool) \<Rightarrow> ui \<Rightarrow> nat" where
  "running P u = length (filter P (u_tasks u))"

definition ui_ok :: "ui \<Rightarrow> bool" where
  "ui_ok u \<longleftrightarrow> view_ok (u_view u) \<and>
     list_all (\<lambda>t. pred_option (\<lambda>i. i < length (v_objs (u_view u))) (task_ref t)) (u_tasks u) \<and>
     running is_send u = of_bool (v_sending (u_view u)) \<and>
     running is_history u = of_bool (v_history_busy (u_view u)) \<and>
     running is_catchup u \<le> of_bool (v_catchup_busy (u_view u))"

section \<open>Views\<close>

text \<open>A change of the view that keeps its invariant, its objects and the busy flags.\<close>

definition evolves :: "view \<Rightarrow> view \<Rightarrow> bool" where
  "evolves v w \<longleftrightarrow> (view_ok v \<longrightarrow> view_ok w) \<and> length (v_objs v) \<le> length (v_objs w) \<and> v_sending w = v_sending v \<and>
     v_history_busy w = v_history_busy v \<and> v_catchup_busy w = v_catchup_busy v"

lemma evolves_refl [simp]: "evolves v v"
  by (simp add: evolves_def)

lemma evolves_trans [trans]: "evolves u v \<Longrightarrow> evolves v w \<Longrightarrow> evolves u w"
  by (auto simp: evolves_def)

lemma view_ok_nth: "view_ok v \<Longrightarrow> dict_get (v_threads v) conv = Some i \<Longrightarrow> i < length (v_objs v) \<and> th_conv (v_objs v ! i) = conv"
  by (auto simp: view_ok_def list_all_iff dest!: map_of_SomeD)

lemma view_ok_selected: "view_ok v \<Longrightarrow> v_selected v = Some i \<Longrightarrow> dict_get (v_threads v) (th_conv (v_objs v ! i)) = Some i \<and> i < length (v_objs v)"
  using view_ok_nth [of v "th_conv (v_objs v ! i)" i] by (simp add: view_ok_def)

lemma view_okI:
  assumes "wf_dict (v_threads v)" "\<And>conv i. dict_get (v_threads v) conv = Some i \<Longrightarrow> i < length (v_objs v) \<and> th_conv (v_objs v ! i) = conv"
    "\<And>i. v_selected v = Some i \<Longrightarrow> dict_get (v_threads v) (th_conv (v_objs v ! i)) = Some i" "refs_ok v"
  shows "view_ok v"
  using assms by (auto simp: view_ok_def list_all_iff split: option.split)

lemma evolves_upd_thread:
  assumes "\<And>t. th_conv (f t) = th_conv t"
  shows "evolves v (upd_thread i f v)"
proof -
  have same: "th_conv ((v_objs v)[i := f (v_objs v ! i)] ! j) = th_conv (v_objs v ! j)" for j
    using assms by (simp add: nth_update_keeps)
  then show ?thesis by (auto simp: evolves_def view_ok_def upd_thread_def refs_ok_def split: option.splits)
qed

lemma evolves_new_thread: "dict_get (v_threads v) (th_conv t) = None \<Longrightarrow> evolves v (new_thread t v)"
proof -
  assume new: "dict_get (v_threads v) (th_conv t) = None"
  have "view_ok (new_thread t v)" if ok: "view_ok v"
  proof (rule view_okI)
    show "wf_dict (v_threads (new_thread t v))" using ok by (simp add: new_thread_def view_ok_def dict.wf_put)
    show "i < length (v_objs (new_thread t v)) \<and> th_conv (v_objs (new_thread t v) ! i) = conv"
      if "dict_get (v_threads (new_thread t v)) conv = Some i" for conv i
      using that view_ok_nth [OF ok, of conv i] by (auto simp: new_thread_def dict_get_set nth_append split: if_splits)
    show "dict_get (v_threads (new_thread t v)) (th_conv (v_objs (new_thread t v) ! i)) = Some i"
      if "v_selected (new_thread t v) = Some i" for i
      using that view_ok_selected [OF ok, of i] new by (auto simp: new_thread_def dict_get_set nth_append)
    show "refs_ok (new_thread t v)" using ok by (simp add: view_ok_def refs_ok_def new_thread_def)
  qed
  then show ?thesis by (auto simp: evolves_def new_thread_def)
qed

lemma evolves_pop_thread: "evolves v (pop_thread conv v)"
proof -
  have "view_ok (pop_thread conv v)" if ok: "view_ok v"
  proof (rule view_okI)
    show "wf_dict (v_threads (pop_thread conv v))" using ok by (simp add: pop_thread_def view_ok_def dict.wf_del)
    show "i < length (v_objs (pop_thread conv v)) \<and> th_conv (v_objs (pop_thread conv v) ! i) = c"
      if "dict_get (v_threads (pop_thread conv v)) c = Some i" for c i
      using that view_ok_nth [OF ok, of c i] by (auto simp: pop_thread_def delete_conv split: if_splits)
    show "dict_get (v_threads (pop_thread conv v)) (th_conv (v_objs (pop_thread conv v) ! i)) = Some i"
      if "v_selected (pop_thread conv v) = Some i" for i
      using that view_ok_selected [OF ok, of i] by (auto simp: pop_thread_def delete_conv split: if_splits)
    show "refs_ok (pop_thread conv v)" using ok by (simp add: view_ok_def refs_ok_def pop_thread_def)
  qed
  then show ?thesis by (simp add: evolves_def pop_thread_def)
qed

lemma evolves_deselect: "evolves v (deselect i v)"
  by (simp add: evolves_def deselect_def view_ok_def refs_ok_def)

lemma evolves_drop_threads: "evolves v (drop_threads nodes v)"
proof -
  let ?w = "drop_threads nodes v"
  have get: "dict_get (v_threads ?w) c = Some i \<longleftrightarrow> dict_get (v_threads v) c = Some i \<and> \<not> stale_thread nodes v i" if "view_ok v" for c i
    using that by (auto simp: drop_threads_def view_ok_def map_of_eq_Some_iff distinct_map_filter)
  have "view_ok ?w" if ok: "view_ok v"
  proof (rule view_okI)
    show "wf_dict (v_threads ?w)" using ok by (simp add: drop_threads_def view_ok_def distinct_map_filter)
    show "i < length (v_objs ?w) \<and> th_conv (v_objs ?w ! i) = c" if "dict_get (v_threads ?w) c = Some i" for c i
      using that view_ok_nth [OF ok, of c i] get [OF ok] by (simp add: drop_threads_def)
    show "dict_get (v_threads ?w) (th_conv (v_objs ?w ! i)) = Some i" if "v_selected ?w = Some i" for i
    proof -
      have sel: "v_selected v = Some i" "\<not> (i \<in> snd ` set (v_threads v) \<and> stale_thread nodes v i)"
        using that by (auto simp: drop_threads_def split: option.splits if_splits)
      from view_ok_selected [OF ok sel(1)] have listed: "dict_get (v_threads v) (th_conv (v_objs v ! i)) = Some i" by simp
      then have "i \<in> snd ` set (v_threads v)" by (force dest: map_of_SomeD)
      with sel(2) listed get [OF ok] show ?thesis by (simp add: drop_threads_def)
    qed
    show "refs_ok ?w" using ok by (simp add: view_ok_def refs_ok_def drop_threads_def)
  qed
  then show ?thesis by (simp add: evolves_def drop_threads_def)
qed

lemma evolves_sync_contact: "evolves v (snd (sync_contact petname info v))"
  by (auto simp: sync_contact_def split: res.split option.split intro!: evolves_upd_thread evolves_new_thread)

lemma evolves_sync_contacts: "evolves v (snd (sync_contacts cs v))"
proof (induction cs v rule: sync_contacts.induct)
  case (2 petname info cs v)
  have "evolves v (snd (sync_contact petname info v))" by (rule evolves_sync_contact)
  with 2 show ?case by (auto split: prod.split res.split intro: evolves_trans)
qed simp

lemma evolves_sync_room: "evolves v (snd (sync_room N self st conv v))"
  by (auto simp: sync_room_def split: res.split option.split intro!: evolves_upd_thread evolves_new_thread)

lemma evolves_sync_rooms: "evolves v (snd (sync_rooms N self st cs v))"
proof (induction N self st cs v rule: sync_rooms.induct)
  case (2 N self st c cs v)
  have "evolves v (snd (sync_room N self st c v))" by (rule evolves_sync_room)
  with 2 show ?case by (auto split: prod.split res.split intro: evolves_trans)
qed simp

lemma evolves_fold_upd:
  assumes "\<And>t. th_conv (f t) = th_conv t"
  shows "evolves v (fold (\<lambda>(_, i). upd_thread i f) ts v)"
  by (induction ts arbitrary: v) (auto intro: evolves_trans evolves_upd_thread [OF assms])

lemma refresh_thread_conv: "th_conv (refresh_thread open_it self pres t) = th_conv t"
  by (simp add: refresh_thread_def Let_def split: prod.split)

lemma evolves_refresh_presence: "evolves v (refresh_presence open_it self pres v)"
  unfolding refresh_presence_def by (rule evolves_fold_upd) (rule refresh_thread_conv)

text \<open>The fields the invariant of a view reads.\<close>

lemma view_ok_cong:
  assumes "v_objs w = v_objs v" "v_threads w = v_threads v" "v_selected w = v_selected v"
    "v_recs w = v_recs v" "v_pending_files w = v_pending_files v"
  shows "view_ok w = view_ok v"
  unfolding view_ok_def refs_ok_def assms by (rule refl)

lemma view_ok_refs:
  assumes "v_objs w = v_objs v" "v_threads w = v_threads v" "v_selected w = v_selected v" "refs_ok v \<Longrightarrow> refs_ok w"
  shows "view_ok v \<Longrightarrow> view_ok w"
  using assms(4) unfolding view_ok_def assms(1-3) by blast

lemma evolves_count_arrived: "evolves v (snd (count_arrived N st before ts v))"
proof (induction ts arbitrary: v)
  case (Cons x ts)
  obtain conv i where x: "x = (conv, i)" by (cases x)
  show ?case
  proof (cases "messages N st conv")
    case (Ok ms)
    define d where "d = length ms - (case dict_get before conv of Some n \<Rightarrow> n | None \<Rightarrow> 0)"
    define v1 where "v1 = (if d > 0 \<and> v_selected v \<noteq> Some i then upd_thread i (\<lambda>t. t\<lparr>th_unread := th_unread t + d\<rparr>) v else v)"
    have "evolves v v1" by (simp add: v1_def evolves_upd_thread)
    moreover have "snd (count_arrived N st before (x # ts) v) = snd (count_arrived N st before ts v1)"
      unfolding x count_arrived.simps Ok res.case Let_def d_def [symmetric] v1_def [symmetric]
      by (simp add: split_beta split: res.split)
    ultimately show ?thesis using Cons.IH [of v1] by (simp add: evolves_trans)
  qed (simp add: x)
qed simp

lemma evolves_bufs: "evolves v (v\<lparr>v_file_bufs := F\<rparr>)"
proof -
  have "view_ok (v\<lparr>v_file_bufs := F\<rparr>) = view_ok v" by (rule view_ok_cong) simp_all
  then show ?thesis by (simp add: evolves_def)
qed

lemma register_refs: "refs_ok v \<Longrightarrow> refs_ok (register_file_delivery filename expected v)"
  by (auto simp: refs_ok_def register_file_delivery_def Let_def fold_dict_set_get less_SucI split: if_splits)

lemma evolves_register: "evolves v (register_file_delivery filename expected v)"
proof -
  have "view_ok v \<Longrightarrow> view_ok (register_file_delivery filename expected v)"
    by (rule view_ok_refs [of _ v, OF _ _ _ register_refs]) (simp_all add: register_file_delivery_def Let_def)
  then show ?thesis by (simp add: evolves_def) (simp add: register_file_delivery_def Let_def)
qed

lemma ack_refs: "refs_ok v \<Longrightarrow> refs_ok (snd (ack_key node seq v))"
  by (auto simp: refs_ok_def ack_key_def Let_def delete_conv split: option.split if_splits)

lemma evolves_ack_key: "evolves v (snd (ack_key node seq v))"
proof -
  have "view_ok v \<Longrightarrow> view_ok (snd (ack_key node seq v))"
    by (rule view_ok_refs [of _ v, OF _ _ _ ack_refs]) (simp_all add: ack_key_def Let_def split: option.split)
  then show ?thesis by (simp add: evolves_def) (simp add: ack_key_def Let_def split: option.split)
qed

lemma render_file_refs: "refs_ok v \<Longrightarrow> refs_ok (render_file st m v)"
  by (auto simp: refs_ok_def render_file_def Let_def fold_dict_set_get less_SucI split: if_splits)

lemma evolves_render_file: "evolves v (render_file st m v)"
proof -
  have "view_ok v \<Longrightarrow> view_ok (render_file st m v)"
    by (rule view_ok_refs [of _ v, OF _ _ _ render_file_refs]) (simp_all add: render_file_def Let_def)
  then show ?thesis by (simp add: evolves_def) (simp add: render_file_def Let_def)
qed

lemma evolves_render: "evolves v (fold (render_file st) ms v)"
  by (induction ms arbitrary: v) (auto intro: evolves_trans evolves_render_file)

section \<open>Handlers\<close>

text \<open>Changes outside the list of conversations, and tasks without a flag or an object.\<close>

definition light :: "task \<Rightarrow> bool" where
  "light t \<longleftrightarrow> task_ref t = None \<and> \<not> is_send t \<and> \<not> is_history t \<and> \<not> is_catchup t"

lemma ui_ok_cong: "u_view w = u_view u \<Longrightarrow> u_tasks w = u_tasks u \<Longrightarrow> ui_ok w \<longleftrightarrow> ui_ok u"
  by (simp add: ui_ok_def running_def)

lemma ui_ok_frames [simp]:
  "ui_ok (on_store f u) \<longleftrightarrow> ui_ok u" "ui_ok (u\<lparr>u_fs := f'\<rparr>) \<longleftrightarrow> ui_ok u" "ui_ok (u\<lparr>u_asking := a\<rparr>) \<longleftrightarrow> ui_ok u"
  "ui_ok (alert e now_ms conv node who what u) \<longleftrightarrow> ui_ok u"
  by (rule ui_ok_cong; simp)+

lemma ui_ok_start: "ui_ok u \<Longrightarrow> light t \<Longrightarrow> ui_ok (start t u)"
  by (simp add: ui_ok_def running_def light_def)

lemma ui_ok_start_ref:
  assumes "ui_ok u" "task_ref t = Some i" "i < length (v_objs (u_view u))"
  shows "ui_ok (start t u)"
  using assms by (cases t) (auto simp: ui_ok_def running_def)

lemma ui_ok_view: "ui_ok u \<Longrightarrow> evolves (u_view u) v \<Longrightarrow> ui_ok (u\<lparr>u_view := v\<rparr>)"
  by (auto simp: ui_ok_def running_def evolves_def list_all_iff pred_option_def)

lemma ui_ok_on_view: "ui_ok u \<Longrightarrow> evolves (u_view u) (f (u_view u)) \<Longrightarrow> ui_ok (on_view f u)"
  by (simp add: on_view_def ui_ok_view)

lemma ui_ok_view_ok: "ui_ok u \<Longrightarrow> view_ok (u_view u)"
  by (simp add: ui_ok_def)

lemma ui_ok_bind:
  assumes "ui_ok u" "ui_ok (snd (m u))" "\<And>x w. ui_ok w \<Longrightarrow> m u = (Ok x, w) \<Longrightarrow> ui_ok (snd (f x w))"
  shows "ui_ok (snd (bind_act m f u))"
  using assms by (auto simp: bind_act_def split: prod.splits res.splits)

named_theorems kept \<open>handlers keep the invariant\<close>

declare ui_ok_start [kept] ui_ok_on_view [kept]

lemma light_tasks [simp]: "light (DaemonTask j)" "light SurfaceTask"
  by (simp_all add: light_def)

lemma load_history_kept [kept]: "ui_ok u \<Longrightarrow> ui_ok (load_history_async conv u)"
proof -
  have "view_ok (v\<lparr>v_history_busy := True\<rparr>) = view_ok v" for v by (rule view_ok_cong) simp_all
  then show "ui_ok u \<Longrightarrow> ui_ok (load_history_async conv u)"
    by (auto simp: load_history_async_def ui_ok_def running_def)
qed

lemma render_messages_kept [kept]: "ui_ok u \<Longrightarrow> ui_ok (snd (render_messages N conv u))"
  unfolding render_messages_def by (auto split: res.split intro!: kept evolves_render)

lemma history_loaded_kept [kept]: "ui_ok u \<Longrightarrow> ui_ok (snd (history_loaded N conv u))"
  unfolding history_loaded_def by (auto split: option.split intro!: kept)

lemma evolves_select: "dict_get (v_threads v) conv = Some i \<Longrightarrow> evolves v (v\<lparr>v_selected := Some i\<rparr>)"
  by (auto simp: evolves_def view_ok_nth intro!: view_okI) (auto simp: view_ok_def refs_ok_def)

lemma evolves_unselect: "evolves v (v\<lparr>v_selected := None\<rparr>)"
  by (simp add: evolves_def view_ok_def refs_ok_def)

lemma thread_selected_kept [kept]: "ui_ok u \<Longrightarrow> ui_ok (on_thread_selected N row u)"
proof -
  assume u: "ui_ok u"
  have drawn: "ui_ok (case render_messages N conv (on_store (mark_read conv) w) of (Err _, u1) \<Rightarrow> u1 | (Ok _, u1) \<Rightarrow> load_history_async conv u1)"
    if "ui_ok w" for conv w
    using that render_messages_kept [of "on_store (mark_read conv) w" N conv] by (auto split: prod.splits res.splits intro: kept)
  have opened: "ui_ok (on_view (\<lambda>v. upd_thread i (\<lambda>t. t\<lparr>th_unread := 0\<rparr>) (v\<lparr>v_selected := Some i\<rparr>)) u)"
    if "dict_get (v_threads (u_view u)) conv = Some i" for conv i
    using u by (rule ui_ok_on_view) (rule evolves_trans [OF evolves_select [OF that] evolves_upd_thread], simp)
  show ?thesis
    unfolding on_thread_selected_def using u opened drawn
    by (simp add: ui_ok_on_view evolves_unselect split: option.split)
qed

lemma select_conv_kept [kept]: "ui_ok u \<Longrightarrow> ui_ok (select_conv N conv u)"
  unfolding select_conv_def by (auto split: option.split intro: kept)

lemma sync_sidebar_kept [kept]: "ui_ok u \<Longrightarrow> ui_ok (snd (sync_sidebar N e u))"
proof -
  have "evolves v (snd (sync_contacts cs (drop_threads nodes v)))" for v cs nodes
    by (rule evolves_trans [OF evolves_drop_threads evolves_sync_contacts])
  then show "ui_ok u \<Longrightarrow> ui_ok (snd (sync_sidebar N e u))"
    unfolding sync_sidebar_def using evolves_sync_rooms
    by (auto split: res.split prod.split intro!: ui_ok_view) (metis evolves_trans snd_conv)+
qed

lemma apply_hists_kept [kept]: "ui_ok u \<Longrightarrow> ui_ok (snd (apply_hists N hists u))"
  by (simp add: apply_hists_def split: prod.split)

lemma create_room_kept [kept]: "ui_ok u \<Longrightarrow> ui_ok (snd (create_room N e infos u))"
  unfolding create_room_def Let_def by (auto split: res.split intro!: ui_ok_bind kept)

lemma member_chip_kept [kept]: "ui_ok u \<Longrightarrow> ui_ok (snd (on_member_chip N e node screen known confirmed u))"
  unfolding on_member_chip_def by (auto split: option.split res.split prod.split intro!: ui_ok_bind kept)

lemma toggle_mute_kept [kept]: "ui_ok u \<Longrightarrow> ui_ok (on_toggle_mute N u)"
  by (simp add: on_toggle_mute_def Let_def split: option.split)

lemma evolves_removed: "evolves v (deselect i (pop_thread conv v))"
  by (rule evolves_trans [OF evolves_pop_thread evolves_deselect])

lemma block_kept [kept]: "ui_ok u \<Longrightarrow> ui_ok (snd (on_block N e confirmed u))"
  unfolding on_block_def Let_def by (auto split: option.split res.split intro!: kept evolves_removed)

lemma delete_room_kept [kept]: "ui_ok u \<Longrightarrow> ui_ok (on_delete_room confirmed u)"
  unfolding on_delete_room_def Let_def
  by (auto split: option.split intro!: ui_ok_start_ref dest: ui_ok_view_ok view_ok_selected)

lemma clear_history_kept [kept]: "ui_ok u \<Longrightarrow> ui_ok (on_clear_history confirmed u)"
  unfolding on_clear_history_def Let_def
  by (auto split: option.split intro!: ui_ok_start_ref dest: ui_ok_view_ok view_ok_selected)

lemma delete_done_kept [kept]: "ui_ok u \<Longrightarrow> ui_ok (snd (delete_done i conv r u))"
  unfolding delete_done_def by (auto split: res.split intro!: kept evolves_removed)

lemma clear_done_kept [kept]: "ui_ok u \<Longrightarrow> ui_ok (snd (clear_done i conv r u))"
  unfolding clear_done_def by (auto split: res.split intro!: kept evolves_upd_thread)

lemma send_message_kept [kept]: "ui_ok u \<Longrightarrow> ui_ok (snd (send_message composer now_ms u))"
proof -
  have "view_ok (v\<lparr>v_sending := True\<rparr>) = view_ok v" for v by (rule view_ok_cong) simp_all
  then show "ui_ok u \<Longrightarrow> ui_ok (snd (send_message composer now_ms u))"
    by (auto simp: send_message_def Let_def ui_ok_def running_def split: option.split)
qed

lemma preview_kept [kept]: "ui_ok u \<Longrightarrow> ui_ok (snd (preview_selected p u))"
  unfolding preview_selected_def by (auto split: option.split intro!: kept evolves_upd_thread)

lemma surface_kept [kept]: "ui_ok u \<Longrightarrow> ui_ok (snd (surface_pending_requests N u))"
  by (simp add: surface_pending_requests_def split: prod.split res.split option.split)

lemma release_kept [kept]: "ui_ok u \<Longrightarrow> ui_ok (snd (release_request N r node u))"
proof -
  assume u: "ui_ok u"
  have "ui_ok u1" if "bind_res (get_default r ''conv'' JNull) (\<lambda>cv.
           if json_truthy cv
           then bind_res (bind_res (get_default r ''members'' (JArr [])) json_iter) (\<lambda>ms.
                bind_res (roster ms) (\<lambda>mems. bind_res (sql_text cv) (\<lambda>conv.
                  Ok (conv, if mems = [] then u else on_store (ensure_room N conv (JObj mems)) u))))
           else Ok (node, u)) = Ok (conv, u1)" for conv u1
    using that u by (auto elim!: bind_res_Ok split: if_splits)
  then show "ui_ok (snd (release_request N r node u))"
    unfolding release_request_def using u by (auto split: res.split prod.split)
qed

lemma accept_kept [kept]: "ui_ok u \<Longrightarrow> ui_ok (snd (accept_request N e r node u))"
  unfolding accept_request_def by (auto split: res.split prod.split intro!: ui_ok_bind kept)

lemma block_request_kept [kept]: "ui_ok u \<Longrightarrow> ui_ok (snd (block_request N r node u))"
  unfolding block_request_def Let_def by (auto split: res.split intro!: kept)

lemma answer_kept [kept]: "ui_ok u \<Longrightarrow> ui_ok (snd (answer_request N e answer u))"
  unfolding answer_request_def Let_def
  by (auto simp: ret_act_def split: option.split res.split choice.split intro!: ui_ok_bind kept)

lemma incoming_room_kept [kept]: "ui_ok u \<Longrightarrow> ui_ok (snd (incoming_room N node opened u))"
  by (simp add: incoming_room_def split: option.split res.split)

lemma add_recv_kept [kept]: "ui_ok u \<Longrightarrow> ui_ok (snd (add_recv_json N conv node ev opened u))"
  by (simp add: add_recv_json_def split: res.split prod.split)

lemma withhold_kept [kept]: "ui_ok u \<Longrightarrow> ui_ok (snd (withhold N node ev opened u))"
  unfolding withhold_def by (auto split: res.split intro!: kept)

lemma find_thread_kept [kept]: "ui_ok u \<Longrightarrow> ui_ok (snd (find_thread N e conv u))"
  unfolding find_thread_def by (auto split: option.split intro!: ui_ok_bind kept)

lemma show_incoming_kept [kept]: "ui_ok u \<Longrightarrow> ui_ok (show_incoming i p u)"
  unfolding show_incoming_def by (auto intro!: kept evolves_upd_thread)

lemma lift_kept [kept]: "ui_ok u \<Longrightarrow> ui_ok (snd (lift_res r u))"
  by (simp add: lift_res_def)

lemma incoming_text_kept [kept]: "ui_ok u \<Longrightarrow> ui_ok (snd (incoming_text N e now_ms node ev opened u))"
  unfolding incoming_text_def
  by (auto simp: ret_act_def split: option.split res.split intro!: ui_ok_bind kept)

lemma incoming_message_kept [kept]: "ui_ok u \<Longrightarrow> ui_ok (snd (incoming_message N e now_ms ev u))"
  unfolding incoming_message_def by (auto split: option.split json.split res.split intro!: kept)

lemma attach_kept [kept]: "ui_ok u \<Longrightarrow> ui_ok (snd (on_attach N chosen confirmed fresh u))"
  unfolding on_attach_def prepare_file_def Let_def
  by (auto split: option.split res.split intro!: ui_ok_start_ref dest: ui_ok_view_ok view_ok_selected)

lemma file_sent_kept [kept]: "ui_ok u \<Longrightarrow> ui_ok (file_sent N i conv filename att r ts u)"
proof -
  have "evolves v (register_file_delivery filename expected
      (if v_selected v = Some i then upd_thread i (\<lambda>t. t\<lparr>th_preview := JStr filename\<rparr>) v else v))" for v expected
    by (rule evolves_trans [OF _ evolves_register]) (simp add: evolves_upd_thread)
  then show "ui_ok u \<Longrightarrow> ui_ok (file_sent N i conv filename att r ts u)"
    unfolding file_sent_def Let_def append_outgoing_def by (auto split: res.split intro!: kept)
qed

lemma note_acked_kept [kept]: "ui_ok u \<Longrightarrow> ui_ok (snd (note_acked node seq u))"
  unfolding note_acked_def using evolves_ack_key [of "u_view u" node seq] by (auto split: prod.splits intro!: ui_ok_view)

lemma finalize_kept [kept]: "ui_ok u \<Longrightarrow> ui_ok (snd (finalize_attachment N e now_ms conv node b seq ts notify u))"
  unfolding finalize_attachment_def alert_file_def Let_def
  by (auto split: option.split res.split prod.split intro!: kept)

lemma drop_buf_kept [kept]: "ui_ok u \<Longrightarrow> ui_ok (drop_buf key u)"
  unfolding drop_buf_def by (auto intro!: kept evolves_bufs)

lemma incoming_file_kept [kept]: "ui_ok u \<Longrightarrow> ui_ok (snd (incoming_file N e now_ms ev u))"
  unfolding incoming_file_def Let_def
  by (auto split: option.split json.split res.split prod.split intro!: ui_ok_bind kept evolves_bufs)

lemma handle_event_kept [kept]: "ui_ok u \<Longrightarrow> ui_ok (snd (handle_event N e now_ms ev u))"
  unfolding handle_event_def incoming_def by (auto split: option.split json.split res.split intro!: kept)

lemma process_kept [kept]: "ui_ok u \<Longrightarrow> ui_ok (snd (process_fetched_transfer N e node chunks u))"
  unfolding process_fetched_transfer_def by (auto split: res.split prod.split intro!: ui_ok_bind kept)

lemma process_all_kept [kept]: "ui_ok u \<Longrightarrow> ui_ok (snd (process_all N e xs u))"
  by (induction xs arbitrary: u rule: process_all.induct) (auto simp: ret_act_def intro!: ui_ok_bind kept)

lemma presence_kept [kept]: "ui_ok u \<Longrightarrow> ui_ok (presence_done open_it r u)"
  unfolding presence_done_def
  by (auto split: res.split intro!: kept evolves_refresh_presence evolves_trans [OF evolves_fold_upd evolves_refresh_presence])

lemma catchup_view: "view_ok (v\<lparr>v_catchup_busy := b\<rparr>) = view_ok v"
  by (rule view_ok_cong) simp_all

lemma catchup_unread_kept [kept]: "ui_ok u \<Longrightarrow> ui_ok (catchup_unread u)"
  by (auto simp: catchup_unread_def ui_ok_def running_def catchup_view)

lemma catchup_attachments_kept [kept]: "ui_ok u \<Longrightarrow> ui_ok (snd (catchup_attachments N e u))"
  by (auto simp: catchup_attachments_def ui_ok_def running_def catchup_view Let_def of_bool_def split: res.split if_splits)

section \<open>The end of a task\<close>

definition without_task :: "nat \<Rightarrow> ui \<Rightarrow> ui" where
  "without_task n u = u\<lparr>u_tasks := take n (u_tasks u) @ drop (Suc n) (u_tasks u)\<rparr>"

lemma running_split: "n < length (u_tasks u) \<Longrightarrow> running P u = running P (without_task n u) + of_bool (P (u_tasks u ! n))"
proof -
  assume "n < length (u_tasks u)"
  then have "u_tasks u = take n (u_tasks u) @ u_tasks u ! n # drop (Suc n) (u_tasks u)" by (rule id_take_nth_drop)
  then have "length (filter P (u_tasks u)) = length (filter P (take n (u_tasks u) @ u_tasks u ! n # drop (Suc n) (u_tasks u)))" by simp
  then show ?thesis by (simp add: running_def without_task_def)
qed

text \<open>A task is gone and the flag of its kind is reset.\<close>

lemma task_gone:
  assumes u: "ui_ok u" and n: "n < length (u_tasks u)" and t: "t = u_tasks u ! n" and w: "w = without_task n u"
  shows "is_send t \<Longrightarrow> ui_ok (on_view (\<lambda>v. v\<lparr>v_sending := False\<rparr>) w)"
    and "is_history t \<Longrightarrow> ui_ok (on_view (\<lambda>v. v\<lparr>v_history_busy := False\<rparr>) w)"
    and "is_catchup t \<Longrightarrow> ui_ok (on_view (\<lambda>v. v\<lparr>v_catchup_busy := False\<rparr>) w)"
    and "\<not> is_send t \<Longrightarrow> \<not> is_history t \<Longrightarrow> \<not> is_catchup t \<Longrightarrow> ui_ok w"
proof -
  have same: "u_view w = u_view u" by (simp add: w without_task_def)
  have refs: "list_all (\<lambda>t. pred_option (\<lambda>i. i < length (v_objs (u_view u))) (task_ref t)) (u_tasks w)"
    using u by (auto simp: ui_ok_def w without_task_def list_all_iff dest: in_set_takeD in_set_dropD)
  have views: "view_ok (v\<lparr>v_sending := False\<rparr>) = view_ok v" "view_ok (v\<lparr>v_history_busy := False\<rparr>) = view_ok v"
      "view_ok (v\<lparr>v_catchup_busy := False\<rparr>) = view_ok v" for v
    by (rule view_ok_cong; simp)+
  have count: "running P w + of_bool (P t) = running P u" for P using running_split [OF n] by (simp add: t w)
  have on: "running P (on_view f w) = running P w" for P f by (simp add: running_def)
  have kinds: "is_send t \<Longrightarrow> \<not> is_history t \<and> \<not> is_catchup t" "is_history t \<Longrightarrow> \<not> is_catchup t" by (cases t; simp)+
  note facts = u [unfolded ui_ok_def] refs count [of is_send] count [of is_history] count [of is_catchup] kinds
  show "is_send t \<Longrightarrow> ui_ok (on_view (\<lambda>v. v\<lparr>v_sending := False\<rparr>) w)"
    using facts by (simp add: ui_ok_def on same views of_bool_def split: if_splits)
  show "is_history t \<Longrightarrow> ui_ok (on_view (\<lambda>v. v\<lparr>v_history_busy := False\<rparr>) w)"
    using facts by (cases "is_send t") (simp_all add: ui_ok_def on same views of_bool_def split: if_splits)
  show "is_catchup t \<Longrightarrow> ui_ok (on_view (\<lambda>v. v\<lparr>v_catchup_busy := False\<rparr>) w)"
    using facts by (cases "is_send t"; cases "is_history t") (simp_all add: ui_ok_def on same views of_bool_def split: if_splits)
  show "\<not> is_send t \<Longrightarrow> \<not> is_history t \<Longrightarrow> \<not> is_catchup t \<Longrightarrow> ui_ok w"
    using facts by (simp add: ui_ok_def same)
qed

lemma sweep_done_kept: "ui_ok (on_view (\<lambda>v. v\<lparr>v_catchup_busy := False\<rparr>) w) \<Longrightarrow> ui_ok (snd (sweep_done N r w))"
proof -
  let ?w = "on_view (\<lambda>v. v\<lparr>v_catchup_busy := False\<rparr>) w"
  assume w: "ui_ok ?w"
  have count: "ui_ok (snd (case count_arrived N (u_store u) before (v_threads (u_view u)) (u_view u) of (r, v) \<Rightarrow> (r, u\<lparr>u_view := v\<rparr>)))"
    if "ui_ok u" for u before
    using ui_ok_view [OF that evolves_count_arrived] by (simp add: split_beta)
  show "ui_ok (snd (sweep_done N r w))"
    unfolding sweep_done_def Let_def
  proof (cases r)
    case (Ok hists)
    show "ui_ok (snd (case r of Err _ \<Rightarrow> (Ok 0, ?w) | Ok hists \<Rightarrow>
        (case message_counts N (u_store ?w) (v_threads (u_view ?w)) of Err ex \<Rightarrow> (Err ex, ?w)
         | Ok before \<Rightarrow> bind_act (apply_hists N hists) (\<lambda>_ u2.
             case count_arrived N (u_store u2) before (v_threads (u_view u2)) (u_view u2) of
                      (r, v) \<Rightarrow> (r, u2\<lparr>u_view := v\<rparr>)) ?w)))"
      unfolding Ok res.case using w count by (auto split: res.split intro!: ui_ok_bind kept)
  qed (use w in simp)
qed

lemma history_done_kept: "ui_ok (on_view (\<lambda>v. v\<lparr>v_history_busy := False\<rparr>) w) \<Longrightarrow> ui_ok (snd (history_done N conv r w))"
  unfolding history_done_def Let_def by (auto simp: ret_act_def split: res.split intro!: ui_ok_bind kept)

lemma sent_kept: "ui_ok (on_view (\<lambda>v. v\<lparr>v_sending := False\<rparr>) w) \<Longrightarrow> ui_ok (snd (sent N conv r body ts w))"
  unfolding sent_def Let_def append_outgoing_def by (auto split: res.split intro!: preview_kept)

lemma dm_sent_kept: "ui_ok (on_view (\<lambda>v. v\<lparr>v_sending := False\<rparr>) w) \<Longrightarrow> ui_ok (snd (dm_sent N conv contact r body ts w))"
  unfolding dm_sent_def by (auto split: res.split intro: sent_kept)

lemma attachments_done_kept:
  "ui_ok (on_view (\<lambda>v. v\<lparr>v_catchup_busy := False\<rparr>) w) \<Longrightarrow> ui_ok (snd (attachments_done N e r w))"
  unfolding attachments_done_def Let_def by (auto split: res.split intro!: kept)

lemma finish_kept:
  assumes "ui_ok u" "n < length (u_tasks u)" "finish N e now_ms (u_tasks u ! n) out (without_task n u) = Some w"
  shows "ui_ok w"
proof -
  note gone = task_gone [OF assms(1,2) refl refl]
  show ?thesis
  proof (cases "u_tasks u ! n")
    case (SweepTask x)
    with gone(3) assms(3) show ?thesis by (auto simp: finish_def split: outcome.splits intro: sweep_done_kept)
  next
    case (HistoryTask x y)
    with gone(2) assms(3) show ?thesis by (auto simp: finish_def split: outcome.splits intro: history_done_kept)
  next
    case (RoomTask x1 x2 x3 x4)
    with gone(1) assms(3) show ?thesis by (auto simp: finish_def room_sent_def split: outcome.splits intro: sent_kept)
  next
    case (DmTask x1 x2 x3 x4)
    with gone(1) assms(3) show ?thesis by (auto simp: finish_def split: outcome.splits intro: dm_sent_kept)
  next
    case (AttachmentsTask x)
    with gone(3) assms(3) show ?thesis by (auto simp: finish_def split: outcome.splits intro: attachments_done_kept)
  qed (use gone(4) assms(3) in \<open>auto simp: finish_def split: outcome.splits intro: kept\<close>)
qed

lemma end_task_kept [kept]: "ui_ok u \<Longrightarrow> ui_ok (end_task N e now_ms n out u)"
  unfolding end_task_def using finish_kept [of u n N e now_ms out] by (auto simp: without_task_def split: option.splits)

lemma step_kept: "ui_ok u \<Longrightarrow> ui_ok (ui_step N e open_it now_ms ev u)"
  unfolding ui_step_def by (auto split: ui_event.split intro!: kept)

lemma new_window_ok: "ui_ok (new_window N seed st)"
  by (simp add: ui_ok_def running_def new_window_def view_ok_def view_init_def refs_ok_def)

section \<open>Properties\<close>

text \<open>
  C15: whatever the user does, whatever the daemon reports and however the background tasks end, in
  any order, the window that started on a store stays well formed: every listed conversation
  is one object under its own name, the selected conversation is a listed one, what waits for
  acknowledgements refers to existing records, running tasks refer to existing conversations, and
  the busy flags are exact: at most one message is being sent, at most one history is
  being loaded and at most one catch-up runs, each only while its flag is set.
\<close>

theorem window_ok:
  assumes "ui_runs N e open_it (new_window N seed st) u"
  shows "view_ok (u_view u) \<and>
    list_all (\<lambda>t. pred_option (\<lambda>i. i < length (v_objs (u_view u))) (task_ref t)) (u_tasks u) \<and>
    running is_send u = of_bool (v_sending (u_view u)) \<and> running is_history u = of_bool (v_history_busy (u_view u)) \<and>
    running is_catchup u \<le> of_bool (v_catchup_busy (u_view u))"
proof -
  from assms have "ui_ok u"
    by (induction "new_window N seed st" u rule: ui_runs.induct) (simp_all add: new_window_ok step_kept)
  then show ?thesis by (simp add: ui_ok_def)
qed

theorem window_ok_witness:
  "ui_runs plain_nacl (home_env ''/h'') (\<lambda>_. Ok []) (new_window plain_nacl [] empty_store)
     (ui_step plain_nacl (home_env ''/h'') (\<lambda>_. Ok []) 0 Catchup_Unread (new_window plain_nacl [] empty_store)) \<and>
   running is_catchup (ui_step plain_nacl (home_env ''/h'') (\<lambda>_. Ok []) 0 Catchup_Unread (new_window plain_nacl [] empty_store)) \<le> 1"
proof -
  let ?u = "ui_step plain_nacl (home_env ''/h'') (\<lambda>_. Ok []) 0 Catchup_Unread (new_window plain_nacl [] empty_store)"
  have runs: "ui_runs plain_nacl (home_env ''/h'') (\<lambda>_. Ok []) (new_window plain_nacl [] empty_store) ?u"
    by (intro runs_step runs_refl)
  have "running is_catchup ?u \<le> of_bool (v_catchup_busy (u_view ?u))" using window_ok [OF runs] by blast
  also have "\<dots> \<le> 1" by simp
  finally show ?thesis using runs by simp
qed

end
