(* ===== verification/Cli.thy ===== *)
theory Cli
  imports Chat Supervisor Logging
begin

text \<open>
  \<open>client/aimless/cli.py\<close>: the commands of the \<open>aimless\<close> program. A command runs on the state of
  its process: the machine (files and processes), the content of the store's database, the daemon,
  the passphrase that was asked for, the lines the user has still to type and what was
  printed. \<open>sys.exit\<close> is the exception \<open>SystemExit\<close>, which no command catches.

  The daemon is a function from requests to answers on a state of its own; making the connection
  may raise. The arguments are parsed already. What the user types during a chat
  is a list of lines, each with the time and with the events that arrive before the next pause of
  the daemon; a clock time is printed by a function of the time in milliseconds. The log lines of
  the tunnel are left out, closing the store or the connection has no effect. A contacts
  file that is no object raises, whichever exception Python chooses.
\<close>

section \<open>State\<close>

record 'w cli =
  k_host :: host
  k_db :: store
  k_world :: 'w
  k_pass :: "string option"
  k_input :: "string list"
  k_out :: "string list"
  k_err :: "string list"

text \<open>What a process finds in its surroundings: PyNaCl, the environment, the daemon, random bytes, the clock.\<close>

datatype gtk = Gtk_Loads | Gtk_ImportError string | Gtk_ValueError string

record 'w ctx =
  x_nacl :: nacl
  x_env :: pyenv
  x_req :: "'w request_fn"
  x_connect :: "string \<Rightarrow> ('w, unit) act"
  x_restart :: restart_env
  x_probe :: "json res"
  x_salt :: bytes
  x_seed :: bytes
  x_clock :: "int \<Rightarrow> string"
  x_now :: int
  x_gtk :: gtk
  x_run_app :: "bool \<Rightarrow> int"

abbreviation k_fs :: "'w cli \<Rightarrow> fs" where
  "k_fs k \<equiv> hfs (k_host k)"

definition set_fs :: "fs \<Rightarrow> 'w cli \<Rightarrow> 'w cli" where
  "set_fs f k = k\<lparr>k_host := (k_host k)\<lparr>hfs := f\<rparr>\<rparr>"

definition say :: "string \<Rightarrow> ('w cli, unit) act" where
  "say line k = (Ok (), k\<lparr>k_out := k_out k @ [line]\<rparr>)"

definition say_err :: "string \<Rightarrow> ('w cli, unit) act" where
  "say_err line k = (Ok (), k\<lparr>k_err := k_err k @ [line]\<rparr>)"

text \<open>An error message and \<open>sys.exit(1)\<close>.\<close>

definition die :: "string \<Rightarrow> ('w cli, 'a) act" where
  "die line = bind_act (say_err line) (\<lambda>_. lift_res (Err (SystemExit 1)))"

definition from_files :: "(fs \<Rightarrow> 'a res) \<Rightarrow> ('w cli, 'a) act" where
  "from_files f k = (f (k_fs k), k)"

definition do_files :: "(fs \<Rightarrow> fs) \<Rightarrow> ('w cli, unit) act" where
  "do_files f k = (Ok (), set_fs (f (k_fs k)) k)"

definition input_line :: "('w cli, string) act" where
  "input_line k = (case k_input k of [] \<Rightarrow> (Err (EOFError ''EOF when reading a line''), k) | l # ls \<Rightarrow> (Ok l, k\<lparr>k_input := ls\<rparr>))"

text \<open>Requests through the connection of this process.\<close>

definition cli_req :: "'w ctx \<Rightarrow> 'w cli request_fn" where
  "cli_req X op args k = (case x_req X op args (k_world k) of (r, w) \<Rightarrow> (r, k\<lparr>k_world := w\<rparr>))"

definition in_cli :: "('w cli, 'a) act \<Rightarrow> (client \<times> 'w cli, 'a) act" where
  "in_cli m = (\<lambda>(c, k). case m k of (r, k1) \<Rightarrow> (r, (c, k1)))"

definition with_client :: "client \<Rightarrow> (client \<times> 'w cli, 'a) act \<Rightarrow> ('w cli, 'a) act" where
  "with_client c m k = (case m (c, k) of (r, (_, k1)) \<Rightarrow> (r, k1))"

section \<open>Passphrase and identity\<close>

definition socket_path :: "'w ctx \<Rightarrow> ('w cli, string) act" where
  "socket_path X = from_files (client_socket (x_env X))"

definition prompt_passphrase :: "bool \<Rightarrow> ('w cli, string) act" where
  "prompt_passphrase confirm =
     bind_act input_line (\<lambda>pw.
       if pw = [] then die ''passphrase must not be empty''
       else if confirm
       then bind_act input_line (\<lambda>pw2. if pw \<noteq> pw2 then die ''passphrases do not match'' else ret_act pw)
       else ret_act pw)"

definition get_passphrase :: "bool \<Rightarrow> ('w cli, string) act" where
  "get_passphrase confirm k =
     (case k_pass k of
        Some pw \<Rightarrow> (Ok pw, k)
      | None \<Rightarrow> bind_act (prompt_passphrase confirm) (\<lambda>pw k1. (Ok pw, k1\<lparr>k_pass := Some pw\<rparr>)) k)"

definition load_or_exit :: "'w ctx \<Rightarrow> ('w cli, bytes) act" where
  "load_or_exit X k =
     (if \<not> os_exists (identity_path (x_env X)) (k_fs k) then die ''no identity found - run: aimless init'' k
      else bind_act (get_passphrase False) (\<lambda>pw. from_files (load_identity (x_nacl X) (identity_path (x_env X)) pw)) k)"

definition contacts_of :: "'w ctx \<Rightarrow> ('w cli, (string, json) dict) act" where
  "contacts_of X = from_files (\<lambda>f. bind_res (load_contacts (contacts_path (x_env X)) f) json_dict)"

definition get_client :: "'w ctx \<Rightarrow> ('w cli, client) act" where
  "get_client X =
     bind_act (load_or_exit X) (\<lambda>seed. bind_act (contacts_of X) (\<lambda>contacts.
     bind_act (lift_res (self_screen_of contacts)) (\<lambda>screen. ret_act (client_init (x_nacl X) seed screen))))"

definition passphrase_for_cache :: "'w ctx \<Rightarrow> ('w cli, string) act" where
  "passphrase_for_cache X k =
     (if \<not> os_exists (identity_path (x_env X)) (k_fs k) then die ''no identity found - run: aimless init'' k
      else get_passphrase False k)"

text \<open>\<open>Store(cache_path(), _passphrase_for_cache())\<close>\<close>

definition open_cache :: "'w ctx \<Rightarrow> ('w cli, unit) act" where
  "open_cache X =
     bind_act (passphrase_for_cache X) (\<lambda>pw k.
       case open_store (x_nacl X) pw (x_salt X) (k_db k) of
         Err ex \<Rightarrow> (Err ex, k)
       | Ok st \<Rightarrow> (Ok (), k\<lparr>k_db := st\<rparr>))"

section \<open>Reaching the daemon\<close>

definition ensure_tunnel :: "'w ctx \<Rightarrow> ('w cli, unit) act" where
  "ensure_tunnel X =
     bind_act (from_files (remote_config (x_env X))) (\<lambda>r k.
       case r of
         None \<Rightarrow> (Ok (), k)
       | Some rem \<Rightarrow>
           let t = tunnel_init rem; running = is_running (x_env X) t (k_host k);
               (alive, t1) = (if running then probe (x_probe X) (x_now X) t else (False, t))
           in if running \<and> alive then (Ok (), k)
              else
                (case ensure (x_env X) (x_restart X) t1 (k_host k) of
                   (Err ex, _, h) \<Rightarrow> (Err ex, k\<lparr>k_host := h\<rparr>)
                 | (Ok True, _, h) \<Rightarrow> (Ok (), k\<lparr>k_host := h\<rparr>)
                 | (Ok False, _, h) \<Rightarrow> die (''cannot start the SSH tunnel to '' @ r_host rem) (k\<lparr>k_host := h\<rparr>)))"

text \<open>\<open>DaemonClient(path)\<close>\<close>

definition connect_to :: "'w ctx \<Rightarrow> string \<Rightarrow> ('w cli, unit) act" where
  "connect_to X path k = (case x_connect X path (k_world k) of (r, w) \<Rightarrow> (r, k\<lparr>k_world := w\<rparr>))"

definition catch :: "(exn \<Rightarrow> bool) \<Rightarrow> ('s, 'a) act \<Rightarrow> (exn \<Rightarrow> ('s, 'a) act) \<Rightarrow> ('s, 'a) act" where
  "catch caught m handler s =
     (case m s of (Ok x, s1) \<Rightarrow> (Ok x, s1) | (Err ex, s1) \<Rightarrow> if caught ex then handler ex s1 else (Err ex, s1))"

definition connect_daemon :: "'w ctx \<Rightarrow> ('w cli, unit) act" where
  "connect_daemon X =
     bind_act (ensure_tunnel X) (\<lambda>_. bind_act (socket_path X) (\<lambda>path.
       catch is_OSError (connect_to X path) (\<lambda>ex. die (''cannot reach daemon at '' @ path @ '': '' @ exn_str ex))))"

section \<open>Identity and contacts\<close>

text \<open>\<open>except (OSError, DaemonError, KeyError, IndexError)\<close>\<close>

fun is_IndexError :: "exn \<Rightarrow> bool" where
  "is_IndexError (IndexError _) = True"
| "is_IndexError _ = False"

definition no_daemon :: "exn \<Rightarrow> bool" where
  "no_daemon ex \<longleftrightarrow> is_OSError ex \<or> is_DaemonError ex \<or> is_KeyError ex \<or> is_IndexError ex"

text \<open>\<open>daemon.request("whoami")["key"]\<close> put into an invite; a key that is no text raises.\<close>

definition whoami_key :: "'w ctx \<Rightarrow> ('w cli, json) act" where
  "whoami_key X = bind_act (cli_req X ''whoami'' []) (\<lambda>who. lift_res (json_item who ''key''))"

definition invite_of :: "'w ctx \<Rightarrow> bytes \<Rightarrow> json \<Rightarrow> string \<Rightarrow> string res" where
  "invite_of X seed key screen =
     (case key of JStr node_hex \<Rightarrow> make_invite (x_nacl X) seed node_hex screen
      | _ \<Rightarrow> Err (TypeError ''fromhex() argument must be str''))"

definition cmd_init :: "'w ctx \<Rightarrow> ('w cli, unit) act" where
  "cmd_init X k =
     (let e = x_env X; path = identity_path e; N = x_nacl X
      in if os_exists path (k_fs k) then die (''identity already exists at '' @ path) k
         else
           bind_act (prompt_passphrase True) (\<lambda>pw.
           bind_act (lift_res (new_identity (x_seed X))) (\<lambda>seed.
           bind_act (do_files (save_identity N path seed pw (x_salt X) 0)) (\<lambda>_.
           bind_act input_line (\<lambda>typed.
           bind_act (contacts_of X) (\<lambda>contacts.
             let screen = (if py_strip typed = [] then ''anonymous'' else py_strip typed);
                 pubkey = bytes_hex (n_verify_key N seed)
             in bind_act (do_files (save_contacts (contacts_path e)
                    (dict_set ''_self'' (JObj [(''screen'', JStr screen), (''pubkey'', JStr pubkey)]) contacts))) (\<lambda>_.
                bind_act (say ''identity created'') (\<lambda>_.
                bind_act (say (''  pubkey: '' @ pubkey)) (\<lambda>_.
                  catch no_daemon
                    (bind_act (socket_path X) (\<lambda>sock. bind_act (connect_to X sock) (\<lambda>_.
                     bind_act (whoami_key X) (\<lambda>key. bind_act (lift_res (invite_of X seed key screen)) (\<lambda>inv.
                       say (''  invite: '' @ inv))))))
                    (\<lambda>_. say ''  (start aimlessd, then run `aimless invite` to get your full invite string)'')))))))))  k)"

definition cmd_invite :: "'w ctx \<Rightarrow> ('w cli, unit) act" where
  "cmd_invite X =
     bind_act (load_or_exit X) (\<lambda>seed.
     bind_act (contacts_of X) (\<lambda>contacts.
     bind_act (lift_res (self_screen_of contacts)) (\<lambda>screen.
     bind_act (catch (\<lambda>ex. is_DaemonError ex \<or> is_KeyError ex \<or> is_IndexError ex)
         (bind_act (connect_daemon X) (\<lambda>_. whoami_key X))
         (\<lambda>_. bind_act (say_err ''warning: daemon unreachable - invite will lack routing key'') (\<lambda>_.
              die ''hint: start aimlessd, then re-run aimless invite''))) (\<lambda>key.
     bind_act (lift_res (invite_of X seed key screen)) say))))"

text \<open>The own public key, from the contacts or from the identity file, which then goes into the contacts.\<close>

definition self_entry :: "(string, json) dict \<Rightarrow> json" where
  "self_entry contacts = (case dict_get contacts ''_self'' of Some v \<Rightarrow> v | None \<Rightarrow> JObj [])"

definition self_pubkey :: "'w ctx \<Rightarrow> (string, json) dict \<Rightarrow> ('w cli, json option \<times> (string, json) dict) act" where
  "self_pubkey X contacts =
     bind_act (lift_res (json_get (self_entry contacts) ''pubkey'')) (\<lambda>self_pk k.
       let e = x_env X; known = (case self_pk of Some v \<Rightarrow> json_truthy v | None \<Rightarrow> False)
       in if known \<or> \<not> os_exists (identity_path e) (k_fs k) then (Ok (self_pk, contacts), k)
          else
            bind_act (get_passphrase False) (\<lambda>pw.
            bind_act (from_files (load_identity (x_nacl X) (identity_path e) pw)) (\<lambda>seed.
            bind_act (lift_res (json_dict (self_entry contacts))) (\<lambda>self.
              let pk = JStr (bytes_hex (n_verify_key (x_nacl X) seed));
                  contacts1 = dict_set ''_self'' (JObj (dict_set ''pubkey'' pk self)) contacts
              in bind_act (do_files (save_contacts (contacts_path e) contacts1)) (\<lambda>_. ret_act (Some pk, contacts1))))) k)"

definition cmd_add :: "'w ctx \<Rightarrow> string \<Rightarrow> string option \<Rightarrow> ('w cli, unit) act" where
  "cmd_add X invite petname_arg =
     bind_act (catch is_ValueError (lift_res (parse_invite invite)) (\<lambda>ex. die (''error: '' @ exn_str ex))) (\<lambda>(client_hex, node_hex, screen).
     bind_act (contacts_of X) (\<lambda>contacts0.
     bind_act (self_pubkey X contacts0) (\<lambda>(self_pk, contacts).
       let path = contacts_path (x_env X);
           petname = (case petname_arg of Some p \<Rightarrow> if p \<noteq> [] then p else screen | None \<Rightarrow> screen)
       in if self_pk = Some (JStr client_hex) \<and> client_hex \<noteq> []
          then die ''that's your own invite - send it to a friend, not to yourself''
          else
            bind_act (lift_res (known_contact client_hex (filter (\<lambda>(k, _). k \<noteq> ''_self'') contacts))) (\<lambda>known.
              case known of
                Some (k, c) \<Rightarrow>
                  bind_act (lift_res (json_get c ''node'')) (\<lambda>n.
                    bind_act
                      (if n \<noteq> Some (JStr node_hex)
                       then bind_act (lift_res (set_node k node_hex contacts)) (\<lambda>contacts1.
                            bind_act (do_files (save_contacts path contacts1)) (\<lambda>_.
                              say (''updated routing key for '' @ petname)))
                       else say ''contact already known'')
                      (\<lambda>_. lift_res (Err (SystemExit 0))))
              | None \<Rightarrow>
                  bind_act (do_files (save_contacts path
                      (dict_set petname (JObj [(''pubkey'', JStr client_hex), (''node'', JStr node_hex), (''screen'', JStr screen)])
                        contacts))) (\<lambda>_.
                    say (''added '' @ screen @ '' as '' @ petname))))))"

definition cmd_remove :: "'w ctx \<Rightarrow> string \<Rightarrow> ('w cli, unit) act" where
  "cmd_remove X petname =
     bind_act (contacts_of X) (\<lambda>contacts.
       if dict_get contacts petname = None then die (''unknown contact: '' @ petname)
       else bind_act (do_files (save_contacts (contacts_path (x_env X)) (dict_del petname contacts))) (\<lambda>_.
              say (''removed '' @ petname)))"

definition resolve_buddy :: "'w ctx \<Rightarrow> string \<Rightarrow> ('w cli, json) act" where
  "resolve_buddy X name =
     bind_act (contacts_of X) (\<lambda>contacts.
       case dict_get contacts name of
         None \<Rightarrow> die (''unknown contact: '' @ name @ '' - add them first'')
       | Some info \<Rightarrow> ret_act info)"

section \<open>Buddies and messages\<close>

text \<open>\<open>f"{s:<n}"\<close>, counted in characters.\<close>

definition pad :: "nat \<Rightarrow> string \<Rightarrow> string" where
  "pad n s = s @ replicate (n - length (utf8_cps s)) CHR '' ''"

text \<open>The away message and the screen name of a buddy's status, when it has one that opens.\<close>

definition status_shown :: "nacl \<Rightarrow> client \<Rightarrow> (string, json) dict \<Rightarrow> json \<Rightarrow> (json \<times> string) res" where
  "status_shown N c p screen =
     (if \<not> truthy_field p ''status_payload'' then Ok (screen, [])
      else
        case bind_res (json_item (JObj p) ''status_payload'') (\<lambda>v. bind_res (dict_key v) (decrypt_status N c)) of
          Err ex \<Rightarrow> if is_ValueError ex \<or> is_KeyError ex then Ok (screen, []) else Err ex
        | Ok st \<Rightarrow>
            Ok (if truthy_field st ''screen'' then the (dict_get st ''screen'') else screen,
                if truthy_field st ''away'' then '' | away: '' @ py_str (the (dict_get st ''away'')) else []))"

definition list_line ::
  "nacl \<Rightarrow> client \<Rightarrow> (string, (string, json) dict) dict \<Rightarrow> string \<times> json \<Rightarrow> string res" where
  "list_line N c pres = (\<lambda>(petname, info).
     bind_res (bind_res (json_item info ''node'') hashable) (\<lambda>node.
     bind_res (get_default info ''screen'' (JStr ''?'')) (\<lambda>screen0.
       let p = (case node of JStr n \<Rightarrow> (case dict_get pres n of Some d \<Rightarrow> d | None \<Rightarrow> []) | _ \<Rightarrow> []);
           state = (if truthy_field p ''online'' then ''online'' else ''offline'')
       in bind_res (status_shown N c p screen0) (\<lambda>(screen, away).
            Ok (''  '' @ pad 16 petname @ '' '' @ pad 8 state @ '' '' @ py_str screen @ away)))))"

fun list_lines ::
  "nacl \<Rightarrow> client \<Rightarrow> (string, (string, json) dict) dict \<Rightarrow> (string, json) dict \<Rightarrow> ('w cli, unit) act" where
  "list_lines N c pres [] = ret_act ()"
| "list_lines N c pres (x # xs) =
     bind_act (lift_res (list_line N c pres x)) (\<lambda>line. bind_act (say line) (\<lambda>_. list_lines N c pres xs))"

definition cmd_list :: "'w ctx \<Rightarrow> ('w cli, unit) act" where
  "cmd_list X =
     bind_act (contacts_of X) (\<lambda>contacts.
     bind_act (connect_daemon X) (\<lambda>_.
     bind_act (get_client X) (\<lambda>c.
     bind_act (with_client c (presence (cli_req X))) (\<lambda>answer.
     bind_act (lift_res (presence_by_key answer)) (\<lambda>pres.
     bind_act (say (''screen name: '' @ screen_name c)) (\<lambda>_.
       list_lines (x_nacl X) c pres (sort_key fst (filter (\<lambda>(k, _). k \<noteq> ''_self'') contacts))))))))"

text \<open>Sending a text to a buddy and keeping it with the sequence number of the answer.\<close>

definition store_sent :: "'w ctx \<Rightarrow> string \<Rightarrow> json \<Rightarrow> int \<Rightarrow> string \<Rightarrow> ('w cli, unit) act" where
  "store_sent X node resp ts body =
     bind_act (lift_res (bind_res (get_default resp ''seq'' (JInt 0)) json_int)) (\<lambda>seq k.
       (Ok (), k\<lparr>k_db := snd (add_sent (x_nacl X) node [(node, seq)] ts (Some body) None None (k_db k))\<rparr>))"

definition cmd_send :: "'w ctx \<Rightarrow> string \<Rightarrow> string \<Rightarrow> ('w cli, unit) act" where
  "cmd_send X petname body =
     bind_act (resolve_buddy X petname) (\<lambda>buddy.
     bind_act (connect_daemon X) (\<lambda>_.
     bind_act (get_client X) (\<lambda>c.
     bind_act (open_cache X) (\<lambda>_.
     bind_act (with_client c (dm_worker (x_nacl X) (cli_req X) buddy body (x_now X))) (\<lambda>resp.
     bind_act (lift_res (bind_res (json_item buddy ''node'') dict_key)) (\<lambda>node.
     bind_act (store_sent X node resp (x_now X) body) (\<lambda>_.
     bind_act (lift_res (get_default resp ''seq'' JNull)) (\<lambda>seq.
       say (''queued (seq '' @ py_str seq @ '')'')))))))))"

fun blocked_lines :: "nacl \<Rightarrow> string list \<Rightarrow> ('w cli, unit) act" where
  "blocked_lines N [] = ret_act ()"
| "blocked_lines N (node # nodes) = (\<lambda>k.
     bind_act (lift_res (blocked_screen N (k_db k) node)) (\<lambda>screen.
     bind_act (say (node @ '' '' @ [CHR 0xC2, CHR 0xB7] @ '' '' @
         (case screen of Some s \<Rightarrow> if s \<noteq> [] then s else ''?'' | None \<Rightarrow> ''?''))) (\<lambda>_.
       blocked_lines N nodes)) k)"

definition cmd_blocked :: "'w ctx \<Rightarrow> ('w cli, unit) act" where
  "cmd_blocked X =
     bind_act (open_cache X) (\<lambda>_.
     bind_act (connect_daemon X) (\<lambda>_.
     bind_act (catch is_DaemonError (bind_act (get_client X) (\<lambda>c. with_client c (blocklist (cli_req X))))
         (\<lambda>ex. die (''blocklist unavailable: '' @ exn_str ex))) (\<lambda>nodes.
       if \<not> json_truthy nodes then say ''nothing blocked''
       else bind_act (lift_res (bind_res (json_iter nodes) (traverse_res dict_key))) (\<lambda>ns.
              blocked_lines (x_nacl X) (sort ns)))))"

definition first16 :: "string \<Rightarrow> string" where
  "first16 s = concat (map utf8_cp (take 16 (utf8_cps s)))"

definition cmd_unblock :: "'w ctx \<Rightarrow> string \<Rightarrow> ('w cli, unit) act" where
  "cmd_unblock X node =
     bind_act (open_cache X) (\<lambda>_.
     bind_act (\<lambda>k. (Ok (), k\<lparr>k_db := clear_blocked_screen node (unmute node (k_db k))\<rparr>)) (\<lambda>_.
     bind_act (say (''cleared local suppression for '' @ first16 node @ [CHR 0xE2, CHR 0x80, CHR 0xA6])) (\<lambda>_.
     bind_act (catch is_OSError
         (bind_act (ensure_tunnel X) (\<lambda>_. bind_act (socket_path X) (\<lambda>path.
          bind_act (connect_to X path) (\<lambda>_. ret_act True))))
         (\<lambda>ex. bind_act (say_err (''daemon not reachable ('' @ exn_str ex @
            '') - the client mute is cleared; start the app to fully apply'')) (\<lambda>_. ret_act False))) (\<lambda>connected.
       if \<not> connected then ret_act ()
       else
         catch is_DaemonError
           (bind_act (get_client X) (\<lambda>c. bind_act (with_client c (unblock (cli_req X) node)) (\<lambda>_.
              say ''daemon block removed'')))
           (\<lambda>ex. say_err (''daemon unblock failed: '' @ exn_str ex @ '' - client mute cleared''))))))"

definition status_to :: "'w ctx \<Rightarrow> json \<Rightarrow> json \<Rightarrow> (client \<times> 'w cli, json) act" where
  "status_to X info away =
     bind_act (lift_res (bind_res (json_item info ''pubkey'') dict_key)) (\<lambda>pubkey.
     bind_act (lift_res (bind_res (json_item info ''node'') dict_key)) (\<lambda>node.
       set_status (x_nacl X) (cli_req X) pubkey node away (x_now X)))"

fun away_all :: "'w ctx \<Rightarrow> json \<Rightarrow> (string, json) dict \<Rightarrow> (client \<times> 'w cli, unit) act" where
  "away_all X away [] = ret_act ()"
| "away_all X away ((petname, info) # cs) =
     bind_act (catch is_DaemonError (bind_act (status_to X info away) (\<lambda>_. ret_act ()))
         (\<lambda>ex. in_cli (say_err (''warn: '' @ petname @ '': '' @ exn_str ex)))) (\<lambda>_.
       away_all X away cs)"

definition cmd_away :: "'w ctx \<Rightarrow> string list \<Rightarrow> ('w cli, unit) act" where
  "cmd_away X message =
     bind_act (contacts_of X) (\<lambda>contacts.
       let buddies = filter (\<lambda>(k, _). k \<noteq> ''_self'') contacts;
           away = (if message \<noteq> [] then JStr (py_join '' '' message) else JNull)
       in if buddies = [] then die ''no contacts''
          else
            bind_act (connect_daemon X) (\<lambda>_.
            bind_act (get_client X) (\<lambda>c.
            bind_act (with_client c (away_all X away buddies)) (\<lambda>_.
              say (if json_truthy away then ''away'' else ''back'')))))"

section \<open>Chat\<close>

text \<open>\<open>_handle_event\<close>: a new message of this buddy in their own conversation is printed.\<close>

definition chat_event :: "'w ctx \<Rightarrow> string \<Rightarrow> json \<Rightarrow> (string, json) dict \<Rightarrow> (client \<times> 'w cli, unit) act" where
  "chat_event X buddy_node buddy_screen ev = (\<lambda>(c, k).
     if dict_get ev ''op'' \<noteq> Some (JStr ''recv'') \<or> dict_get ev ''from'' \<noteq> Some (JStr buddy_node) then (Ok (), (c, k))
     else
       case on_event (x_nacl X) (identity c) ev (k_db k) of
         (Err ex, st) \<Rightarrow> (Err ex, (c, k\<lparr>k_db := st\<rparr>))
       | (Ok (conv, new), st) \<Rightarrow>
           let k1 = k\<lparr>k_db := st\<rparr>
           in if \<not> new \<or> conv \<noteq> Some buddy_node then (Ok (), (c, k1))
              else
                (case messages (x_nacl X) st buddy_node of
                   Err ex \<Rightarrow> (Err ex, (c, k1))
                 | Ok ms \<Rightarrow>
                     if ms = [] then (Err (IndexError ''list index out of range''), (c, k1))
                     else
                       in_cli (bind_act (say (CHR 0x0D # ''['' @ x_clock X (v_ts (last ms)) @ ''] '' @ py_str buddy_screen @ '': '' @
                          (case v_text (last ms) of Some t \<Rightarrow> t | None \<Rightarrow> ''None'')))
                         (\<lambda>_. say ''> '')) (c, k1)))"

fun chat_events :: "'w ctx \<Rightarrow> string \<Rightarrow> json \<Rightarrow> (string, json) dict list \<Rightarrow> (client \<times> 'w cli, unit) act" where
  "chat_events X buddy_node buddy_screen [] = ret_act ()"
| "chat_events X buddy_node buddy_screen (ev # evs) =
     bind_act (chat_event X buddy_node buddy_screen ev) (\<lambda>_. chat_events X buddy_node buddy_screen evs)"

definition chat_send ::
  "'w ctx \<Rightarrow> string \<Rightarrow> string \<Rightarrow> json \<Rightarrow> string \<Rightarrow> int \<Rightarrow> (string, json) dict list \<Rightarrow> (client \<times> 'w cli, unit) act" where
  "chat_send X buddy_client buddy_node buddy_screen line ts evs = (\<lambda>(c, k).
     bind_act (send (x_nacl X) (cli_req X) buddy_client buddy_node line ts) (\<lambda>resp.
     bind_act (in_cli (store_sent X buddy_node resp ts line)) (\<lambda>_.
     bind_act (in_cli (say (''['' @ x_clock X ts @ ''] '' @ screen_name c @ '': '' @ line))) (\<lambda>_.
       chat_events X buddy_node buddy_screen evs))) (c, k))"

text \<open>The loop over the lines; the end of the input raises \<open>EOFError\<close>.\<close>

fun chat_loop ::
  "'w ctx \<Rightarrow> string \<Rightarrow> string \<Rightarrow> json \<Rightarrow> (string \<times> int \<times> (string, json) dict list) list \<Rightarrow> (client \<times> 'w cli, unit) act" where
  "chat_loop X buddy_client buddy_node buddy_screen [] = lift_res (Err (EOFError ''EOF when reading a line''))"
| "chat_loop X buddy_client buddy_node buddy_screen ((line, ts, evs) # rest) =
     (if line = [] then chat_loop X buddy_client buddy_node buddy_screen rest
      else if line = ''/quit'' then ret_act ()
      else if prefix ''/away'' line
      then let away = py_strip (drop 5 line)
           in bind_act (set_status (x_nacl X) (cli_req X) buddy_client buddy_node (if away = [] then JNull else JStr away) ts) (\<lambda>_.
              bind_act (in_cli (say (''[you are '' @ (if away = [] then ''back'' else ''away: '' @ away) @ '']''))) (\<lambda>_.
                chat_loop X buddy_client buddy_node buddy_screen rest))
      else if line = ''/back''
      then bind_act (set_status (x_nacl X) (cli_req X) buddy_client buddy_node JNull ts) (\<lambda>_.
           bind_act (in_cli (say ''[you are back]'')) (\<lambda>_. chat_loop X buddy_client buddy_node buddy_screen rest))
      else bind_act (chat_send X buddy_client buddy_node buddy_screen line ts evs) (\<lambda>_.
             chat_loop X buddy_client buddy_node buddy_screen rest))"

text \<open>\<open>(m["ts"], min(m["seqs"].values()))\<close>; a message without sequence numbers raises.\<close>

definition chat_key :: "msg_view \<Rightarrow> (int \<times> int) res" where
  "chat_key m =
     bind_res (json_dict (v_seqs m)) (\<lambda>d. bind_res (traverse_res (\<lambda>(_, v). json_int v) d) (\<lambda>seqs.
       if seqs = [] then Err (ValueError ''min() iterable argument is empty'') else Ok (v_ts m, Min (set seqs))))"

definition chat_line :: "'w ctx \<Rightarrow> client \<Rightarrow> json \<Rightarrow> msg_view \<Rightarrow> string" where
  "chat_line X c buddy_screen m =
     ''['' @ x_clock X (v_ts m) @ ''] '' @ (if v_dir m = Out then screen_name c else py_str buddy_screen) @ '': '' @
       (case v_text m of Some t \<Rightarrow> t | None \<Rightarrow> ''None'')"

fun say_all :: "string list \<Rightarrow> ('w cli, unit) act" where
  "say_all [] = ret_act ()"
| "say_all (l # ls) = bind_act (say l) (\<lambda>_. say_all ls)"

definition chat_history :: "'w ctx \<Rightarrow> client \<Rightarrow> string \<Rightarrow> json \<Rightarrow> ('w cli, unit) act" where
  "chat_history X c buddy_node buddy_screen k =
     bind_act (lift_res (bind_res (messages (x_nacl X) (k_db k) buddy_node) (\<lambda>ms.
       traverse_res (\<lambda>m. bind_res (chat_key m) (\<lambda>key. Ok (key, m))) ms))) (\<lambda>kms.
       say_all (map (\<lambda>(_, m). chat_line X c buddy_screen m) (sort_key fst kms))) k"

definition chat_sync :: "'w ctx \<Rightarrow> string \<Rightarrow> (client \<times> 'w cli, nat) act" where
  "chat_sync X peer = (\<lambda>(c, k).
     case history (cli_req X) peer (cursor (k_db k) peer) (c, k) of
       (r, (c1, k1)) \<Rightarrow>
         (case sync_peer (x_nacl X) (identity c1) (\<lambda>_ _. r) peer (k_db k1) of
            (res, st) \<Rightarrow> (res, (c1, k1\<lparr>k_db := st\<rparr>))))"

definition cmd_chat :: "'w ctx \<Rightarrow> string \<Rightarrow> (string \<times> int \<times> (string, json) dict list) list \<Rightarrow> ('w cli, unit) act" where
  "cmd_chat X petname script =
     bind_act (resolve_buddy X petname) (\<lambda>buddy.
     bind_act (lift_res (bind_res (json_item buddy ''pubkey'') dict_key)) (\<lambda>buddy_client.
     bind_act (lift_res (bind_res (json_item buddy ''node'') dict_key)) (\<lambda>buddy_node.
     bind_act (lift_res (get_default buddy ''screen'' (JStr petname))) (\<lambda>buddy_screen.
     bind_act (connect_daemon X) (\<lambda>_.
     bind_act (get_client X) (\<lambda>c.
     bind_act (open_cache X) (\<lambda>_.
       with_client c
         (bind_act (chat_sync X buddy_node) (\<lambda>_.
          bind_act (add_contact (cli_req X) buddy_node) (\<lambda>_.
          bind_act (catch is_DaemonError
              (bind_act (set_status (x_nacl X) (cli_req X) buddy_client buddy_node JNull (x_now X)) (\<lambda>_. ret_act ()))
              (\<lambda>_. ret_act ())) (\<lambda>_.
          bind_act (in_cli (say (concat (replicate 2 [CHR 0xE2, CHR 0x94, CHR 0x80]) @ '' chat with '' @ py_str buddy_screen @
              '' ('' @ petname @ '') '' @ concat (replicate 2 [CHR 0xE2, CHR 0x94, CHR 0x80]) @ ''  /away <msg> /back /quit''))) (\<lambda>_.
          bind_act (in_cli (chat_history X c buddy_node buddy_screen)) (\<lambda>_.
            chat_loop X buddy_client buddy_node buddy_screen script)))))))))))))"

section \<open>The other commands\<close>

text \<open>The user interface cannot be loaded: the advice, also for the log, and \<open>sys.exit(1)\<close>.\<close>

definition gui_hint :: "string \<Rightarrow> string" where
  "gui_hint e =
     ''GUI unavailable: '' @ e @ [CHR 0x0A] @
     (if sublist ''Namespace'' e then ''the Gtk introspection data is missing: sudo apt install gir1.2-gtk-3.0''
      else ''install the GTK stack: sudo apt install python3-gi gir1.2-gtk-3.0'') @ [CHR 0x0A] @
     ''(also needs a display - check `echo $DISPLAY`; over ssh use ssh -X)''"

definition cmd_gui :: "'w ctx \<Rightarrow> bool \<Rightarrow> string \<Rightarrow> ('w cli, unit) act" where
  "cmd_gui X can_write stamp =
     (let missing = (\<lambda>e. bind_act (say_err (gui_hint e)) (\<lambda>_.
          bind_act (do_files (append_line can_write (app_log_path (x_env X)) stamp (gui_hint e))) (\<lambda>_.
            lift_res (Err (SystemExit 1)))))
      in case x_gtk X of
           Gtk_ImportError e \<Rightarrow> missing e
         | Gtk_ValueError e \<Rightarrow> missing e
         | Gtk_Loads \<Rightarrow> lift_res (Err (SystemExit (x_run_app X True))))"

definition need_gtk :: "'w ctx \<Rightarrow> string \<Rightarrow> ('w cli, unit) act" where
  "need_gtk X packages =
     (case x_gtk X of
        Gtk_Loads \<Rightarrow> ret_act ()
      | Gtk_ImportError e \<Rightarrow> die (''GUI unavailable ('' @ e @ '') - install the GTK stack: '' @ packages)
      | Gtk_ValueError e \<Rightarrow> lift_res (Err (ValueError e)))"

definition cmd_tray :: "'w ctx \<Rightarrow> ('w cli, unit) act" where
  "cmd_tray X = bind_act (need_gtk X ''sudo apt install python3-gi'') (\<lambda>_. lift_res (Err (SystemExit (x_run_app X False))))"

definition cmd_autostart :: "'w ctx \<Rightarrow> invocation \<Rightarrow> ('w cli, unit) act" where
  "cmd_autostart X iv =
     bind_act (need_gtk X ''python3-gi'') (\<lambda>_ k.
       case install_autostart (x_env X) iv (k_fs k) of
         (path, f) \<Rightarrow> say (case path of Some p \<Rightarrow> p | None \<Rightarrow> ''None'') (set_fs f k))"

definition cmd_paths :: "'w ctx \<Rightarrow> ('w cli, unit) act" where
  "cmd_paths X = say_all (map (\<lambda>(key, val). pad 12 key @ '' '' @ val) (all_paths (x_env X)))"

definition cmd_stop :: "'w ctx \<Rightarrow> invocation \<Rightarrow> daemons \<Rightarrow> int list \<Rightarrow> ('w cli, unit) act" where
  "cmd_stop X iv D pids =
     bind_act (need_gtk X ''sudo apt install python3-gi'') (\<lambda>_ k.
       case stop_all (x_env X) iv D pids (k_host k) of
         (Err ex, h) \<Rightarrow> (Err ex, k\<lparr>k_host := h\<rparr>)
       | (Ok stopped, h) \<Rightarrow>
           say (''stopped: '' @ (if stopped \<noteq> [] then py_join '', '' stopped else ''nothing was running'')) (k\<lparr>k_host := h\<rparr>))"

text \<open>\<open>main\<close> after the arguments are parsed; without a command the directories are not made here.\<close>

datatype command =
    No_Command
  | Init
  | Invite
  | Add string "string option"
  | List_Buddies
  | Remove string
  | Blocked
  | Unblock string
  | Send string string
  | Chat_With string "(string \<times> int \<times> (string, json) dict list) list"
  | Away "string list"
  | Gui bool string
  | Tray
  | Autostart invocation
  | Show_Paths
  | Stop invocation daemons "int list"

definition run_command :: "'w ctx \<Rightarrow> command \<Rightarrow> ('w cli, unit) act" where
  "run_command X cmd =
     (case cmd of
        No_Command \<Rightarrow> lift_res (Err (SystemExit (x_run_app X True)))
      | Init \<Rightarrow> cmd_init X
      | Invite \<Rightarrow> cmd_invite X
      | Add invite petname \<Rightarrow> cmd_add X invite petname
      | List_Buddies \<Rightarrow> cmd_list X
      | Remove petname \<Rightarrow> cmd_remove X petname
      | Blocked \<Rightarrow> cmd_blocked X
      | Unblock node \<Rightarrow> cmd_unblock X node
      | Send petname body \<Rightarrow> cmd_send X petname body
      | Chat_With petname script \<Rightarrow> cmd_chat X petname script
      | Away message \<Rightarrow> cmd_away X message
      | Gui can_write stamp \<Rightarrow> cmd_gui X can_write stamp
      | Tray \<Rightarrow> cmd_tray X
      | Autostart iv \<Rightarrow> cmd_autostart X iv
      | Show_Paths \<Rightarrow> cmd_paths X
      | Stop iv D pids \<Rightarrow> cmd_stop X iv D pids)"

definition cli_main :: "'w ctx \<Rightarrow> command \<Rightarrow> ('w cli, unit) act" where
  "cli_main X cmd =
     (if cmd = No_Command then run_command X cmd
      else bind_act (do_files (ensure_dirs (x_env X))) (\<lambda>_. run_command X cmd))"

section \<open>Runs that succeed\<close>

lemma lift_act_step: "lift_res (Ok x) s = (Ok x, s)"
  by (simp add: lift_res_def)

text \<open>The daemon is on this machine and accepts the connection.\<close>

definition daemon_up :: "'w ctx \<Rightarrow> string \<Rightarrow> 'w \<Rightarrow> 'w cli \<Rightarrow> bool" where
  "daemon_up X path w k \<longleftrightarrow> remote_config (x_env X) (k_fs k) = Ok None \<and> client_socket (x_env X) (k_fs k) = Ok path \<and>
     x_connect X path (k_world k) = (Ok (), w)"

text \<open>A new process on a machine with an identity and contacts; the passphrase will be typed once.\<close>

definition logged_out :: "'w ctx \<Rightarrow> string \<Rightarrow> bytes \<Rightarrow> (string, json) dict \<Rightarrow> 'w cli \<Rightarrow> bool" where
  "logged_out X pw seed contacts k \<longleftrightarrow> k_pass k = None \<and> k_input k = [pw] \<and> pw \<noteq> [] \<and>
     os_exists (identity_path (x_env X)) (k_fs k) \<and> load_identity (x_nacl X) (identity_path (x_env X)) pw (k_fs k) = Ok seed \<and>
     load_contacts (contacts_path (x_env X)) (k_fs k) = Ok (JObj contacts)"

lemma connect_daemon_run: "daemon_up X path w k \<Longrightarrow> connect_daemon X k = (Ok (), k\<lparr>k_world := w\<rparr>)"
  by (simp add: daemon_up_def connect_daemon_def ensure_tunnel_def socket_path_def from_files_def bind_act_def catch_def connect_to_def)

lemma contacts_of_run: "load_contacts (contacts_path (x_env X)) (k_fs k) = Ok (JObj contacts) \<Longrightarrow> contacts_of X k = (Ok contacts, k)"
  by (simp add: contacts_of_def from_files_def)

lemma get_client_run:
  assumes "logged_out X pw seed contacts k" "self_screen_of contacts = Ok screen"
  shows "get_client X k = (Ok (client_init (x_nacl X) seed screen), k\<lparr>k_pass := Some pw, k_input := []\<rparr>)"
  using assms
  by (simp add: logged_out_def get_client_def load_or_exit_def get_passphrase_def prompt_passphrase_def input_line_def
      bind_act_def from_files_def contacts_of_def lift_res_def ret_act_def)

lemma open_cache_run:
  assumes "os_exists (identity_path (x_env X)) (k_fs k)" "k_pass k = Some pw" "open_store (x_nacl X) pw (x_salt X) (k_db k) = Ok st"
  shows "open_cache X k = (Ok (), k\<lparr>k_db := st\<rparr>)"
  using assms by (simp add: open_cache_def passphrase_for_cache_def get_passphrase_def bind_act_def)

lemma dm_worker_run:
  assumes "json_item (JObj info) ''pubkey'' = Ok (JStr pk)" "json_item (JObj info) ''node'' = Ok (JStr node)"
    and "seal_message (x_nacl X) (c_draws c) (identity c) pk body ts (Some (screen_name c)) None None = Ok p"
    and "x_req X ''send'' [(''to'', JStr node), (''payload'', JStr p)] (k_world k) = (Ok resp, w)"
  shows "with_client c (dm_worker (x_nacl X) (cli_req X) (JObj info) body ts) k = (Ok resp, k\<lparr>k_world := w\<rparr>)"
  using assms
  by (simp add: with_client_def dm_worker_def bind_act_def lift_res_def send_def seal_for_def ask_def cli_req_def del: json_item.simps)

lemma sent_messages:
  assumes "nacl_ok N" and "store_ok N st" and "valid_str node" "valid_str body" and new: "is_new st (out_id [(node, seq)])"
    and st': "st' = snd (add_sent N conv [(node, seq)] ts (Some body) None ks st)"
  shows "\<exists>ms m. messages N st' conv = Ok ms \<and> m \<in> set ms \<and> v_id m = out_id [(node, seq)] \<and> v_dir m = Out \<and> v_ts m = ts \<and>
    v_text m = Some body"
proof -
  let ?row = "sent_row N conv [(node, seq)] ts (Some body) None st"
  have "store_ok N st'" unfolding st' using assms by (intro add_sent_ok) auto
  then obtain ms where ms: "messages N st' conv = Ok ms" by (rule messages_total)
  have "m_conv ?row = conv" by (simp add: sent_row_def encrypted_row_eq)
  then have mem: "(out_id [(node, seq)], ?row) \<in> set (conv_rows st' conv)"
    using new by (simp add: set_conv_rows st' add_sent_sel insert_or_ignore_def is_new_def)
  from ms have "list_all2 (\<lambda>x y. row_to_msg N st' (delivery_summary st' (map fst (conv_rows st' conv))) x = Ok y) (conv_rows st' conv) ms"
    by (simp add: messages_def Let_def traverse_res_list_all2)
  with mem obtain v where v: "v \<in> set ms"
      "row_to_msg N st' (delivery_summary st' (map fst (conv_rows st' conv))) (out_id [(node, seq)], ?row) = Ok v"
    by (blast dest: list_all2_mem)
  have "length (box_key st) = 32" using assms(2) by (simp add: store_ok_def)
  then have body: "dec N (m_text ?row) st' = Ok (Some body)"
    using assms(1,4) by (simp add: sent_row_def encrypted_row_eq dec_enc st' add_sent_sel)
  have att: "m_attachment ?row = None" by (simp add: sent_row_def encrypted_row_eq attachment_text_def enc_def)
  have "json_loads (m_seqs ?row) = Ok (JObj [(node, JInt seq)])" "m_dir ?row = Out" "m_ts ?row = ts"
    using assms(3) by (simp_all add: sent_row_def encrypted_row_eq json_loads_dumps)
  with v body att have "v_id v = out_id [(node, seq)] \<and> v_dir v = Out \<and> v_ts v = ts \<and> v_text v = Some body"
    by (auto simp: row_to_msg_def)
  with ms v(1) show ?thesis by blast
qed

section \<open>Properties\<close>

lemma cmd_send_run:
  assumes N: "nacl_ok (x_nacl X)" and lens: "length a = 32" "length b = 32"
    and daemon: "daemon_up X path w k" and user: "logged_out X pw a contacts k" "self_screen_of contacts = Ok screen"
    and buddy: "dict_get contacts petname = Some (JObj info)" "json_item (JObj info) ''node'' = Ok (JStr node)"
      "json_item (JObj info) ''pubkey'' = Ok (JStr (bytes_hex (n_verify_key (x_nacl X) b)))"
    and valid: "valid_str node" "valid_str body" "valid_str screen"
    and db: "open_store (x_nacl X) pw (x_salt X) (k_db k) = Ok st" "store_ok (x_nacl X) st" "is_new st (out_id [(node, seq)])"
    and answer: "\<And>p. x_req X ''send'' [(''to'', JStr node), (''payload'', JStr p)] w = (Ok (JObj [(''seq'', JInt seq)]), after p)"
  shows "\<exists>p k' ms m. cmd_send X petname body k = (Ok (), k') \<and> k_world k' = after p \<and>
    open_message (x_nacl X) b p = Ok (opened_message (bytes_hex (n_verify_key (x_nacl X) a)) body (x_now X) (Some screen) None None) \<and>
    messages (x_nacl X) (k_db k') node = Ok ms \<and> m \<in> set ms \<and> v_text m = Some body \<and> v_dir m = Out \<and> v_ts m = x_now X \<and>
    k_out k' = k_out k @ [''queued (seq '' @ int_str seq @ '')'']"
proof -
  let ?N = "x_nacl X" and ?k1 = "k\<lparr>k_world := w\<rparr>" and ?c = "client_init (x_nacl X) a screen"
  have obj: "valid_json (JObj (message_body body (x_now X) (Some screen) None None))" using valid by (intro message_body_valid) auto
  obtain p where p: "seal_message ?N 0 a (bytes_hex (n_verify_key ?N b)) body (x_now X) (Some screen) None None = Ok p"
    "open_message ?N b p = Ok (opened_message (bytes_hex (n_verify_key ?N a)) body (x_now X) (Some screen) None None)"
    using open_seal_message [OF N lens obj] by blast
  let ?k2 = "?k1\<lparr>k_pass := Some pw, k_input := []\<rparr>" and ?st = "snd (add_sent ?N node [(node, seq)] (x_now X) (Some body) None None st)"
  let ?k3 = "?k2\<lparr>k_db := st\<rparr>\<lparr>k_world := after p\<rparr>"
  have load: "load_contacts (contacts_path (x_env X)) (k_fs k) = Ok (JObj contacts)" using user by (simp add: logged_out_def)
  have resolve: "resolve_buddy X petname k = (Ok (JObj info), k)"
    using contacts_of_run [OF load] buddy(1) by (simp add: resolve_buddy_def bind_act_step ret_act_def)
  have "logged_out X pw a contacts ?k1" using user(1) by (simp add: logged_out_def)
  note client = get_client_run [OF this user(2)]
  have cache: "open_cache X ?k2 = (Ok (), ?k2\<lparr>k_db := st\<rparr>)"
    using user(1) db(1) by (intro open_cache_run) (simp_all add: logged_out_def)
  have work: "with_client ?c (dm_worker ?N (cli_req X) (JObj info) body (x_now X)) (?k2\<lparr>k_db := st\<rparr>) = (Ok (JObj [(''seq'', JInt seq)]), ?k3)"
    by (rule dm_worker_run [OF buddy(3,2)]) (use p(1) answer in \<open>simp_all add: client_init_def\<close>)
  have "cmd_send X petname body k = (Ok (), ?k3\<lparr>k_db := ?st, k_out := k_out k @ [''queued (seq '' @ int_str seq @ '')'']\<rparr>)"
    unfolding cmd_send_def bind_act_step [of "resolve_buddy X petname", OF resolve] bind_act_step [of "connect_daemon X", OF connect_daemon_run [OF daemon]]
      bind_act_step [of "get_client X", OF client] bind_act_step [of "open_cache X", OF cache]
      bind_act_step [of "with_client ?c (dm_worker ?N (cli_req X) (JObj info) body (x_now X))", OF work]
    using buddy(2) by (simp add: bind_act_def lift_res_def store_sent_def get_default_def say_def del: json_item.simps)
  moreover obtain ms m where "messages ?N ?st node = Ok ms" "m \<in> set ms" "v_text m = Some body" "v_dir m = Out" "v_ts m = x_now X"
    using sent_messages [OF N db(2) valid(1,2) db(3) refl] by blast
  ultimately show ?thesis using p(2)
    by (intro exI [of _ p] exI [of _ "?k3\<lparr>k_db := ?st, k_out := k_out k @ [''queued (seq '' @ int_str seq @ '')'']\<rparr>"] exI [of _ ms] exI [of _ m]) simp
qed

text \<open>
  \<open>aimless send\<close> asks for the passphrase once and then sends exactly one message: the
  daemon gets one request for the buddy's node, whose payload the buddy opens as this text from this
  user; the message can be read back from the store under the daemon's sequence number, and
  the user is told that number.
\<close>

theorem send_command:
  assumes N: "nacl_ok (x_nacl X)" and lens: "length a = 32" "length b = 32"
    and daemon: "daemon_up X path w k" and user: "logged_out X pw a contacts k" "self_screen_of contacts = Ok screen"
    and buddy: "dict_get contacts petname = Some (JObj info)" "json_item (JObj info) ''node'' = Ok (JStr node)"
      "json_item (JObj info) ''pubkey'' = Ok (JStr (bytes_hex (n_verify_key (x_nacl X) b)))"
    and valid: "valid_str node" "valid_str body" "valid_str screen"
    and db: "open_store (x_nacl X) pw (x_salt X) (k_db k) = Ok st" "store_ok (x_nacl X) st" "is_new st (out_id [(node, seq)])"
    and answer: "\<And>p. x_req X ''send'' [(''to'', JStr node), (''payload'', JStr p)] w = (Ok (JObj [(''seq'', JInt seq)]), after p)"
  shows "\<exists>p k' ms m. cmd_send X petname body k = (Ok (), k') \<and> k_world k' = after p \<and>
    open_message (x_nacl X) b p = Ok (opened_message (bytes_hex (n_verify_key (x_nacl X) a)) body (x_now X) (Some screen) None None) \<and>
    messages (x_nacl X) (k_db k') node = Ok ms \<and> m \<in> set ms \<and> v_text m = Some body \<and> v_dir m = Out \<and> v_ts m = x_now X \<and>
    k_out k' = k_out k @ [''queued (seq '' @ int_str seq @ '')'']"
  by (rule cmd_send_run [OF N lens daemon user buddy valid db answer])

text \<open>A machine of a user with contacts, and a daemon that logs its requests and answers with a number.\<close>

definition demo_ctx :: "(string \<times> (string, json) dict) list ctx" where
  "demo_ctx = \<lparr>x_nacl = plain_nacl, x_env = home_env ''/h'',
     x_req = (\<lambda>op args w. (Ok (JObj [(''seq'', JInt 4)]), w @ [(op, args)])), x_connect = (\<lambda>_ w. (Ok (), w)),
     x_restart = \<lparr>e_pid = None, e_proc = \<lparr>argv = [], zombie = False, dies_on_term = True\<rparr>, e_polls = [],
       e_socket = \<lparr>fmode = 384, fdata = []\<rparr>\<rparr>,
     x_probe = Ok JNull, x_salt = [1], x_seed = [], x_clock = (\<lambda>_. ''12:00''), x_now = 7, x_gtk = Gtk_Loads, x_run_app = (\<lambda>_. 0)\<rparr>"

definition demo_cli :: "(string, json) dict \<Rightarrow> bytes \<Rightarrow> (string \<times> (string, json) dict) list cli" where
  "demo_cli contacts seed =
     \<lparr>k_host = \<lparr>procs = Map.empty, signals = [], hfs = save_contacts (contacts_path (home_env ''/h'')) contacts
        (save_identity plain_nacl (identity_path (home_env ''/h'')) seed ''pw'' [] 0 \<lparr>files = Map.empty, dirs = Map.empty\<rparr>)\<rparr>,
      k_db = empty_store, k_world = [], k_pass = None, k_input = [''pw''], k_out = [], k_err = []\<rparr>"

lemma demo_logged_out:
  assumes "length seed = 32" "valid_json (JObj contacts)"
  shows "logged_out demo_ctx ''pw'' seed contacts (demo_cli contacts seed)"
proof -
  let ?e = "home_env ''/h''"
  let ?base = "save_identity plain_nacl (identity_path ?e) seed ''pw'' [] 0 \<lparr>files = Map.empty, dirs = Map.empty\<rparr>"
  let ?s = "save_contacts (contacts_path ?e) contacts ?base"
  have same: "files ?s (identity_path ?e) = files ?base (identity_path ?e)"
    by (rule save_contacts_other) (use session_paths_differ [where e = ?e] in metis)+
  then have "load_identity plain_nacl (identity_path ?e) ''pw'' ?s = load_identity plain_nacl (identity_path ?e) ''pw'' ?base"
    by (rule load_identity_cong)
  also have load: "\<dots> = Ok seed" by (rule load_save_identity [OF plain_nacl_ok assms(1)])
  finally have "load_identity plain_nacl (identity_path ?e) ''pw'' ?s = Ok seed" .
  moreover have "os_exists (identity_path ?e) ?s"
    using load same by (auto simp: load_identity_def os_exists_def os_read_def split: option.splits)
  moreover have "load_contacts (contacts_path ?e) ?s = Ok (JObj contacts)" by (rule load_save_contacts [OF assms(2)])
  ultimately show ?thesis by (simp add: logged_out_def demo_ctx_def demo_cli_def)
qed

lemma demo_daemon_up: "daemon_up demo_ctx (sock_path (home_env ''/h'')) [] (demo_cli contacts seed)"
proof -
  let ?e = "home_env ''/h''"
  have "prefs_path ?e \<noteq> contacts_path ?e" "prefs_path ?e \<noteq> tmp_path (contacts_path ?e)"
    "prefs_path ?e \<noteq> identity_path ?e" "prefs_path ?e \<noteq> tmp_path (identity_path ?e)"
    by (simp_all add: path_defs root_def env_or_def home_env_def expanduser_def path_join_def tmp_path_def)
  then have "files (k_fs (demo_cli contacts seed)) (prefs_path ?e) = None"
    by (simp add: demo_cli_def save_contacts_other save_identity_other)
  then have none: "remote_config ?e (k_fs (demo_cli contacts seed)) = Ok None"
    by (simp add: remote_config_def os_read_def)
  then show ?thesis by (simp add: daemon_up_def demo_ctx_def client_socket_def home_env_def demo_cli_def)
qed

theorem send_command_witness:
  "\<exists>contacts p k'. cmd_send demo_ctx ''ann'' ''hi'' (demo_cli contacts (replicate 32 1)) = (Ok (), k') \<and>
     k_world k' = [(''send'', [(''to'', JStr ''n1''), (''payload'', JStr p)])] \<and> k_out k' = [''queued (seq 4)'']"
proof -
  define a b :: bytes where ab: "a = replicate 32 1" "b = replicate 32 2"
  have len: "length a = 32" "length b = 32" by (simp_all add: ab)
  let ?info = "[(''node'', JStr ''n1''), (''pubkey'', JStr (bytes_hex (n_verify_key plain_nacl b)))]"
  let ?contacts = "[(''ann'', JObj ?info)]"
  have X: "x_nacl demo_ctx = plain_nacl" "x_salt demo_ctx = [1]" "x_now demo_ctx = 7"
    "x_req demo_ctx = (\<lambda>op args w. (Ok (JObj [(''seq'', JInt 4)]), w @ [(op, args)]))" by (simp_all add: demo_ctx_def)
  have k: "k_db (demo_cli ?contacts a) = empty_store" "k_out (demo_cli ?contacts a) = []" by (simp_all add: demo_cli_def)
  obtain st where st: "store_ok plain_nacl st" "open_store plain_nacl ''pw'' [1] empty_store = Ok st"
    using open_store_ok [OF plain_nacl_ok] by blast
  have new: "is_new st (out_id [(''n1'', 4)])" using st(2) by (auto simp: is_new_def open_store_def salt_def empty_store_def)
  have user: "logged_out demo_ctx ''pw'' a ?contacts (demo_cli ?contacts a)"
    by (rule demo_logged_out [OF len(1)]) (simp add: valid_str_lit)
  have screen: "self_screen_of ?contacts = Ok ''anonymous''" by (simp add: self_screen_of_def get_default_def)
  have "\<exists>p k' ms m. cmd_send demo_ctx ''ann'' ''hi'' (demo_cli ?contacts a) = (Ok (), k') \<and>
      k_world k' = [(''send'', [(''to'', JStr ''n1''), (''payload'', JStr p)])] \<and>
      open_message (x_nacl demo_ctx) b p = Ok (opened_message (bytes_hex (n_verify_key (x_nacl demo_ctx) a)) ''hi'' (x_now demo_ctx) (Some ''anonymous'') None None) \<and>
      messages (x_nacl demo_ctx) (k_db k') ''n1'' = Ok ms \<and> m \<in> set ms \<and> v_text m = Some ''hi'' \<and> v_dir m = Out \<and> v_ts m = x_now demo_ctx \<and>
      k_out k' = k_out (demo_cli ?contacts a) @ [''queued (seq '' @ int_str 4 @ '')'']"
    by (rule send_command [where st = st and info = ?info, OF _ len demo_daemon_up user screen])
       (use new in \<open>simp_all add: X k plain_nacl_ok st valid_str_lit\<close>)
  then obtain p k' where run: "cmd_send demo_ctx ''ann'' ''hi'' (demo_cli ?contacts a) = (Ok (), k')"
      "k_world k' = [(''send'', [(''to'', JStr ''n1''), (''payload'', JStr p)])]"
      "k_out k' = k_out (demo_cli ?contacts a) @ [''queued (seq '' @ int_str 4 @ '')'']" by blast
  have "''queued (seq '' @ int_str 4 @ '')'' = ''queued (seq 4)''" by code_simp
  with run show ?thesis unfolding ab(1) [symmetric] k by (intro exI [of _ ?contacts] exI [of _ p] exI [of _ k']) simp
qed

text \<open>Changing the contacts.\<close>

lemma contacts_of_set_fs:
  "valid_json (JObj contacts) \<Longrightarrow>
   contacts_of X (set_fs (save_contacts (contacts_path (x_env X)) contacts f) k) =
     (Ok contacts, set_fs (save_contacts (contacts_path (x_env X)) contacts f) k)"
  by (rule contacts_of_run) (simp add: set_fs_def load_save_contacts)

lemma contacts_of_out: "contacts_of X (k\<lparr>k_out := out\<rparr>) = (fst (contacts_of X k), (snd (contacts_of X k))\<lparr>k_out := out\<rparr>)"
  by (simp add: contacts_of_def from_files_def)

lemma resolve_result:
  "contacts_of X k = (Ok contacts, k) \<Longrightarrow>
   fst (resolve_buddy X name k) = (case dict_get contacts name of Some info \<Rightarrow> Ok info | None \<Rightarrow> Err (SystemExit 1))"
  by (simp add: resolve_buddy_def bind_act_step ret_act_def die_def say_err_def lift_res_def split: option.split)

text \<open>
  \<open>aimless add\<close> with an invite of a key that is not known yet stores the buddy under the
  given name with exactly the keys and the screen name of the invite, so that the other commands
  find them there, and leaves every other name as it was; whatever was stored under that name,
  another buddy or the own entry, is replaced.
\<close>

theorem add_command:
  assumes invite: "parse_invite raw = Ok (client_hex, node_hex, screen)" "client_hex \<noteq> own"
    and contacts: "load_contacts (contacts_path (x_env X)) (k_fs k) = Ok (JObj contacts)" "valid_json (JObj contacts)"
    and self: "dict_get contacts ''_self'' = Some (JObj self)" "dict_get self ''pubkey'' = Some (JStr own)" "own \<noteq> []"
    and unknown: "known_contact client_hex (filter (\<lambda>(k, _). k \<noteq> ''_self'') contacts) = Ok None"
    and valid: "valid_str client_hex" "valid_str node_hex" "valid_str screen" "valid_str petname" "petname \<noteq> []"
  shows "\<exists>k'. cmd_add X raw (Some petname) k = (Ok (), k') \<and> k_out k' = k_out k @ [''added '' @ screen @ '' as '' @ petname] \<and>
    fst (resolve_buddy X petname k') =
      Ok (JObj [(''pubkey'', JStr client_hex), (''node'', JStr node_hex), (''screen'', JStr screen)]) \<and>
    (name = petname \<or> fst (resolve_buddy X name k') = fst (resolve_buddy X name k))"
proof -
  let ?info = "JObj [(''pubkey'', JStr client_hex), (''node'', JStr node_hex), (''screen'', JStr screen)]"
  let ?contacts = "dict_set petname ?info contacts"
  let ?f = "save_contacts (contacts_path (x_env X)) ?contacts (k_fs k)"
  let ?k = "(set_fs ?f k)\<lparr>k_out := k_out k @ [''added '' @ screen @ '' as '' @ petname]\<rparr>"
  note before = contacts_of_run [OF contacts(1)]
  have known: "self_pubkey X contacts k = (Ok (Some (JStr own), contacts), k)"
    using self by (simp add: self_pubkey_def self_entry_def bind_act_def lift_res_def)
  have "cmd_add X raw (Some petname) k = (Ok (), ?k)"
    using invite before known unknown valid(5)
    by (simp add: cmd_add_def bind_act_def catch_def lift_res_def do_files_def say_def set_fs_def)
  moreover have "valid_json (JObj ?contacts)" using contacts(2) valid by (intro valid_json_set) (simp_all add: valid_str_lit)
  then have "contacts_of X ?k = (Ok ?contacts, ?k)" by (simp only: contacts_of_out contacts_of_set_fs fst_conv snd_conv)
  note after = resolve_result [OF this]
  ultimately show ?thesis using resolve_result [OF before]
    by (intro exI [of _ ?k]) (simp add: after dict_get_set)
qed

theorem add_command_witness:
  "\<exists>k k'. cmd_add demo_ctx (''aimless1:'' @ replicate 64 (CHR ''a'') @ '':'' @ replicate 64 (CHR ''b'') @ '':ann'') (Some ''_self'') k = (Ok (), k') \<and>
     fst (resolve_buddy demo_ctx ''_self'' k) = Ok (JObj [(''pubkey'', JStr ''me'')]) \<and>
     fst (resolve_buddy demo_ctx ''_self'' k') = Ok (JObj [(''pubkey'', JStr (replicate 64 (CHR ''a''))),
       (''node'', JStr (replicate 64 (CHR ''b''))), (''screen'', JStr ''ann'')])"
proof -
  define raw where raw: "raw = ''aimless1:'' @ replicate 64 (CHR ''a'') @ '':'' @ replicate 64 (CHR ''b'') @ '':ann''"
  define pk nk where keys: "pk = replicate 64 (CHR ''a'')" "nk = replicate 64 (CHR ''b'')"
  let ?contacts = "[(''_self'', JObj [(''pubkey'', JStr ''me'')])]"
  let ?k = "demo_cli ?contacts (replicate 32 1)"
  have parse: "parse_invite raw = Ok (pk, nk, ''ann'')" unfolding raw keys by code_simp
  have "length pk = 64" by (simp add: keys)
  then have ne: "pk \<noteq> ''me''" "valid_str pk" "valid_str nk" by auto (simp_all add: keys valid_str_lit ascii_def list_all_iff)
  have "logged_out demo_ctx ''pw'' (replicate 32 1) ?contacts ?k" by (rule demo_logged_out) (simp_all add: valid_str_lit)
  then have load: "load_contacts (contacts_path (x_env demo_ctx)) (k_fs ?k) = Ok (JObj ?contacts)" by (simp add: logged_out_def)
  have "\<exists>k'. cmd_add demo_ctx raw (Some ''_self'') ?k = (Ok (), k') \<and> k_out k' = k_out ?k @ [''added '' @ ''ann'' @ '' as '' @ ''_self''] \<and>
      fst (resolve_buddy demo_ctx ''_self'' k') = Ok (JObj [(''pubkey'', JStr pk), (''node'', JStr nk), (''screen'', JStr ''ann'')]) \<and>
      (''_self'' = ''_self'' \<or> fst (resolve_buddy demo_ctx ''_self'' k') = fst (resolve_buddy demo_ctx ''_self'' ?k))"
    by (rule add_command [where self = "[(''pubkey'', JStr ''me'')]", OF parse ne(1) load]) (simp_all add: ne valid_str_lit)
  then obtain k' where "cmd_add demo_ctx raw (Some ''_self'') ?k = (Ok (), k')"
      "fst (resolve_buddy demo_ctx ''_self'' k') = Ok (JObj [(''pubkey'', JStr pk), (''node'', JStr nk), (''screen'', JStr ''ann'')])" by blast
  moreover have "fst (resolve_buddy demo_ctx ''_self'' ?k) = Ok (JObj [(''pubkey'', JStr ''me'')])"
    by (simp add: resolve_result [OF contacts_of_run [OF load]])
  ultimately show ?thesis unfolding keys [symmetric] unfolding raw [folded keys, symmetric] by blast
qed

lemma ingest_json_known:
  "\<not> is_new st (in_id peer seq) \<Longrightarrow> t_messages (snd (ingest_json N conv_v peer seq ts body st)) = t_messages st"
  by (auto simp: ingest_json_def case_prod_beta Let_def ingest_sel insert_or_ignore_def is_new_def split: res.split option.split)

lemma route_known:
  assumes "\<not> (is_new st (in_id peer seq) \<and> (\<exists>c. route_check peer opened = Ok (c, True)))" "route N peer seq opened st = (Ok r, st1)"
  shows "t_messages st1 = t_messages st"
proof -
  obtain st0 where st0: "route_room N peer opened st = Ok st0" using assms(2) by (auto simp: route_cases split: res.splits)
  from route_room_Ok [OF this] have frame: "t_messages st0 = t_messages st" "room_check peer opened = Ok ()" by simp_all
  obtain ts body where item: "json_item (JObj opened) ''ts'' = Ok ts" "json_item (JObj opened) ''text'' = Ok body"
      "ingest_json N (opened_conv peer opened) peer seq ts body st0 = (Ok r, st1)"
    using assms(2) st0 by (auto simp: route_cases split: res.splits simp del: json_item.simps)
  show ?thesis
  proof (cases "is_new st (in_id peer seq)")
    case False
    with ingest_json_known [of st0 peer seq N "opened_conv peer opened" ts body] item(3) frame show ?thesis by (simp add: is_new_def)
  next
    case True
    with assms(1) frame item(1,2) have "sql_ts ts \<noteq> Ok (Some t)" if "sql_text (opened_conv peer opened) = Ok c" "enc_arg body = Ok b" for t c b
      using that by (auto simp: route_check_def simp del: json_item.simps)
    with item(3) frame(1) show ?thesis
      by (auto simp: ingest_json_def split: res.splits option.splits)
  qed
qed

lemma on_event_replay:
  assumes "on_event N seed ev st = (Ok (conv, new), st1)"
  shows "\<exists>st2. on_event N seed ev st1 = (Ok (conv, False), st2) \<and> t_messages st2 = t_messages st1"
proof -
  consider (skip) "conv = None" "new = False" "st1 = st"
    | (stored) peer opened seq c where "dict_get ev ''from'' = Some (JStr peer)" "peer \<noteq> []" "entry_seq (JObj ev) = Ok seq"
        "bind_res (json_item (JObj ev) ''payload'') (open_message_json N seed) = Ok opened"
        "ingest_opened N peer seq opened st = (Ok (c, new), st1)" "conv = Some c"
    using assms by (auto simp: on_event_def split: option.splits json.splits res.splits if_splits prod.splits simp del: json_item.simps)
  then show ?thesis
  proof cases
    case skip
    with assms show ?thesis by simp
  next
    case stored
    obtain sr where route: "route N peer seq opened st = (Ok (c, new), sr)" and cur: "t_messages st1 = t_messages sr"
      using stored(5) by (auto simp: ingest_opened_def split: prod.splits res.splits)
    have "bind_res (route_check peer opened) (\<lambda>(c, ins). Ok (c, ins \<and> is_new st (in_id peer seq))) = Ok (c, new)"
      using route_result [of N peer seq opened st] route by simp
    then obtain ins where ins: "route_check peer opened = Ok (c, ins)" by (auto elim!: bind_res_Ok)
    have "is_new sr mid \<longleftrightarrow> is_new st mid \<and> \<not> (ins \<and> mid = in_id peer seq)" for mid
      using route_new [of N peer seq opened st mid] route ins by auto
    with cur have gone: "\<not> (is_new st1 (in_id peer seq) \<and> ins)" by (simp add: is_new_def)
    obtain st2 where again: "route N peer seq opened st1 = (Ok (c, False), st2)"
      using route_result [of N peer seq opened st1] ins gone by (cases "route N peer seq opened st1") auto
    have "t_messages st2 = t_messages st1" by (rule route_known [OF _ again]) (use gone ins in auto)
    then show ?thesis using stored(1-4,6) again
      by (auto simp: on_event_def ingest_opened_def simp del: json_item.simps)
  qed
qed

text \<open>
  an event that the chat has handled may come again, from the daemon or from a second
  connection: the second time nothing is printed and no message is added.
\<close>

theorem chat_replay_silent:
  assumes "chat_event X node screen ev (c, k) = (Ok (), (c', k'))"
  shows "\<exists>k''. chat_event X node screen ev (c', k') = (Ok (), (c', k'')) \<and> k_out k'' = k_out k' \<and>
    t_messages (k_db k'') = t_messages (k_db k')"
proof (cases "dict_get ev ''op'' \<noteq> Some (JStr ''recv'') \<or> dict_get ev ''from'' \<noteq> Some (JStr node)")
  case False
  obtain conv new st where on: "on_event (x_nacl X) (identity c) ev (k_db k) = (Ok (conv, new), st)" and k': "c' = c" "k_db k' = st"
    using assms False
    by (auto simp: chat_event_def in_cli_def bind_act_def say_def Let_def split: prod.splits res.splits if_splits)
  obtain st2 where "on_event (x_nacl X) (identity c) ev st = (Ok (conv, False), st2)" "t_messages st2 = t_messages st"
    using on_event_replay [OF on] by blast
  with False k' show ?thesis by (intro exI [of _ "k'\<lparr>k_db := st2\<rparr>"]) (simp add: chat_event_def)
qed (use assms in \<open>auto simp: chat_event_def\<close>)

theorem chat_replay_silent_witness:
  "\<exists>ev c k k' k''. chat_event demo_ctx ''n1'' (JStr ''ann'') ev (c, k) = (Ok (), (c, k')) \<and>
     k_out k' = k_out k @ [CHR 0x0D # ''[12:00] ann: hi'', ''> ''] \<and>
     chat_event demo_ctx ''n1'' (JStr ''ann'') ev (c, k') = (Ok (), (c, k'')) \<and> k_out k'' = k_out k'"
proof -
  define a b :: bytes where ab: "a = replicate 32 1" "b = replicate 32 2"
  have len: "length a = 32" "length b = 32" by (simp_all add: ab)
  obtain p where p: "open_message plain_nacl b p = Ok (opened_message (bytes_hex (n_verify_key plain_nacl a)) ''hi'' 7 None None None)"
    using sealed_hi [OF plain_nacl_ok len] by blast
  obtain st where st: "store_ok plain_nacl st" "open_store plain_nacl ''pw'' [1] empty_store = Ok st"
    using open_store_ok [OF plain_nacl_ok] by blast
  have empty: "t_messages st = []" "cursor st ''n1'' = 0" using st(2) by (auto simp: open_store_def salt_def empty_store_def cursor_def)
  let ?ev = "[(''op'', JStr ''recv''), (''from'', JStr ''n1''), (''payload'', JStr p)]"
  let ?c = "client_init plain_nacl b ''me''" and ?k = "(demo_cli [] a)\<lparr>k_db := st\<rparr>"
  define st1 where st1: "st1 = snd (ingest plain_nacl ''n1'' ''n1'' 0 7 (Some ''hi'') None st)"
  have new: "is_new st (in_id ''n1'' 0)" by (simp add: is_new_def empty)
  have cur: "cursor st1 ''n1'' = 0" using empty(2) by (simp add: st1 cursor_def ingest_sel)
  have ing: "ingest plain_nacl ''n1'' ''n1'' 0 7 (Some ''hi'') None st = (True, st1)"
    using ingest_sel(1) [of plain_nacl "''n1''" "''n1''" 0 7 "Some ''hi''" None st] new by (metis prod.collapse st1)
  have rows: "map fst (conv_rows st1 ''n1'') = [in_id ''n1'' 0]"
    using empty by (simp add: st1 conv_rows_def ingest_sel insert_or_ignore_def ingest_row_def encrypted_row_eq)
  obtain ms m where ms: "messages plain_nacl st1 ''n1'' = Ok ms" "m \<in> set ms" "v_text m = Some ''hi''" "v_ts m = 7"
    using ingest_messages [OF plain_nacl_ok st(1) _ _ _ new st1] by (auto simp: valid_str_lit)
  have "length ms = length (conv_rows st1 ''n1'')"
    using ms(1) by (auto simp: messages_def Let_def traverse_res_list_all2 dest: list_all2_lengthD)
  also have "\<dots> = 1" using arg_cong [OF rows, of length] by simp
  finally have "ms = [m]" using ms(2) by (cases ms) auto
  with ms have last: "messages plain_nacl st1 ''n1'' = Ok [m]" by simp
  have on: "on_event plain_nacl b ?ev st = (Ok (Some ''n1'', True), st1)"
    using p ing cur by (simp add: on_event_def open_message_json_def entry_seq_def ingest_opened_def route_def route_room_def ingest_json_def)
  have X: "x_nacl demo_ctx = plain_nacl" "x_clock demo_ctx 7 = ''12:00''" by (simp_all add: demo_ctx_def)
  obtain k' where k': "chat_event demo_ctx ''n1'' (JStr ''ann'') ?ev (?c, ?k) = (Ok (), (?c, k'))"
      "k_out k' = k_out ?k @ [CHR 0x0D # ''[12:00] ann: hi'', ''> '']"
    using on last ms(3,4) by (simp add: chat_event_def X client_init_def in_cli_def bind_act_def say_def)
  with chat_replay_silent [OF k'(1)] show ?thesis by metis
qed

end
