(* ===== verification/Display.thy ===== *)
theory Display
  imports Chat Supervisor
begin

text \<open>
  What the window of \<open>client/aimless/gtkui.py\<close> shows: the rows of the list of conversations, the
  headers, the transcript of a conversation with its dates, the buddy list, the daemon's state
  and the window's title. Widgets are left out: a label is the text or markup it is given.

  \<open>GLib.markup_escape_text\<close> is the argument \<open>esc\<close>; \<open>markup_free\<close> is what GLib documents of it. The
  colours of the current theme are the argument \<open>pal\<close>. The local date of a time and its printed form depend on the time zone and
  the locale, so they are functions of the time in milliseconds. A name that is not a text
  raises where it is compared or escaped.
\<close>

section \<open>Markup\<close>

abbreviation quoted :: "string \<Rightarrow> string" where
  "quoted s \<equiv> CHR 0x27 # s @ [CHR 0x27]"

definition DOT :: string where "DOT = [CHR 0xE2, CHR 0x97, CHR 0x8F]"
definition RING :: string where "RING = [CHR 0xE2, CHR 0x97, CHR 0x8B]"
definition ELLIPSIS :: string where "ELLIPSIS = [CHR 0xE2, CHR 0x80, CHR 0xA6]"
definition MIDDOT :: string where "MIDDOT = [CHR 0xC2, CHR 0xB7]"

definition span :: "string \<Rightarrow> string \<Rightarrow> string" where
  "span colour body = ''<span foreground='' @ quoted colour @ ''>'' @ body @ ''</span>''"

definition small_span :: "string \<Rightarrow> string \<Rightarrow> string" where
  "small_span colour body = ''<span size='' @ quoted ''small'' @ '' foreground='' @ quoted colour @ ''>'' @ body @ ''</span>''"

definition bold :: "string \<Rightarrow> string" where
  "bold body = ''<b>'' @ body @ ''</b>''"

definition take_cps :: "nat \<Rightarrow> string \<Rightarrow> string" where
  "take_cps n s = concat (map utf8_cp (take n (utf8_cps s)))"

section \<open>Conversations in the list\<close>

definition presence_of :: "thread \<Rightarrow> string \<Rightarrow> bool \<times> json \<times> bool" where
  "presence_of t n = (case dict_get (th_presence t) n of Some p \<Rightarrow> p | None \<Rightarrow> (False, JNull, False))"

definition presence_colour :: "(string \<Rightarrow> string) \<Rightarrow> bool \<Rightarrow> json \<Rightarrow> string" where
  "presence_colour pal online away = (if online then pal ''online'' else if json_truthy away then pal ''away'' else pal ''offline'')"

text \<open>\<open>sorted((m.get("screen") or n[:8], n) for n, m in members.items() if n != exclude)\<close>\<close>

definition member_entries :: "json \<Rightarrow> (string, json) dict \<Rightarrow> (string \<times> string) list res" where
  "member_entries exclude mems =
     bind_res (traverse_res (\<lambda>(n, m). bind_res (json_get m ''screen'') (\<lambda>sc.
         bind_res (dict_key (name_or sc n)) (\<lambda>name. Ok (name, n))))
       (filter (\<lambda>(n, _). JStr n \<noteq> exclude) mems)) (\<lambda>es. Ok (sort es))"

definition room_dots_markup :: "(string \<Rightarrow> string) \<Rightarrow> json \<Rightarrow> thread \<Rightarrow> string res" where
  "room_dots_markup pal self_node t =
     bind_res (member_entries self_node (th_members t)) (\<lambda>es.
       Ok (concat (map (\<lambda>(_, n). case presence_of t n of (on, away, _) \<Rightarrow> span (presence_colour pal on away) DOT) es)))"

definition room_others :: "json \<Rightarrow> thread \<Rightarrow> string list" where
  "room_others self_node t = filter (\<lambda>n. JStr n \<noteq> self_node) (map fst (th_members t))"

definition online_others :: "json \<Rightarrow> thread \<Rightarrow> nat" where
  "online_others self_node t = length (filter (\<lambda>n. fst (presence_of t n)) (room_others self_node t))"

definition sidebar_title_markup :: "(string \<Rightarrow> string) \<Rightarrow> (string \<Rightarrow> string) \<Rightarrow> json \<Rightarrow> thread \<Rightarrow> string res" where
  "sidebar_title_markup pal esc self_node t =
     bind_res (dict_key (th_screen t)) (\<lambda>screen.
       Ok (if th_room t
           then let online = online_others self_node t
                in span (if online > 0 then pal ''online'' else pal ''offline'') DOT @ ''  '' @
                   small_span (pal ''subtitle'') (nat_digits online @ ''/'' @ nat_digits (length (room_others self_node t))) @ ''  '' @
                   bold (esc screen)
           else span (presence_colour pal (th_online t) (th_away t)) DOT @ ''  '' @ bold (esc screen)))"

definition room_header_markup :: "(string \<Rightarrow> string) \<Rightarrow> (string \<Rightarrow> string) \<Rightarrow> json \<Rightarrow> thread \<Rightarrow> string res" where
  "room_header_markup pal esc self_node t =
     bind_res (room_dots_markup pal self_node t) (\<lambda>dots.
     bind_res (dict_key (th_screen t)) (\<lambda>screen.
       Ok (''<big>'' @ bold (esc screen) @ ''</big>  '' @ dots @ ''  '' @
           small_span (pal ''subtitle'')
             (nat_digits (online_others self_node t) @ ''/'' @ nat_digits (length (room_others self_node t)) @ '' online''))))"

definition dm_header_markup :: "(string \<Rightarrow> string) \<Rightarrow> (string \<Rightarrow> string) \<Rightarrow> thread \<Rightarrow> string res" where
  "dm_header_markup pal esc t =
     bind_res (dict_key (th_screen t)) (\<lambda>screen.
       Ok (''<big>'' @ bold (esc screen) @ ''</big>'' @ ''  '' @ small_span (pal ''subtitle'') (take_cps 16 (th_conv t) @ ELLIPSIS)))"

text \<open>The second line of a row, its tooltip, whether it is dimmed, and the badge.\<close>

record row_view =
  rv_title :: string
  rv_subtitle :: json
  rv_tooltip :: json
  rv_dimmed :: bool
  rv_badge :: "string option"

definition update_thread_row :: "(string \<Rightarrow> string) \<Rightarrow> (string \<Rightarrow> string) \<Rightarrow> json \<Rightarrow> store \<Rightarrow> thread \<Rightarrow> row_view res" where
  "update_thread_row pal esc self_node st t =
     bind_res (sidebar_title_markup pal esc self_node t) (\<lambda>title.
       let muted = is_conversation_muted st (th_conv t); away = th_away t
       in Ok \<lparr>rv_title = title,
            rv_subtitle = (if muted then JStr ''muted'' else if json_truthy away then away else th_preview t),
            rv_tooltip = (if \<not> muted \<and> json_truthy away then away else JNull),
            rv_dimmed = muted,
            rv_badge = (if th_unread t > 0 then Some (bold (nat_digits (th_unread t))) else None)\<rparr>)"

text \<open>The buttons of the members above a room.\<close>

record chip =
  ch_node :: string
  ch_label :: string
  ch_known :: bool
  ch_tip :: string

definition member_chips :: "(string \<Rightarrow> string) \<Rightarrow> (string \<Rightarrow> string) \<Rightarrow> pyenv \<Rightarrow> fs \<Rightarrow> json \<Rightarrow> thread \<Rightarrow> chip list res" where
  "member_chips pal esc e f self_node t =
     (if \<not> th_room t then Ok []
      else
        bind_res (bind_res (session_contacts e f) contact_nodes) (\<lambda>nodes.
        bind_res (member_entries self_node (th_members t)) (\<lambda>es.
          Ok (map (\<lambda>(screen, n).
                case presence_of t n of (on, away, off) \<Rightarrow>
                  let known = JStr n \<in> set nodes
                  in \<lparr>ch_node = n,
                      ch_label = span (presence_colour pal on away) (if known then DOT else RING) @ '' '' @ esc screen,
                      ch_known = known,
                      ch_tip = (if known then ''Open conversation - your buddy'' else ''Add as buddy (not your buddy yet)'') @
                        (if off then '' '' @ MIDDOT @ '' client offline (messages will be delivered)'' else [])\<rparr>) es))))"

text \<open>The title of the window counts the unread messages.\<close>

definition all_unread :: "view \<Rightarrow> nat" where
  "all_unread v = sum_list (map (\<lambda>(_, i). th_unread (v_objs v ! i)) (v_threads v))"

definition window_title :: "view \<Rightarrow> string" where
  "window_title v = (if all_unread v > 0 then ''AIMless ('' @ nat_digits (all_unread v) @ '')'' else ''AIMless'')"

definition tray_tooltip :: "view \<Rightarrow> string" where
  "tray_tooltip v =
     (if all_unread v > 0 then ''AIMless - '' @ nat_digits (all_unread v) @ '' unread'' else ''AIMless - running'') @
     [CHR 0x0A] @ ''Left-click to open Messages''"

section \<open>The transcript\<close>

text \<open>\<open>bb_sender\<close> is \<open>null\<close> for no name; the text is shown through \<open>linkify\<close>.\<close>

record bubble =
  bb_id :: string
  bb_out :: bool
  bb_sender :: json
  bb_text :: "string option"
  bb_attachment :: "json option"
  bb_status :: "string option"
  bb_ts :: int
  bb_stamp :: string

datatype row = DateRow int | BubbleRow bubble | FileRow string

definition delivery_label :: "nat \<Rightarrow> nat \<Rightarrow> string" where
  "delivery_label tot acked =
     (if acked \<ge> tot then [CHR 0xE2, CHR 0x9C, CHR 0x93] @ '' delivered''
      else if acked > 0 then [CHR 0xE2, CHR 0x80, CHR 0xA2] @ '' '' @ nat_digits acked @ ''/'' @ nat_digits tot @ '' delivered''
      else [CHR 0xE2, CHR 0x80, CHR 0xA2] @ '' sending'' @ ELLIPSIS)"

definition has_file :: "msg_view \<Rightarrow> bool" where
  "has_file m \<longleftrightarrow> (case v_attachment m of Some a \<Rightarrow> json_truthy a | None \<Rightarrow> False)"

definition bubble_of :: "(int \<Rightarrow> string) \<Rightarrow> thread \<Rightarrow> msg_view \<Rightarrow> bubble res" where
  "bubble_of stamp t m =
     bind_res (if v_dir m = Out then Ok JNull else sender_label t (JStr (v_sender m))) (\<lambda>who.
       Ok \<lparr>bb_id = v_id m, bb_out = (v_dir m = Out), bb_sender = (if json_truthy who then who else JNull),
          bb_text = (if has_file m then None else v_text m), bb_attachment = (if has_file m then v_attachment m else None),
          bb_status = (if v_dir m = Out \<and> \<not> has_file m
            then (case v_delivery m of
                    Some (_, Some tot, acked) \<Rightarrow> if tot \<noteq> 0 then Some (delivery_label tot acked) else None
                  | _ \<Rightarrow> None)
            else None),
          bb_ts = v_ts m, bb_stamp = (if v_ts m = 0 then [] else stamp (v_ts m))\<rparr>)"

definition file_row :: "store \<Rightarrow> msg_view \<Rightarrow> row list" where
  "file_row st m =
     (let tot = fst (delivery_members st (v_id m))
      in if \<not> tracked_file m \<or> tot = 0 then []
         else [FileRow (delivery_text (case v_text m of Some t \<Rightarrow> t | None \<Rightarrow> ''None'') tot (remdups (undelivered st (v_id m))))])"

text \<open>\<open>_maybe_date_divider\<close>: the day and what was the last day shown.\<close>

definition date_divider :: "int option \<Rightarrow> int \<Rightarrow> row list" where
  "date_divider last_day day = (if last_day = Some day then [] else [DateRow day])"

fun transcript ::
  "(int \<Rightarrow> int) \<Rightarrow> (int \<Rightarrow> string) \<Rightarrow> store \<Rightarrow> thread \<Rightarrow> int option \<Rightarrow> msg_view list \<Rightarrow> row list res" where
  "transcript day_of stamp st t last_day [] = Ok []"
| "transcript day_of stamp st t last_day (m # ms) =
     bind_res (bubble_of stamp t m) (\<lambda>b.
     bind_res (transcript day_of stamp st t (Some (day_of (v_ts m))) ms) (\<lambda>rows.
       Ok (date_divider last_day (day_of (v_ts m)) @ [BubbleRow b] @ file_row st m @ rows)))"

definition conversation_rows ::
  "(int \<Rightarrow> int) \<Rightarrow> (int \<Rightarrow> string) \<Rightarrow> nacl \<Rightarrow> store \<Rightarrow> string \<Rightarrow> thread \<Rightarrow> row list res" where
  "conversation_rows day_of stamp N st conv t =
     bind_res (messages N st conv) (transcript day_of stamp st t None)"

text \<open>\<open>date_label\<close>: the day of a message and today, as day numbers; the other labels are printed by the locale.\<close>

definition date_label :: "(int \<Rightarrow> bool) \<Rightarrow> (int \<Rightarrow> string) \<Rightarrow> (int \<Rightarrow> string) \<Rightarrow> int \<Rightarrow> int \<Rightarrow> string" where
  "date_label same_year weekday_label full_label today day =
     (if day = today then ''Today'' else if day = today - 1 then ''Yesterday''
      else if same_year day then weekday_label day else full_label day)"

section \<open>The buddy list\<close>

text \<open>
  \<open>_render_buddy_rows\<close>: a row for every contact and one for every blocked node that is no
  contact. \<open>br_title\<close> is what the title label shows; the row of a contact is titled in markup.
  The blocked nodes are given as a list of texts without regard to its order.
\<close>

datatype buddy_action = RemoveBuddy string | UnblockBuddy string

record buddy_row =
  br_key :: string
  br_title :: string
  br_subtitle :: string
  br_muted :: bool
  br_action :: buddy_action

definition short_node :: "string \<Rightarrow> string" where
  "short_node node = take_cps 20 node @ ELLIPSIS"

definition screen_or :: "json \<Rightarrow> string \<Rightarrow> string res" where
  "screen_or info petname =
     bind_res (json_get info ''screen'') (\<lambda>sc. dict_key (case sc of Some x \<Rightarrow> x | None \<Rightarrow> JStr petname))"

definition contact_row :: "(string \<Rightarrow> string) \<Rightarrow> string list \<Rightarrow> string \<times> json \<Rightarrow> buddy_row res" where
  "contact_row esc blocked = (\<lambda>(petname, info).
     bind_res (screen_or info petname) (\<lambda>screen.
     bind_res (bind_res (json_item info ''node'') dict_key) (\<lambda>node.
       Ok \<lparr>br_key = petname, br_title = bold (esc screen),
          br_subtitle = petname @ '' '' @ MIDDOT @ '' '' @ short_node node,
          br_muted = (node \<in> set blocked),
          br_action = (if node \<in> set blocked then UnblockBuddy node else RemoveBuddy petname)\<rparr>)))"

definition stranger_row :: "nacl \<Rightarrow> store \<Rightarrow> string \<Rightarrow> buddy_row res" where
  "stranger_row N st node =
     bind_res (blocked_screen N st node) (\<lambda>name.
       let known = name \<noteq> None \<and> name \<noteq> Some []
       in Ok \<lparr>br_key = node, br_title = (if known then the name else short_node node),
            br_subtitle = (if known then short_node node else ''blocked''), br_muted = True,
            br_action = UnblockBuddy node\<rparr>)"

definition buddy_rows :: "(string \<Rightarrow> string) \<Rightarrow> nacl \<Rightarrow> store \<Rightarrow> (string, json) dict \<Rightarrow> string list \<Rightarrow> buddy_row list res" where
  "buddy_rows esc N st contacts blocked =
     bind_res (contact_nodes contacts) (\<lambda>nodes.
     bind_res (traverse_res (contact_row esc blocked) (sort_key fst contacts)) (\<lambda>known.
     bind_res (traverse_res (stranger_row N st) (filter (\<lambda>n. JStr n \<notin> set nodes) (sort (remdups blocked)))) (\<lambda>strangers.
       Ok (known @ strangers))))"

text \<open>
  \<open>refresh_presence\<close> of the buddy list: the titles are kept by key, so of two rows with the same
  key the later one is refreshed.
\<close>

definition buddy_title ::
  "(string \<Rightarrow> string) \<Rightarrow> (string \<Rightarrow> string) \<Rightarrow> nacl \<Rightarrow> (json \<Rightarrow> (string, json) dict res) \<Rightarrow> store \<Rightarrow> (string, json) dict \<Rightarrow>
   (string, (string, json) dict) dict \<Rightarrow> string \<Rightarrow> string res" where
  "buddy_title pal esc N open_it st contacts pres key =
     (let info = (case dict_get contacts key of Some i \<Rightarrow> i | None \<Rightarrow> JObj [])
      in bind_res (json_get info ''node'') (\<lambda>node0.
         bind_res (screen_or info key) (\<lambda>label0.
         bind_res (if json_truthy info then Ok (node0, label0)
           else bind_res (blocked_screen N st key) (\<lambda>nm.
                  Ok (Some (JStr key), case nm of Some (c # cs) \<Rightarrow> c # cs | _ \<Rightarrow> label0))) (\<lambda>(node, label).
         bind_res (hashable (case node of Some x \<Rightarrow> x | None \<Rightarrow> JNull)) (\<lambda>k.
           let p = (case k of JStr n \<Rightarrow> (case dict_get pres n of Some p \<Rightarrow> p | None \<Rightarrow> []) | _ \<Rightarrow> []);
               (online, _, client_offline) = presence_state open_it p;
               (colour, state) =
                 (if client_offline then (pal ''away'', ''client offline'')
                  else if online then (pal ''online'', ''online'') else (pal ''muted'', ''offline''))
           in Ok (bold (esc label) @ '' <span foreground='' @ quoted colour @ '' size='' @ quoted ''small'' @ ''>'' @ state @ ''</span>''))))))"

fun refresh_buddies ::
  "(string \<Rightarrow> string res) \<Rightarrow> buddy_row list \<Rightarrow> buddy_row list res" where
  "refresh_buddies title_of [] = Ok []"
| "refresh_buddies title_of (r # rs) =
     bind_res (if br_key r \<in> br_key ` set rs then Ok r
       else bind_res (title_of (br_key r)) (\<lambda>m. Ok (r\<lparr>br_title := m\<rparr>))) (\<lambda>r'.
     bind_res (refresh_buddies title_of rs) (\<lambda>rs'. Ok (r' # rs')))"

definition render_buddy_rows ::
  "(string \<Rightarrow> string) \<Rightarrow> (string \<Rightarrow> string) \<Rightarrow> nacl \<Rightarrow> (json \<Rightarrow> (string, json) dict res) \<Rightarrow> store \<Rightarrow> pyenv \<Rightarrow> fs \<Rightarrow>
   (string, (string, json) dict) dict \<Rightarrow> string list \<Rightarrow> buddy_row list res" where
  "render_buddy_rows pal esc N open_it st e f pres blocked =
     bind_res (session_contacts e f) (\<lambda>contacts.
     bind_res (buddy_rows esc N st contacts blocked) (\<lambda>rows.
       refresh_buddies (buddy_title pal esc N open_it st contacts pres) rows))"

section \<open>The daemon's state\<close>

definition MIN_DAEMON_BUILD :: "int list" where "MIN_DAEMON_BUILD = [0, 9, 5]"

text \<open>\<open>tuple(int(x) for x in build.split("/", 1)[1].split("."))\<close>, \<open>None\<close> when that raises.\<close>

definition daemon_version :: "string \<Rightarrow> int list option" where
  "daemon_version build =
     (case dropWhile (\<lambda>c. c \<noteq> CHR ''/'') build of
        [] \<Rightarrow> None
      | _ # rest \<Rightarrow> those (map py_int (py_split (CHR ''.'') rest)))"

text \<open>Tuples are compared from the left, a proper prefix is smaller.\<close>

definition daemon_too_old :: "string \<Rightarrow> bool" where
  "daemon_too_old build = (case daemon_version build of None \<Rightarrow> False | Some dv \<Rightarrow> ord.lexordp (<) dv MIN_DAEMON_BUILD)"

text \<open>
  \<open>refresh_info\<close>. The state of the tunnel is what \<open>tunnel_state\<close> gives, with all its fields; the
  log is what is shown below the label. An empty status stands for none. A number of the status
  that is not an integer raises.
\<close>

definition int_item :: "json \<Rightarrow> string \<Rightarrow> int res" where
  "int_item j k = bind_res (json_item j k) (\<lambda>v. case v of JInt i \<Rightarrow> Ok i | _ \<Rightarrow> Err (TypeError ''not a number''))"

definition tun_str :: "(string, json) dict \<Rightarrow> string \<Rightarrow> string" where
  "tun_str t k = py_str (the (dict_get t k))"

definition tunnel_note :: "(string \<Rightarrow> string) \<Rightarrow> (string, json) dict option \<Rightarrow> string" where
  "tunnel_note esc tun =
     (case tun of
        None \<Rightarrow> []
      | Some t \<Rightarrow>
          [CHR 0x0A] @ ''ssh tunnel: '' @ esc (tun_str t ''host'') @ '' - '' @ (if truthy_field t ''up'' then ''up'' else ''down'') @
          (if truthy_field t ''restarts'' then '' '' @ MIDDOT @ '' restarts '' @ tun_str t ''restarts'' else []) @
          (if \<not> truthy_field t ''up'' \<and> truthy_field t ''last_error'' then '' '' @ MIDDOT @ '' '' @ esc (tun_str t ''last_error'') else []) @
          [CHR 0x0A] @ ''  remote '' @ esc (tun_str t ''remote_socket'') @
          [CHR 0x0A] @ ''  local  '' @ esc (tun_str t ''local_socket''))"

definition version_warning :: "string \<Rightarrow> string" where
  "version_warning build =
     ''daemon '' @ build @ '' is too old for this client (needs '' @ [CHR 0xE2, CHR 0x89, CHR 0xA5] @ '' '' @
     py_join ''.'' (map int_str MIN_DAEMON_BUILD) @ '') - update aimlessd-linux-amd64, then `aimless stop` and reopen''"

definition version_note :: "(string \<Rightarrow> string) \<Rightarrow> string \<Rightarrow> string" where
  "version_note pal build =
     (if build = [] then [CHR 0x0A] @ span (pal ''danger'') ''this daemon is an old build - run `aimless stop`, then reopen aimless to update''
      else if daemon_too_old build then [CHR 0x0A] @ span (pal ''danger'') (version_warning build)
      else [])"

record info_view =
  iv_label :: string
  iv_version_warned :: bool
  iv_log :: "string list"

definition refresh_info ::
  "(string \<Rightarrow> string) \<Rightarrow> (string \<Rightarrow> string) \<Rightarrow> string \<Rightarrow> (string, json) dict option \<Rightarrow> (string, json) dict \<Rightarrow> info_view \<Rightarrow> info_view res" where
  "refresh_info pal esc client_version tun st iv =
     (if st = [] then Ok (iv\<lparr>iv_label := span (pal ''danger'') (DOT @ ''  offline - daemon not reachable'') @ tunnel_note esc tun\<rparr>)
      else
        bind_res (case dict_get st ''build'' of
            None \<Rightarrow> Ok []
          | Some b \<Rightarrow> if \<not> json_truthy b then Ok []
              else (case b of JStr s \<Rightarrow> Ok s | _ \<Rightarrow> Err (AttributeError ''split''))) (\<lambda>build.
        bind_res (int_item (JObj st) ''peers_up'') (\<lambda>up.
        bind_res (json_item (JObj st) ''address'') (\<lambda>address.
        bind_res (json_item (JObj st) ''peers_total'') (\<lambda>peers.
          let warn = build \<noteq> [] \<and> daemon_too_old build \<and> \<not> iv_version_warned iv
          in Ok (iv\<lparr>iv_label :=
                 (if up > 0 then span (pal ''online'') (DOT @ ''  you are online'')
                  else span (pal ''away'') (DOT @ ''  connecting - no Yggdrasil peers yet'')) @
                 ''  -  address '' @ bold (py_str address) @ ''  '' @ MIDDOT @ ''  peers '' @ int_str up @ ''/'' @ py_str peers @ [CHR 0x0A] @
                 ''daemon: '' @ (if build = [] then ''unknown'' else build) @ ''  '' @ MIDDOT @ ''  client: aimless/'' @ client_version @
                 version_note pal build @ tunnel_note esc tun,
               iv_version_warned := iv_version_warned iv \<or> warn,
               iv_log := iv_log iv @ (if warn then [[CHR 0xE2, CHR 0x9A, CHR 0xA0] @ '' '' @ version_warning build] else [])\<rparr>))))))"

text \<open>The line at the bottom of the window: label, tooltip and icon.\<close>

definition tunnel_tooltip :: "(string, json) dict \<Rightarrow> string" where
  "tunnel_tooltip t =
     py_join [CHR 0x0A]
       ([''SSH tunnel: '' @ (if truthy_field t ''up'' then ''up'' else ''down''),
         ''remote: '' @ tun_str t ''host'' @ '' '' @ tun_str t ''remote_socket'',
         ''local:  '' @ tun_str t ''local_socket'',
         ''restarts: '' @ tun_str t ''restarts''] @
        (if truthy_field t ''last_error'' then [''last error: '' @ tun_str t ''last_error''] else []))"

datatype route_icon = SignalNone | SignalWeak | SignalExcellent

definition route_tail :: "(string \<Rightarrow> string) \<Rightarrow> (string, json) dict option \<Rightarrow> string" where
  "route_tail esc tun =
     (case tun of None \<Rightarrow> []
      | Some t \<Rightarrow> ''  '' @ MIDDOT @ ''  '' @ [CHR 0xE2, CHR 0x86, CHR 0x97] @ '' '' @ esc (tun_str t ''host''))"

definition route_status ::
  "(string \<Rightarrow> string) \<Rightarrow> (string \<Rightarrow> string) \<Rightarrow> (string, json) dict option \<Rightarrow> (string, json) dict \<Rightarrow> (string \<times> string option \<times> route_icon) res" where
  "route_status pal esc tun st =
     bind_res (int_item (JObj st) ''peers_up'') (\<lambda>up.
       if up = 0 then Ok (span (pal ''away'') (DOT @ ''  connecting - no Yggdrasil peers yet'') @ route_tail esc tun,
         map_option tunnel_tooltip tun, SignalWeak)
       else
         bind_res (json_item (JObj st) ''address'') (\<lambda>address.
         bind_res (json_item (JObj st) ''peers_total'') (\<lambda>peers.
           Ok (span (pal ''online'') (DOT @ ''  online'') @ ''  -  '' @ py_str address @ ''  '' @ MIDDOT @ ''  peers '' @ int_str up @ ''/'' @
                 py_str peers @ route_tail esc tun,
               map_option tunnel_tooltip tun, SignalExcellent))))"

definition refresh_route ::
  "(string \<Rightarrow> string) \<Rightarrow> (string \<Rightarrow> string) \<Rightarrow> (string, json) dict option \<Rightarrow> (string, json) dict \<Rightarrow> (string \<times> string option \<times> route_icon) res" where
  "refresh_route pal esc tun st =
     (case tun of
        Some t \<Rightarrow>
          if \<not> truthy_field t ''up''
          then Ok (span (pal ''danger'') (DOT @ ''  tunnel down'') @ ''  -  '' @ esc (tun_str t ''host'') @ '' '' @ MIDDOT @ '' reconnecting'' @ ELLIPSIS,
                   Some (tunnel_tooltip t), SignalNone)
          else if st = []
          then Ok (span (pal ''away'') (DOT @ ''  remote daemon unreachable'') @ ''  -  tunnel '' @ esc (tun_str t ''host''),
                   Some (tunnel_tooltip t), SignalNone)
          else route_status pal esc tun st
      | None \<Rightarrow>
          if st = [] then Ok (span (pal ''danger'') (DOT @ ''  offline - daemon not reachable''), None, SignalNone)
          else route_status pal esc tun st)"

text \<open>\<open>refresh_self_id\<close>: markup and tooltip of the own name, drawn again when the name or the node key has changed.\<close>

record self_id =
  si_shown :: "(string \<times> string) option"
  si_label :: string
  si_tip :: string

definition refresh_self_id :: "(string \<Rightarrow> string) \<Rightarrow> (string \<Rightarrow> string) \<Rightarrow> string \<Rightarrow> string \<Rightarrow> string \<Rightarrow> self_id \<Rightarrow> self_id" where
  "refresh_self_id pal esc self_screen node pubkey si =
     (let screen = (if self_screen = [] then ''anonymous'' else self_screen);
          short = (if node = [] then ''-'' else take_cps 16 node @ ELLIPSIS)
      in if si_shown si = Some (screen, node) then si
         else \<lparr>si_shown = Some (screen, node),
               si_label = span (pal ''muted2'') (''you: '' @ esc screen) @ ''  '' @ MIDDOT @ ''  '' @ span (pal ''subtitle'') short,
               si_tip = ''node key: '' @ node @ (if pubkey = [] then [] else [CHR 0x0A] @ ''client pubkey: '' @ pubkey)\<rparr>)"

definition away_banner :: "(string \<Rightarrow> string) \<Rightarrow> string \<Rightarrow> string option" where
  "away_banner esc away =
     (if away = [] then None
      else Some (''<b>Away</b> - '' @ esc away @ ''  <span size='' @ quoted ''small'' @ ''>(buddies see this as your away message)</span>''))"

text \<open>The question about a waiting request and the part of its text that is shown.\<close>

definition ask_request_text :: "json \<Rightarrow> (string, json) dict \<Rightarrow> (string \<times> string) res" where
  "ask_request_text self_node req =
     (let rooms_members = (case dict_get req ''members'' of Some (JArr ms) \<Rightarrow> Ok ms | None \<Rightarrow> Ok [] | _ \<Rightarrow> Err (TypeError ''members''))
      in bind_res (json_item (JObj req) ''screen'') (\<lambda>screen.
         bind_res (if truthy_field req ''conv''
             then bind_res rooms_members (\<lambda>ms.
                  bind_res (traverse_res (\<lambda>m. bind_res (bind_res (json_item m ''node'') dict_key) (\<lambda>n.
                      bind_res (json_get m ''screen'') (\<lambda>sc. Ok (n, name_or sc n)))) ms) (\<lambda>named.
                  bind_res (traverse_res (\<lambda>(_, s). dict_key s) (filter (\<lambda>(n, _). JStr n \<noteq> self_node) named)) (\<lambda>others.
                    Ok (py_str screen @ '' invited you to a conversation with '' @ py_join '', '' others))))
             else Ok (py_str screen @ '' wants to chat with you'')) (\<lambda>question.
         bind_res (case dict_get req ''text'' of
             None \<Rightarrow> Ok [] | Some t \<Rightarrow> if json_truthy t then dict_key t else Ok []) (\<lambda>body.
           Ok (question, take_cps 300 body)))))"

text \<open>
  Whether the conversation follows new messages: it does while it is scrolled to its end, otherwise a
  button leads there. The position, the length and the height of the view are whole pixels.
\<close>

record scroll_state =
  sc_at_bottom :: bool
  sc_jump :: bool

definition near_bottom :: "int \<Rightarrow> int \<Rightarrow> int \<Rightarrow> bool" where
  "near_bottom pos upper page = (pos \<ge> upper - page - 40)"

definition on_scrolled :: "int \<Rightarrow> int \<Rightarrow> int \<Rightarrow> scroll_state \<Rightarrow> scroll_state" where
  "on_scrolled pos upper page s =
     (let b = near_bottom pos upper page in \<lparr>sc_at_bottom = b, sc_jump = (if b then False else sc_jump s)\<rparr>)"

definition jump_to_bottom :: "scroll_state \<Rightarrow> scroll_state" where
  "jump_to_bottom s = \<lparr>sc_at_bottom = True, sc_jump = False\<rparr>"

definition maybe_scroll :: "scroll_state \<Rightarrow> scroll_state" where
  "maybe_scroll s = (if sc_at_bottom s then s else s\<lparr>sc_jump := True\<rparr>)"

text \<open>The button is shown only while the conversation does not follow.\<close>

lemma jump_button:
  assumes "sc_jump s \<longrightarrow> \<not> sc_at_bottom s"
  shows "sc_jump (on_scrolled p u g s) \<longrightarrow> \<not> sc_at_bottom (on_scrolled p u g s)"
    "sc_jump (maybe_scroll s) \<longrightarrow> \<not> sc_at_bottom (maybe_scroll s)" "\<not> sc_jump (jump_to_bottom s)"
  using assms by (auto simp: on_scrolled_def maybe_scroll_def jump_to_bottom_def Let_def)

text \<open>
  \<open>refresh\<close> of the buddy list, when the worker is back: the presence and the invite are kept, and the rows are
  drawn again if the blocked nodes have changed.
\<close>

record contacts_view =
  cv_presence :: "(string, (string, json) dict) dict"
  cv_invite :: string
  cv_blocked :: "string list"

definition blocked_or_none :: "string list res \<Rightarrow> string list res" where
  "blocked_or_none r = (case r of Err (DaemonError _) \<Rightarrow> Ok [] | _ \<Rightarrow> r)"

definition contacts_refresh_done ::
  "string \<Rightarrow> (string, (string, json) dict) dict \<Rightarrow> string list \<Rightarrow> contacts_view \<Rightarrow> bool \<times> contacts_view" where
  "contacts_refresh_done invite pres blocked cv =
     (let changed = set blocked \<noteq> set (cv_blocked cv)
      in (changed, cv\<lparr>cv_presence := pres, cv_invite := invite, cv_blocked := (if changed then blocked else cv_blocked cv)\<rparr>))"

section \<open>Correctness of the transcript\<close>

definition bubbles :: "row list \<Rightarrow> bubble list" where
  "bubbles rows = concat (map (\<lambda>r. case r of BubbleRow b \<Rightarrow> [b] | _ \<Rightarrow> []) rows)"

definition days :: "row list \<Rightarrow> int list" where
  "days rows = concat (map (\<lambda>r. case r of DateRow d \<Rightarrow> [d] | _ \<Rightarrow> []) rows)"

text \<open>Every bubble stands below the date of its own message.\<close>

fun under_days :: "(int \<Rightarrow> int) \<Rightarrow> int option \<Rightarrow> row list \<Rightarrow> bool" where
  "under_days day_of cur [] = True"
| "under_days day_of cur (DateRow d # rows) = under_days day_of (Some d) rows"
| "under_days day_of cur (BubbleRow b # rows) = (cur = Some (day_of (bb_ts b)) \<and> under_days day_of cur rows)"
| "under_days day_of cur (FileRow s # rows) = under_days day_of cur rows"

text \<open>The contact and the members of a thread are dicts or nothing.\<close>

definition plain_info :: "json \<Rightarrow> bool" where
  "plain_info j = (case j of JObj _ \<Rightarrow> True | _ \<Rightarrow> \<not> json_truthy j)"

definition names_readable :: "thread \<Rightarrow> bool" where
  "names_readable t \<longleftrightarrow> plain_info (th_contact t) \<and> list_all (\<lambda>(_, i). plain_info i) (th_members t)"

lemma plain_info_get: "plain_info j \<Longrightarrow> json_truthy j \<Longrightarrow> \<exists>v. json_get j k = Ok v"
  by (cases j) (auto simp: plain_info_def)

lemma sender_label_total: "names_readable t \<Longrightarrow> \<exists>who. sender_label t (JStr n) = Ok who"
  using plain_info_get [of "th_contact t" "''node''"]
  by (auto simp: names_readable_def sender_label_def list_all_iff split: option.split dest!: map_of_SomeD plain_info_get [where k = "''screen''"])

lemma bubble_of_total: "names_readable t \<Longrightarrow> \<exists>b. bubble_of stamp t m = Ok b \<and> bb_id b = v_id m \<and> bb_ts b = v_ts m \<and> (bb_out b \<longleftrightarrow> v_dir m = Out)"
  using sender_label_total [of t "v_sender m"] by (auto simp: bubble_of_def)

lemma bubbles_simps [simp]:
  "bubbles [] = []" "bubbles (xs @ ys) = bubbles xs @ bubbles ys" "bubbles (BubbleRow b # ys) = b # bubbles ys"
  "bubbles (DateRow d # ys) = bubbles ys" "bubbles (FileRow s # ys) = bubbles ys"
  by (simp_all add: bubbles_def)

lemma days_simps [simp]:
  "days [] = []" "days (xs @ ys) = days xs @ days ys" "days (BubbleRow b # ys) = days ys"
  "days (DateRow d # ys) = d # days ys" "days (FileRow s # ys) = days ys"
  by (simp_all add: days_def)

lemma file_row_frame [simp]: "bubbles (file_row st m) = []" "days (file_row st m) = []"
    "under_days day_of cur (file_row st m @ rows) = under_days day_of cur rows"
  by (simp_all add: file_row_def Let_def)

lemma transcript_bubbles:
  assumes "names_readable t"
  shows "\<exists>rows. transcript day_of stamp st t last_day ms = Ok rows \<and> list_all2 (\<lambda>m b. bubble_of stamp t m = Ok b) ms (bubbles rows)"
proof (induction ms arbitrary: last_day)
  case (Cons m ms)
  obtain b where "bubble_of stamp t m = Ok b" using bubble_of_total [OF assms] by blast
  moreover obtain rows where "transcript day_of stamp st t (Some (day_of (v_ts m))) ms = Ok rows"
      "list_all2 (\<lambda>m b. bubble_of stamp t m = Ok b) ms (bubbles rows)"
    using Cons.IH by blast
  ultimately show ?case by (simp add: date_divider_def)
qed simp

lemma message_has_bubble:
  assumes "names_readable t" "messages N st conv = Ok ms" "m \<in> set ms"
  shows "\<exists>rows b. conversation_rows day_of stamp N st conv t = Ok rows \<and> b \<in> set (bubbles rows) \<and> bubble_of stamp t m = Ok b"
proof -
  obtain rows where rows: "transcript day_of stamp st t None ms = Ok rows"
      "list_all2 (\<lambda>m b. bubble_of stamp t m = Ok b) ms (bubbles rows)"
    using transcript_bubbles [OF assms(1)] by blast
  from rows(2) assms(3) obtain b where "b \<in> set (bubbles rows)" "bubble_of stamp t m = Ok b"
    unfolding list_all2_conv_all_nth by (metis in_set_conv_nth nth_mem)
  with rows(1) assms(2) show ?thesis by (auto simp: conversation_rows_def)
qed

lemma transcript_total:
  assumes "names_readable t" and mono: "mono day_of"
  shows "sorted (map v_ts ms) \<Longrightarrow> (\<And>m d. m \<in> set ms \<Longrightarrow> last_day = Some d \<Longrightarrow> d \<le> day_of (v_ts m)) \<Longrightarrow>
    \<exists>rows. transcript day_of stamp st t last_day ms = Ok rows \<and>
      map (\<lambda>b. (bb_id b, bb_out b, bb_ts b)) (bubbles rows) = map (\<lambda>m. (v_id m, v_dir m = Out, v_ts m)) ms \<and>
      sorted_wrt (<) (days rows) \<and> (\<forall>d \<in> set (days rows). \<forall>d0. last_day = Some d0 \<longrightarrow> d0 < d) \<and>
      under_days day_of last_day rows"
proof (induction ms arbitrary: last_day)
  case (Cons m ms)
  let ?d = "day_of (v_ts m)"
  from Cons.prems(1) have le: "?d \<le> day_of (v_ts m')" if "m' \<in> set ms" for m' using that mono by (auto simp: mono_def)
  have "sorted (map v_ts ms)" using Cons.prems(1) by simp
  from Cons.IH [OF this, of "Some ?d"] le obtain rows where
      rows: "transcript day_of stamp st t (Some ?d) ms = Ok rows"
        "map (\<lambda>b. (bb_id b, bb_out b, bb_ts b)) (bubbles rows) = map (\<lambda>m. (v_id m, v_dir m = Out, v_ts m)) ms"
        "sorted_wrt (<) (days rows)" "\<forall>d \<in> set (days rows). ?d < d" "under_days day_of (Some ?d) rows"
    by auto
  obtain b where b: "bubble_of stamp t m = Ok b" "bb_id b = v_id m" "bb_ts b = v_ts m" "bb_out b \<longleftrightarrow> v_dir m = Out"
    using bubble_of_total [OF assms(1)] by blast
  have first: "d0 \<le> ?d" if "last_day = Some d0" for d0 using Cons.prems(2) [of m d0] that by simp
  show ?case
  proof (cases "last_day = Some ?d")
    case True
    with rows b show ?thesis by (simp add: date_divider_def)
  next
    case False
    then have "d0 < ?d" if "last_day = Some d0" for d0 using first [OF that] that by auto
    with False rows b show ?thesis by (force simp: date_divider_def)
  qed
qed simp




section \<open>Correctness of the version check\<close>

lemma daemon_version_join:
  assumes "CHR ''/'' \<notin> set name" "vs \<noteq> []"
  shows "daemon_version (name @ CHR ''/'' # py_join ''.'' (map nat_digits vs)) = Some (map int vs)"
proof -
  have "CHR ''.'' \<notin> set (nat_digits n)" for n using nat_digits_chars [of n] by (auto simp: decimal_digits_def)
  then have "py_split (CHR ''.'') (py_join ''.'' (map nat_digits vs)) = map nat_digits vs"
    using assms(2) by (intro py_split_join) auto
  moreover have "dropWhile (\<lambda>c. c \<noteq> CHR ''/'') (name @ CHR ''/'' # s) = CHR ''/'' # s" for s
    using assms(1) by (induction name) auto
  ultimately show ?thesis by (simp add: daemon_version_def comp_def those_map py_int_digits)
qed

text \<open>
  the window warns about a daemon exactly when its version is below the minimum: for a build
  string of a name and a version of three numbers the parsed tuple is the version, compared number
  by number and not as text, so 0.10.0 is newer than 0.9.5.
\<close>

theorem old_daemon_detected:
  assumes "CHR ''/'' \<notin> set name"
  shows "daemon_too_old (name @ CHR ''/'' # py_join ''.'' (map nat_digits [a, b, c])) \<longleftrightarrow> (a, b, c) < (0, 9, 5)"
  unfolding daemon_too_old_def daemon_version_join [OF assms list.simps(3)] MIN_DAEMON_BUILD_def
  by (auto simp: less_prod_def)

theorem old_daemon_detected_witness:
  "daemon_too_old ''aimlessd/0.9.4'' \<and> \<not> daemon_too_old ''aimlessd/0.10.0''"
proof -
  have "nat_digits 0 = ''0''" "nat_digits 9 = ''9''" "nat_digits 4 = ''4''" "nat_digits 10 = ''10''" by code_simp+
  then show ?thesis using old_daemon_detected [of "''aimlessd''" 0 9 4] old_daemon_detected [of "''aimlessd''" 0 10 0] by simp
qed

section \<open>Correctness of the buddy list\<close>

text \<open>Contacts as the client writes them: a node and, possibly, a screen name.\<close>

fun is_text :: "json \<Rightarrow> bool" where
  "is_text (JStr s) = True"
| "is_text _ = False"

lemma is_text_iff: "is_text j \<longleftrightarrow> (\<exists>s. j = JStr s)"
  by (cases j) simp_all

definition contact_shape :: "json \<Rightarrow> bool" where
  "contact_shape info = (case info of
       JObj kvs \<Rightarrow> (case dict_get kvs ''node'' of Some n \<Rightarrow> is_text n | None \<Rightarrow> False) \<and>
         (case dict_get kvs ''screen'' of Some sc \<Rightarrow> is_text sc | None \<Rightarrow> True)
     | _ \<Rightarrow> False)"

definition node_of :: "json \<Rightarrow> string" where
  "node_of info = (case json_item info ''node'' of Ok (JStr n) \<Rightarrow> n | _ \<Rightarrow> [])"

definition contact_action :: "string list \<Rightarrow> string \<times> json \<Rightarrow> buddy_action" where
  "contact_action blocked = (\<lambda>(petname, info). if node_of info \<in> set blocked then UnblockBuddy (node_of info) else RemoveBuddy petname)"

lemma contact_shape_item:
  assumes "contact_shape info"
  shows "json_item info ''node'' = Ok (JStr (node_of info))" "json_get info ''node'' = Ok (Some (JStr (node_of info)))"
    "\<exists>s. screen_or info petname = Ok s" "json_truthy info"
proof -
  from assms obtain kvs n where info: "info = JObj kvs" "dict_get kvs ''node'' = Some (JStr n)"
    and screen: "dict_get kvs ''screen'' = None \<or> (\<exists>s. dict_get kvs ''screen'' = Some (JStr s))"
    by (auto simp: contact_shape_def is_text_iff split: json.splits option.splits)
  then show "json_item info ''node'' = Ok (JStr (node_of info))" "json_get info ''node'' = Ok (Some (JStr (node_of info)))" "json_truthy info"
    by (auto simp: node_of_def)
  from screen show "\<exists>s. screen_or info petname = Ok s" by (auto simp: info screen_or_def)
qed

lemma contact_row_total:
  assumes "contact_shape info"
  shows "\<exists>r. contact_row esc blocked (petname, info) = Ok r \<and> br_key r = petname \<and> br_action r = contact_action blocked (petname, info)"
proof -
  obtain s where "screen_or info petname = Ok s" using contact_shape_item(3) [OF assms] by blast
  with contact_shape_item [OF assms] show ?thesis by (auto simp: contact_row_def contact_action_def)
qed

lemma contact_nodes_shape:
  "list_all (\<lambda>(_, i). contact_shape i) cs \<Longrightarrow> contact_nodes cs = Ok (map (\<lambda>(_, i). JStr (node_of i)) cs)"
  unfolding contact_nodes_def by (induction cs) (auto simp: contact_shape_item)

lemma stranger_row_total:
  assumes "store_ok N st"
  shows "\<exists>r. stranger_row N st node = Ok r \<and> (br_key r, br_action r) = (node, UnblockBuddy node)"
  using readers_total(2) [OF assms, of node] by (cases "blocked_screen N st node") (auto simp: stranger_row_def Let_def)

lemma refresh_buddies_total:
  "(\<And>r. r \<in> set rs \<Longrightarrow> \<exists>m. title_of (br_key r) = Ok m) \<Longrightarrow>
   \<exists>rs'. refresh_buddies title_of rs = Ok rs' \<and> map (\<lambda>r. (br_key r, br_action r)) rs' = map (\<lambda>r. (br_key r, br_action r)) rs"
proof (induction rs)
  case (Cons r rs)
  then obtain m rs' where "title_of (br_key r) = Ok m" "refresh_buddies title_of rs = Ok rs'"
      "map (\<lambda>r. (br_key r, br_action r)) rs' = map (\<lambda>r. (br_key r, br_action r)) rs"
    by (meson list.set_intros)
  then show ?case by auto
qed simp

lemma buddy_title_total:
  assumes "store_ok N st" "list_all (\<lambda>(_, i). contact_shape i) contacts"
  shows "\<exists>m. buddy_title pal esc N open_it st contacts pres key = Ok m"
proof (cases "dict_get contacts key")
  case None
  with readers_total(2) [OF assms(1), of key] show ?thesis
    by (cases "blocked_screen N st key") (auto simp: buddy_title_def screen_or_def Let_def split: prod.split)
next
  case (Some info)
  with assms(2) have "contact_shape info" by (auto simp: list_all_iff dest!: map_of_SomeD)
  note shape = contact_shape_item [OF this]
  obtain s where "screen_or info key = Ok s" using shape(3) by blast
  with shape Some show ?thesis by (auto simp: buddy_title_def Let_def split: prod.split)
qed

definition unblock_targets :: "buddy_row list \<Rightarrow> string set" where
  "unblock_targets rows = {n. UnblockBuddy n \<in> br_action ` set rows}"

definition removable :: "buddy_row list \<Rightarrow> string set" where
  "removable rows = {p. RemoveBuddy p \<in> br_action ` set rows}"

text \<open>
  C17: the buddy list can always be drawn from a readable store and well-formed contacts, and it is
  complete: one row for every contact, by petname, then one for every blocked node that is no
  contact; the nodes that can be unblocked from it are exactly the blocked ones, and the
  contacts that can be removed are exactly those that are not blocked.
\<close>

theorem buddy_list_complete:
  assumes "store_ok N st" "session_contacts e f = Ok contacts" "list_all (\<lambda>(_, i). contact_shape i) contacts"
  shows "\<exists>rows. render_buddy_rows pal esc N open_it st e f pres blocked = Ok rows \<and>
    map br_key rows = sort (map fst contacts) @ filter (\<lambda>n. n \<notin> (\<lambda>(_, i). node_of i) ` set contacts) (sort (remdups blocked)) \<and>
    unblock_targets rows = set blocked \<and>
    removable rows = {p. \<exists>i. (p, i) \<in> set contacts \<and> node_of i \<notin> set blocked}"
proof -
  let ?key = "\<lambda>r. (br_key r, br_action r)"
  have "\<exists>ys. traverse_res (contact_row esc blocked) (sort_key fst contacts) = Ok ys \<and>
      map ?key ys = map (\<lambda>x. (fst x, contact_action blocked x)) (sort_key fst contacts)"
    by (rule traverse_res_map) (use assms(3) contact_row_total in \<open>fastforce simp: list_all_iff\<close>)
  then obtain known where known: "traverse_res (contact_row esc blocked) (sort_key fst contacts) = Ok known"
      "map ?key known = map (\<lambda>x. (fst x, contact_action blocked x)) (sort_key fst contacts)" by blast
  let ?left = "filter (\<lambda>n. n \<notin> (\<lambda>(_, i). node_of i) ` set contacts) (sort (remdups blocked))"
  have left: "filter (\<lambda>n. JStr n \<notin> set (map (\<lambda>(_, i). JStr (node_of i)) contacts)) (sort (remdups blocked)) = ?left"
    by (rule filter_cong) auto
  have "\<exists>ys. traverse_res (stranger_row N st) ?left = Ok ys \<and> map ?key ys = map (\<lambda>n. (n, UnblockBuddy n)) ?left"
    by (rule traverse_res_map) (rule stranger_row_total [OF assms(1)])
  then obtain strangers where strangers: "traverse_res (stranger_row N st) ?left = Ok strangers"
      "map ?key strangers = map (\<lambda>n. (n, UnblockBuddy n)) ?left" by blast
  have built: "buddy_rows esc N st contacts blocked = Ok (known @ strangers)"
    by (simp only: buddy_rows_def contact_nodes_shape [OF assms(3)] bind_res.simps known(1) left strangers(1))
  obtain rows where rows: "refresh_buddies (buddy_title pal esc N open_it st contacts pres) (known @ strangers) = Ok rows"
      "map ?key rows = map ?key (known @ strangers)"
    using refresh_buddies_total [of "known @ strangers" "buddy_title pal esc N open_it st contacts pres"]
      buddy_title_total [OF assms(1,3)] by blast
  have keys: "map ?key rows = map (\<lambda>x. (fst x, contact_action blocked x)) (sort_key fst contacts) @ map (\<lambda>n. (n, UnblockBuddy n)) ?left"
    using rows(2) known(2) strangers(2) by simp
  from keys have "map fst (map ?key rows) = map fst (sort_key fst contacts) @ ?left" by (simp add: comp_def)
  moreover have "map fst (sort_key fst contacts) = sort (map fst contacts)" by (induction contacts) (auto simp: map_fst_insort)
  ultimately have k: "map br_key rows = sort (map fst contacts) @ ?left" by (simp add: comp_def)
  from keys have "set (map snd (map ?key rows)) = contact_action blocked ` set contacts \<union> UnblockBuddy ` set ?left"
    by (simp add: comp_def image_image)
  then have acts: "br_action ` set rows = contact_action blocked ` set contacts \<union> UnblockBuddy ` set ?left"
    by (simp add: image_image)
  show ?thesis
  proof (intro exI conjI)
    show "render_buddy_rows pal esc N open_it st e f pres blocked = Ok rows"
      by (simp only: render_buddy_rows_def assms(2) built rows(1) bind_res.simps)
    have unblock: "UnblockBuddy n = contact_action blocked (p, i) \<longleftrightarrow> node_of i = n \<and> n \<in> set blocked" for n p i
      by (auto simp: contact_action_def)
    have remove: "RemoveBuddy q = contact_action blocked (p, i) \<longleftrightarrow> q = p \<and> node_of i \<notin> set blocked" for q p i
      by (auto simp: contact_action_def)
    show "unblock_targets rows = set blocked"
      unfolding unblock_targets_def acts by (auto simp: image_iff unblock) (metis unblock)
    show "removable rows = {p. \<exists>i. (p, i) \<in> set contacts \<and> node_of i \<notin> set blocked}"
      unfolding removable_def acts by (auto simp: image_iff remove) (metis remove)
  qed (rule k)
qed


theorem buddy_list_complete_witness:
  "\<exists>st rows. render_buddy_rows (\<lambda>_. ''red'') id plain_nacl (\<lambda>_. Ok []) st (home_env ''/h'')
       (save_contacts (contacts_path (home_env ''/h''))
          [(''bob'', JObj [(''node'', JStr ''n1'')]), (''ann'', JObj [(''node'', JStr ''n2'')])] \<lparr>files = (\<lambda>_. None), dirs = (\<lambda>_. None)\<rparr>) [] [''n3'', ''n1''] = Ok rows \<and>
     map br_key rows = [''ann'', ''bob'', ''n3''] \<and> unblock_targets rows = {''n1'', ''n3''} \<and> removable rows = {''ann''}"
proof -
  let ?cs = "[(''bob'', JObj [(''node'', JStr ''n1'')]), (''ann'', JObj [(''node'', JStr ''n2'')])]"
  let ?f = "save_contacts (contacts_path (home_env ''/h'')) ?cs \<lparr>files = (\<lambda>_. None), dirs = (\<lambda>_. None)\<rparr>"
  obtain st where ok: "store_ok plain_nacl st" using open_store_ok [OF plain_nacl_ok] by blast
  have cs: "session_contacts (home_env ''/h'') ?f = Ok ?cs"
    by (simp add: session_contacts_def load_save_contacts valid_str_lit)
  have nodes: "node_of (JObj [(''node'', JStr ''n1'')]) = ''n1''" "node_of (JObj [(''node'', JStr ''n2'')]) = ''n2''"
    by (simp_all add: node_of_def)
  have keys: "sort (map fst ?cs) @ filter (\<lambda>n. n \<notin> (\<lambda>(_, i). node_of i) ` set ?cs) (sort (remdups [''n3'', ''n1''])) = [''ann'', ''bob'', ''n3'']"
    by code_simp
  have left: "{p. \<exists>i. (p, i) \<in> set ?cs \<and> node_of i \<notin> set [''n3'', ''n1'']} = {''ann''}"
    by (auto simp: nodes)
  have shape: "list_all (\<lambda>(_, i). contact_shape i) ?cs" by (simp add: contact_shape_def)
  have "set [''n3'', ''n1''] = {''n1'', ''n3''}" by auto
  with buddy_list_complete [OF ok cs shape, of "\<lambda>_. ''red''" id "\<lambda>_. Ok []" "[]" "[''n3'', ''n1'']", unfolded keys left]
  show ?thesis by (elim exE) (intro exI, simp only: simp_thms)
qed

section \<open>Names carry no markup\<close>

definition tags :: "string \<Rightarrow> nat" where
  "tags s = length (filter (\<lambda>c. c = CHR ''<'') s)"

text \<open>\<open>GLib.markup_escape_text\<close> leaves no opening angle bracket; the colours of the themes hold none.\<close>

definition markup_free :: "(string \<Rightarrow> string) \<Rightarrow> bool" where
  "markup_free f \<longleftrightarrow> (\<forall>s. CHR ''<'' \<notin> set (f s))"

lemma tags_simps [simp]: "tags [] = 0" "tags (s @ t) = tags s + tags t" "tags (c # s) = (if c = CHR ''<'' then 1 else 0) + tags s"
  by (simp_all add: tags_def)

lemma tags_free: "CHR ''<'' \<notin> set s \<Longrightarrow> tags s = 0"
  by (simp add: tags_def filter_empty_conv) metis

lemma tags_escaped: "markup_free f \<Longrightarrow> tags (f s) = 0"
  by (simp add: markup_free_def tags_free)

lemma tags_digits [simp]: "tags (nat_digits n) = 0"
  using nat_digits_chars [of n] by (intro tags_free) (auto simp: decimal_digits_def)

lemma tags_glyphs [simp]: "tags DOT = 0" "tags RING = 0" "tags ELLIPSIS = 0" "tags MIDDOT = 0"
  by (simp_all add: DOT_def RING_def ELLIPSIS_def MIDDOT_def)

lemma tags_span: "markup_free pal \<Longrightarrow> tags (span (pal k) s) = 2 + tags s" "markup_free pal \<Longrightarrow> tags (small_span (pal k) s) = 2 + tags s"
    "tags (bold s) = 2 + tags s"
  by (simp_all add: span_def small_span_def bold_def tags_escaped)

lemma presence_colour_pal: "\<exists>k. presence_colour pal on away = pal k"
  by (auto simp: presence_colour_def)

lemma tags_dot: "markup_free pal \<Longrightarrow> tags (span (presence_colour pal on away) s) = 2 + tags s"
  using presence_colour_pal [of pal on away] tags_span(1) [of pal] by metis

lemma tags_concat: "(\<And>s. s \<in> set ss \<Longrightarrow> tags s = 2) \<Longrightarrow> tags (concat ss) = 2 * length ss"
  by (induction ss) auto

lemma member_entries_length: "member_entries ex mems = Ok es \<Longrightarrow> length es = length (filter (\<lambda>n. JStr n \<noteq> ex) (map fst mems))"
  by (auto simp: member_entries_def traverse_res_list_all2 filter_map comp_def case_prod_unfold elim!: bind_res_Ok dest!: list_all2_lengthD)

text \<open>
  C18: no screen name a peer chooses can put markup into the window: whatever the names are, the
  title of a row, the header of a room and the buttons of its members hold exactly the tags of
  their own layout, two of them for every other member in the header.
\<close>

theorem names_carry_no_markup:
  assumes "markup_free esc" "markup_free pal"
  shows "(\<forall>s. sidebar_title_markup pal esc self_node t = Ok s \<longrightarrow> tags s = (if th_room t then 6 else 4)) \<and>
    (\<forall>s. room_header_markup pal esc self_node t = Ok s \<longrightarrow> tags s = 6 + 2 * length (room_others self_node t)) \<and>
    (\<forall>cs. member_chips pal esc e f self_node t = Ok cs \<longrightarrow> list_all (\<lambda>c. tags (ch_label c) = 2) cs) \<and>
    (\<forall>r. update_thread_row pal esc self_node st t = Ok r \<longrightarrow> tags (rv_title r) = (if th_room t then 6 else 4))"
proof (intro conjI allI impI)
  have title: "tags s = (if th_room t then 6 else 4)" if "sidebar_title_markup pal esc self_node t = Ok s" for s
    using that assms by (auto simp: sidebar_title_markup_def Let_def tags_span tags_dot tags_escaped elim!: bind_res_Ok split: if_splits)
  then show "tags s = (if th_room t then 6 else 4)" if "sidebar_title_markup pal esc self_node t = Ok s" for s using that .
  show "tags (rv_title r) = (if th_room t then 6 else 4)" if "update_thread_row pal esc self_node st t = Ok r" for r
    using that title by (auto simp: update_thread_row_def Let_def elim!: bind_res_Ok)
  show "tags s = 6 + 2 * length (room_others self_node t)" if "room_header_markup pal esc self_node t = Ok s" for s
  proof -
    from that obtain es screen where es: "member_entries self_node (th_members t) = Ok es" and s: "s = ''<big>'' @ bold (esc screen) @ ''</big>  '' @
        concat (map (\<lambda>(_, n). case presence_of t n of (on, away, _) \<Rightarrow> span (presence_colour pal on away) DOT) es) @ ''  '' @
        small_span (pal ''subtitle'')
             (nat_digits (online_others self_node t) @ ''/'' @ nat_digits (length (room_others self_node t)) @ '' online'')"
      by (auto simp: room_header_markup_def room_dots_markup_def elim!: bind_res_Ok)
    have "tags (concat (map (\<lambda>(_, n). case presence_of t n of (on, away, _) \<Rightarrow> span (presence_colour pal on away) DOT) es)) = 2 * length es"
      by (subst tags_concat) (auto simp: tags_dot assms split: prod.split)
    with s member_entries_length [OF es] show ?thesis by (simp add: tags_span tags_escaped assms room_others_def)
  qed
  show "list_all (\<lambda>c. tags (ch_label c) = 2) cs" if "member_chips pal esc e f self_node t = Ok cs" for cs
    using that by (auto simp: member_chips_def list_all_iff Let_def tags_dot tags_escaped assms elim!: bind_res_Ok split: if_splits prod.splits)
qed

theorem names_carry_no_markup_witness:
  "markup_free (filter (\<lambda>c. c \<noteq> CHR ''<'')) \<and> markup_free (\<lambda>_. ''red'') \<and>
   (\<exists>s. sidebar_title_markup (\<lambda>_. ''red'') (filter (\<lambda>c. c \<noteq> CHR ''<'')) JNull ((empty_dm ''n'')\<lparr>th_screen := JStr ''<i>''\<rparr>) = Ok s \<and> tags s = 4)"
proof -
  let ?t = "(empty_dm ''n'')\<lparr>th_screen := JStr ''<i>''\<rparr>" and ?esc = "filter (\<lambda>c. c \<noteq> CHR ''<'')" and ?pal = "\<lambda>_ :: string. ''red''"
  have free: "markup_free ?esc" "markup_free ?pal" by (simp_all add: markup_free_def)
  have "\<exists>s. sidebar_title_markup ?pal ?esc JNull ?t = Ok s" by (simp add: sidebar_title_markup_def empty_dm_def)
  moreover have "\<not> th_room ?t" by (simp add: empty_dm_def)
  ultimately show ?thesis using free names_carry_no_markup [OF free, of JNull ?t "home_env []" undefined empty_store] by auto
qed
end
