(* ===== verification/Settings.thy ===== *)
theory Settings
  imports Display
begin

text \<open>
  The settings of the window of \<open>client/aimless/gtkui.py\<close>: themes, the preferences dialog, the saved
  geometry, the dialogs that ask for secrets, the dialog for keys, identity and backups, the import
  of a backup on the first run, attachments and the dialog for a new room. The answers of the dialogs are
  arguments: the button, the texts of the entries, the file chosen.
\<close>

section \<open>Themes\<close>

definition THEMES :: "(string, (string, json) dict) dict" where
  "THEMES = [
    (''dark'', [
      (''name'', JStr ''Aimless Dark''), (''bg'', JStr ''#191b22''), (''header'', JStr ''#14161d''), (''surface'', JStr ''#1e212b''),
      (''sidebar'', JStr ''#21242e''), (''sidebar_hover'', JStr ''#262a35''), (''sidebar_selected'', JStr ''#323748''),
      (''button'', JStr ''#262a35''), (''button_hover'', JStr ''#2e3240''), (''button_active'', JStr ''#33363f''), (''border'', JStr ''#3a3e4a''),
      (''border_dark'', JStr ''#0d0e13''), (''sep'', JStr ''#2a2d37''), (''text'', JStr ''#e8eaf0''), (''text2'', JStr ''#dfe3ec''),
      (''text_bright'', JStr ''#f2f4f8''), (''muted'', JStr ''#9aa0ad''), (''muted2'', JStr ''#aab0bd''), (''subtitle'', JStr ''#8c8c8c''),
      (''bubble_in'', JStr ''#31343d''), (''bubble_in_fg'', JStr ''#e8eaf0''), (''bubble_out'', JStr ''#8ab4f8''),
      (''bubble_out_fg'', JStr ''#10131a''), (''out_link'', JStr ''#0b3d91''), (''badge_bg'', JStr ''#7fa8f0''), (''badge_fg'', JStr ''#10131a''),
      (''focus'', JStr ''#4a5060''), (''log_text'', JStr ''#c8cdd8''), (''away_bg'', JStr ''#3a3020''), (''away_border'', JStr ''#5a4a28''),
      (''away_text'', JStr ''#f5d78e''), (''away_icon'', JStr ''#f5d36b''), (''chip'', JStr ''#22252e''), (''chip_hover'', JStr ''#2c313d''),
      (''online'', JStr ''#a6e3a1''), (''away'', JStr ''#fab387''), (''offline'', JStr ''#6c7086''), (''danger'', JStr ''#f38ba8''),
      (''link'', JStr ''#8ab4f8'')]),
    (''mocha'', [
      (''name'', JStr ''Mocha''), (''mono'', JBool False), (''bg'', JStr ''#1e1e2e''), (''header'', JStr ''#11111b''),
      (''surface'', JStr ''#181825''), (''sidebar'', JStr ''#181825''), (''sidebar_hover'', JStr ''#1e1e2e''),
      (''sidebar_selected'', JStr ''#313244''), (''button'', JStr ''#313244''), (''button_hover'', JStr ''#45475a''),
      (''button_active'', JStr ''#45475a''), (''border'', JStr ''#45475a''), (''border_dark'', JStr ''#11111b''), (''sep'', JStr ''#313244''),
      (''text'', JStr ''#cdd6f4''), (''text2'', JStr ''#cdd6f4''), (''text_bright'', JStr ''#ffffff''), (''muted'', JStr ''#7f849c''),
      (''muted2'', JStr ''#6c7086''), (''subtitle'', JStr ''#6c7086''), (''bubble_in'', JStr ''#313244''), (''bubble_in_fg'', JStr ''#cdd6f4''),
      (''bubble_out'', JStr ''#89b4fa''), (''bubble_out_fg'', JStr ''#1e1e2e''), (''out_link'', JStr ''#11111b''), (''badge_bg'', JStr ''#89b4fa''),
      (''badge_fg'', JStr ''#11111b''), (''focus'', JStr ''#6c7086''), (''log_text'', JStr ''#cdd6f4''), (''away_bg'', JStr ''#313244''),
      (''away_border'', JStr ''#fab387''), (''away_text'', JStr ''#f9e2af''), (''away_icon'', JStr ''#f9e2af''), (''chip'', JStr ''#313244''),
      (''chip_hover'', JStr ''#45475a''), (''online'', JStr ''#a6e3a1''), (''away'', JStr ''#fab387''), (''offline'', JStr ''#6c7086''),
      (''danger'', JStr ''#f38ba8''), (''link'', JStr ''#89b4fa'')]),
    (''nord'', [
      (''name'', JStr ''Nord''), (''mono'', JBool False), (''bg'', JStr ''#2e3440''), (''header'', JStr ''#242933''),
      (''surface'', JStr ''#2e3440''), (''sidebar'', JStr ''#2e3440''), (''sidebar_hover'', JStr ''#3b4252''),
      (''sidebar_selected'', JStr ''#434c5e''), (''button'', JStr ''#3b4252''), (''button_hover'', JStr ''#434c5e''),
      (''button_active'', JStr ''#4c566a''), (''border'', JStr ''#4c566a''), (''border_dark'', JStr ''#1b1f27''), (''sep'', JStr ''#434c5e''),
      (''text'', JStr ''#eceff4''), (''text2'', JStr ''#e5e9f0''), (''text_bright'', JStr ''#ffffff''), (''muted'', JStr ''#7b8ea1''),
      (''muted2'', JStr ''#9caabb''), (''subtitle'', JStr ''#4c566a''), (''bubble_in'', JStr ''#3b4252''), (''bubble_in_fg'', JStr ''#eceff4''),
      (''bubble_out'', JStr ''#88c0d0''), (''bubble_out_fg'', JStr ''#2e3440''), (''out_link'', JStr ''#2e3440''), (''badge_bg'', JStr ''#88c0d0''),
      (''badge_fg'', JStr ''#2e3440''), (''focus'', JStr ''#4c566a''), (''log_text'', JStr ''#d8dee9''), (''away_bg'', JStr ''#3b4252''),
      (''away_border'', JStr ''#d08770''), (''away_text'', JStr ''#ebcb8b''), (''away_icon'', JStr ''#ebcb8b''), (''chip'', JStr ''#3b4252''),
      (''chip_hover'', JStr ''#434c5e''), (''online'', JStr ''#a3be8c''), (''away'', JStr ''#ebcb8b''), (''offline'', JStr ''#4c566a''),
      (''danger'', JStr ''#bf616a''), (''link'', JStr ''#88c0d0'')]),
    (''tokyo'', [
      (''name'', JStr ''Tokyo Night''), (''mono'', JBool False), (''bg'', JStr ''#1a1b26''), (''header'', JStr ''#16161e''),
      (''surface'', JStr ''#1f2335''), (''sidebar'', JStr ''#1a1b26''), (''sidebar_hover'', JStr ''#24283b''),
      (''sidebar_selected'', JStr ''#292e42''), (''button'', JStr ''#24283b''), (''button_hover'', JStr ''#292e42''),
      (''button_active'', JStr ''#3b4261''), (''border'', JStr ''#3b4261''), (''border_dark'', JStr ''#0f0f14''), (''sep'', JStr ''#292e42''),
      (''text'', JStr ''#c0caf5''), (''text2'', JStr ''#c0caf5''), (''text_bright'', JStr ''#ffffff''), (''muted'', JStr ''#565f89''),
      (''muted2'', JStr ''#737aa2''), (''subtitle'', JStr ''#565f89''), (''bubble_in'', JStr ''#24283b''), (''bubble_in_fg'', JStr ''#c0caf5''),
      (''bubble_out'', JStr ''#7aa2f7''), (''bubble_out_fg'', JStr ''#1a1b26''), (''out_link'', JStr ''#1a1b26''), (''badge_bg'', JStr ''#7aa2f7''),
      (''badge_fg'', JStr ''#1a1b26''), (''focus'', JStr ''#565f89''), (''log_text'', JStr ''#a9b1d6''), (''away_bg'', JStr ''#24283b''),
      (''away_border'', JStr ''#e0af68''), (''away_text'', JStr ''#e0af68''), (''away_icon'', JStr ''#e0af68''), (''chip'', JStr ''#24283b''),
      (''chip_hover'', JStr ''#292e42''), (''online'', JStr ''#9ece6a''), (''away'', JStr ''#e0af68''), (''offline'', JStr ''#414868''),
      (''danger'', JStr ''#f7768e''), (''link'', JStr ''#7aa2f7'')]),
    (''latte'', [
      (''name'', JStr ''Latte (light)''), (''mono'', JBool False), (''bg'', JStr ''#eff1f5''), (''header'', JStr ''#e6e9ef''),
      (''surface'', JStr ''#ffffff''), (''sidebar'', JStr ''#e6e9ef''), (''sidebar_hover'', JStr ''#dce0e8''),
      (''sidebar_selected'', JStr ''#ccd0da''), (''button'', JStr ''#ccd0da''), (''button_hover'', JStr ''#bcc0cc''),
      (''button_active'', JStr ''#acb0be''), (''border'', JStr ''#bcc0cc''), (''border_dark'', JStr ''#dce0e8''), (''sep'', JStr ''#ccd0da''),
      (''text'', JStr ''#4c4f69''), (''text2'', JStr ''#4c4f69''), (''text_bright'', JStr ''#11111b''), (''muted'', JStr ''#7c7f93''),
      (''muted2'', JStr ''#9ca0b0''), (''subtitle'', JStr ''#8c8fa1''), (''bubble_in'', JStr ''#e6e9ef''), (''bubble_in_fg'', JStr ''#4c4f69''),
      (''bubble_out'', JStr ''#1e66f5''), (''bubble_out_fg'', JStr ''#eff1f5''), (''out_link'', JStr ''#eff1f5''), (''badge_bg'', JStr ''#1e66f5''),
      (''badge_fg'', JStr ''#eff1f5''), (''focus'', JStr ''#9ca0b0''), (''log_text'', JStr ''#4c4f69''), (''away_bg'', JStr ''#f2e9de''),
      (''away_border'', JStr ''#df8e1d''), (''away_text'', JStr ''#df8e1d''), (''away_icon'', JStr ''#df8e1d''), (''chip'', JStr ''#e6e9ef''),
      (''chip_hover'', JStr ''#dce0e8''), (''online'', JStr ''#40a02b''), (''away'', JStr ''#df8e1d''), (''offline'', JStr ''#9ca0b0''),
      (''danger'', JStr ''#d20f39''), (''link'', JStr ''#1e66f5'')]),
    (''dawn'', [
      (''name'', JStr ''Dawn (light)''), (''mono'', JBool False), (''bg'', JStr ''#faf4ed''), (''header'', JStr ''#f2e9de''),
      (''surface'', JStr ''#fffaf3''), (''sidebar'', JStr ''#f2e9de''), (''sidebar_hover'', JStr ''#e4dfde''),
      (''sidebar_selected'', JStr ''#dfdad9''), (''button'', JStr ''#e4dfde''), (''button_hover'', JStr ''#dfdad9''),
      (''button_active'', JStr ''#cecacd''), (''border'', JStr ''#cecacd''), (''border_dark'', JStr ''#e4dfde''), (''sep'', JStr ''#dfdad9''),
      (''text'', JStr ''#575279''), (''text2'', JStr ''#575279''), (''text_bright'', JStr ''#26233a''), (''muted'', JStr ''#9893a5''),
      (''muted2'', JStr ''#797593''), (''subtitle'', JStr ''#9893a5''), (''bubble_in'', JStr ''#f2e9de''), (''bubble_in_fg'', JStr ''#575279''),
      (''bubble_out'', JStr ''#907aa9''), (''bubble_out_fg'', JStr ''#faf4ed''), (''out_link'', JStr ''#faf4ed''), (''badge_bg'', JStr ''#907aa9''),
      (''badge_fg'', JStr ''#faf4ed''), (''focus'', JStr ''#9893a5''), (''log_text'', JStr ''#575279''), (''away_bg'', JStr ''#f4ede8''),
      (''away_border'', JStr ''#ea9d34''), (''away_text'', JStr ''#ea9d34''), (''away_icon'', JStr ''#ea9d34''), (''chip'', JStr ''#f2e9de''),
      (''chip_hover'', JStr ''#e4dfde''), (''online'', JStr ''#56949f''), (''away'', JStr ''#ea9d34''), (''offline'', JStr ''#9893a5''),
      (''danger'', JStr ''#b4637a''), (''link'', JStr ''#907aa9'')]),
    (''matrix'', [
      (''name'', JStr ''Matrix''), (''mono'', JBool True), (''bg'', JStr ''#000000''), (''header'', JStr ''#001100''),
      (''surface'', JStr ''#001a0d''), (''sidebar'', JStr ''#001100''), (''sidebar_hover'', JStr ''#032006''),
      (''sidebar_selected'', JStr ''#063a0d''), (''button'', JStr ''#03310f''), (''button_hover'', JStr ''#064a15''),
      (''button_active'', JStr ''#0a5a1e''), (''border'', JStr ''#0a5a1e''), (''border_dark'', JStr ''#001100''), (''sep'', JStr ''#03310f''),
      (''text'', JStr ''#b8ffb8''), (''text2'', JStr ''#b8ffb8''), (''text_bright'', JStr ''#e8ffe8''), (''muted'', JStr ''#0a8a2a''),
      (''muted2'', JStr ''#0a8a2a''), (''subtitle'', JStr ''#0a8a2a''), (''bubble_in'', JStr ''#071f0d''), (''bubble_in_fg'', JStr ''#b8ffb8''),
      (''bubble_out'', JStr ''#00ff41''), (''bubble_out_fg'', JStr ''#001100''), (''out_link'', JStr ''#00260a''), (''badge_bg'', JStr ''#00ff41''),
      (''badge_fg'', JStr ''#001100''), (''focus'', JStr ''#0a8a2a''), (''log_text'', JStr ''#00c22e''), (''away_bg'', JStr ''#1a1200''),
      (''away_border'', JStr ''#ffb000''), (''away_text'', JStr ''#ffb000''), (''away_icon'', JStr ''#ffb000''), (''chip'', JStr ''#03310f''),
      (''chip_hover'', JStr ''#064a15''), (''online'', JStr ''#00ff41''), (''away'', JStr ''#ffb000''), (''offline'', JStr ''#1f5a1f''),
      (''danger'', JStr ''#ff2a2a''), (''link'', JStr ''#39ff88'')]),
    (''amber'', [
      (''name'', JStr ''Amber CRT''), (''mono'', JBool True), (''bg'', JStr ''#0a0700''), (''header'', JStr ''#120d00''),
      (''surface'', JStr ''#1a1200''), (''sidebar'', JStr ''#120d00''), (''sidebar_hover'', JStr ''#241a00''),
      (''sidebar_selected'', JStr ''#332500''), (''button'', JStr ''#241a00''), (''button_hover'', JStr ''#332500''),
      (''button_active'', JStr ''#4a3600''), (''border'', JStr ''#5a4200''), (''border_dark'', JStr ''#120d00''), (''sep'', JStr ''#332500''),
      (''text'', JStr ''#ffc95c''), (''text2'', JStr ''#ffc95c''), (''text_bright'', JStr ''#ffe9b0''), (''muted'', JStr ''#a8791f''),
      (''muted2'', JStr ''#a8791f''), (''subtitle'', JStr ''#a8791f''), (''bubble_in'', JStr ''#241a00''), (''bubble_in_fg'', JStr ''#ffc95c''),
      (''bubble_out'', JStr ''#ffb000''), (''bubble_out_fg'', JStr ''#1a1200''), (''out_link'', JStr ''#4a3000''), (''badge_bg'', JStr ''#ffb000''),
      (''badge_fg'', JStr ''#1a1200''), (''focus'', JStr ''#a8791f''), (''log_text'', JStr ''#d9a23a''), (''away_bg'', JStr ''#241a00''),
      (''away_border'', JStr ''#ffb000''), (''away_text'', JStr ''#ffe9b0''), (''away_icon'', JStr ''#ffb000''), (''chip'', JStr ''#241a00''),
      (''chip_hover'', JStr ''#332500''), (''online'', JStr ''#ffb000''), (''away'', JStr ''#ff8c00''), (''offline'', JStr ''#5a4200''),
      (''danger'', JStr ''#ff5544''), (''link'', JStr ''#ffd27f'')])]"

abbreviation theme_names :: "string list" where
  "theme_names \<equiv> map fst THEMES"

definition THEME_ENTRIES :: "string list" where
  "THEME_ENTRIES = [''system'', ''dark'', ''mocha'', ''nord'', ''tokyo'', ''latte'', ''dawn'', ''matrix'', ''amber'']"

text \<open>The desktop's theme name and its wish for a dark one; \<open>None\<close> when they cannot be read.\<close>

fun contains :: "string \<Rightarrow> string \<Rightarrow> bool" where
  "contains w [] = (w = [])"
| "contains w (c # s) = (prefix w (c # s) \<or> contains w s)"

definition detect_system_palette :: "(string \<times> bool) option \<Rightarrow> string" where
  "detect_system_palette desktop =
     (case desktop of
        None \<Rightarrow> ''dark''
      | Some (name, prefer_dark) \<Rightarrow>
          if prefer_dark \<or> list_ex (\<lambda>k. contains k (map ascii_lower name)) [''dark'', ''black'', ''night'', ''midnight'']
          then ''dark'' else ''latte'')"

definition get_theme :: "(string \<times> bool) option \<Rightarrow> string \<Rightarrow> (string, json) dict" where
  "get_theme desktop name =
     the (dict_get THEMES (if name = ''system'' \<or> name \<notin> set theme_names then detect_system_palette desktop else name))"

text \<open>The name \<open>apply_theme\<close> settles on, and what a change of the desktop's theme does.\<close>

definition theme_choice :: "pyenv \<Rightarrow> string \<Rightarrow> string" where
  "theme_choice e name =
     (let chosen = (case environ e ''AIMLESS_THEME'' of Some v \<Rightarrow> if v \<in> set theme_names \<or> v = ''system'' then v else name | None \<Rightarrow> name)
      in if chosen \<noteq> ''system'' \<and> chosen \<notin> set theme_names then ''system'' else chosen)"

record theme_state =
  ts_current :: string
  ts_palette :: "(string, json) dict"

definition set_theme :: "(string \<times> bool) option \<Rightarrow> string \<Rightarrow> theme_state \<Rightarrow> theme_state" where
  "set_theme desktop name ts = ts\<lparr>ts_current := name, ts_palette := get_theme desktop name\<rparr>"

definition initial_theme :: "pyenv \<Rightarrow> (string \<times> bool) option \<Rightarrow> theme_state" where
  "initial_theme e desktop =
     (let name = (case environ e ''AIMLESS_THEME'' of Some v \<Rightarrow> if v \<in> set theme_names \<or> v = ''system'' then v else ''system'' | None \<Rightarrow> ''system'')
      in \<lparr>ts_current = name, ts_palette = get_theme desktop name\<rparr>)"

definition apply_theme :: "pyenv \<Rightarrow> (string \<times> bool) option \<Rightarrow> string \<Rightarrow> theme_state \<Rightarrow> theme_state" where
  "apply_theme e desktop name ts = set_theme desktop (theme_choice e name) ts"

definition on_system_theme :: "pyenv \<Rightarrow> (string \<times> bool) option \<Rightarrow> theme_state \<Rightarrow> theme_state" where
  "on_system_theme e desktop ts = (if ts_current ts = ''system'' then apply_theme e desktop ''system'' ts else ts)"

section \<open>The saved geometry\<close>

text \<open>What the window reports: its size, its position and, if it is realised, whether it is maximised.\<close>

record geometry =
  g_size :: "int \<times> int"
  g_position :: "int \<times> int"
  g_maximized :: "bool option"

definition default_size :: "(string, json) dict \<Rightarrow> json \<times> json" where
  "default_size prefs =
     (case dict_get prefs ''window_width'' of Some x \<Rightarrow> x | None \<Rightarrow> JInt 1008,
      case dict_get prefs ''window_height'' of Some x \<Rightarrow> x | None \<Rightarrow> JInt 723)"

definition save_geometry :: "pyenv \<Rightarrow> geometry \<Rightarrow> (string, json) dict \<Rightarrow> fs \<Rightarrow> (string, json) dict \<times> fs" where
  "save_geometry e g prefs s =
     (let p1 = dict_set ''window_height'' (JInt (snd (g_size g))) (dict_set ''window_width'' (JInt (fst (g_size g))) prefs);
          p2 = (if json_truthy (pref p1 ''remember_position'')
            then let pos = (if g_position g = (0, 0) then p1
                       else dict_set ''window_y'' (JInt (snd (g_position g))) (dict_set ''window_x'' (JInt (fst (g_position g))) p1))
                 in case g_maximized g of Some b \<Rightarrow> dict_set ''window_maximized'' (JBool b) pos | None \<Rightarrow> pos
            else p1)
      in (p2, save_prefs e p2 s))"

text \<open>\<open>isinstance(x, int)\<close> holds of booleans, too.\<close>

fun as_int :: "json option \<Rightarrow> int option" where
  "as_int (Some (JInt i)) = Some i"
| "as_int (Some (JBool b)) = Some (if b then 1 else 0)"
| "as_int _ = None"

text \<open>The position the window is moved to, and whether it is maximised.\<close>

definition apply_saved_position ::
  "(int \<times> int) \<Rightarrow> (int \<times> int \<times> int \<times> int) list \<Rightarrow> (string, json) dict \<Rightarrow> (int \<times> int) option \<times> bool" where
  "apply_saved_position sz areas prefs =
     (case (as_int (dict_get prefs ''window_x''), as_int (dict_get prefs ''window_y'')) of
        (Some x, Some y) \<Rightarrow> if (x, y) = (0, 0) then None else Some (clamp_to_workarea x y (fst sz) (snd sz) areas 40)
      | _ \<Rightarrow> None,
      truthy_field prefs ''window_maximized'')"

definition restore_geometry ::
  "(int \<times> int) \<Rightarrow> (int \<times> int \<times> int \<times> int) list \<Rightarrow> (string, json) dict \<Rightarrow> (int \<times> int) option \<times> bool" where
  "restore_geometry sz areas prefs =
     (if json_truthy (pref prefs ''remember_position'') then apply_saved_position sz areas prefs else (None, False))"

definition reset_geometry :: "pyenv \<Rightarrow> (string, json) dict \<Rightarrow> fs \<Rightarrow> (string, json) dict \<times> fs" where
  "reset_geometry e prefs s =
     (let p = dict_del ''window_maximized'' (dict_del ''window_y'' (dict_del ''window_x'' prefs)) in (p, save_prefs e p s))"

text \<open>
  The geometry is saved a second after the first of a burst of changes; while it is being
  restored, changes are ignored.
\<close>

record geo_timer =
  gt_armed :: bool
  gt_restoring :: bool

definition on_configure :: "geo_timer \<Rightarrow> geo_timer" where
  "on_configure t = (if gt_restoring t then t else t\<lparr>gt_armed := True\<rparr>)"

definition save_geometry_now :: "pyenv \<Rightarrow> geometry \<Rightarrow> geo_timer \<Rightarrow> (string, json) dict \<Rightarrow> fs \<Rightarrow> geo_timer \<times> (string, json) dict \<times> fs" where
  "save_geometry_now e g t prefs s = (t\<lparr>gt_armed := False\<rparr>, save_geometry e g prefs s)"

section \<open>The preferences dialog\<close>

definition on_toggle :: "pyenv \<Rightarrow> string \<Rightarrow> bool \<Rightarrow> (string, json) dict \<Rightarrow> fs \<Rightarrow> (string, json) dict \<times> fs" where
  "on_toggle e key active prefs s =
     (let p1 = dict_set key (JBool active) prefs;
          (p2, s2) = (if key = ''remember_position'' \<and> \<not> active then reset_geometry e p1 s else (p1, s))
      in (p2, save_prefs e p2 s2))"

text \<open>The choices of the combo boxes; no active entry is \<open>None\<close>.\<close>

definition set_choice :: "pyenv \<Rightarrow> string \<Rightarrow> string \<Rightarrow> string option \<Rightarrow> (string, json) dict \<Rightarrow> fs \<Rightarrow> (string, json) dict \<times> fs" where
  "set_choice e key fallback active prefs s =
     (let p = dict_set key (JStr (case active of Some v \<Rightarrow> if v = [] then fallback else v | None \<Rightarrow> fallback)) prefs
      in (p, save_prefs e p s))"

definition on_snd :: "pyenv \<Rightarrow> string option \<Rightarrow> (string, json) dict \<Rightarrow> fs \<Rightarrow> (string, json) dict \<times> fs" where
  "on_snd e = set_choice e ''notification_sound'' ''single''"

definition on_fmt :: "pyenv \<Rightarrow> string option \<Rightarrow> (string, json) dict \<Rightarrow> fs \<Rightarrow> (string, json) dict \<times> fs" where
  "on_fmt e = set_choice e ''time_format'' ''24h''"

definition on_theme ::
  "pyenv \<Rightarrow> (string \<times> bool) option \<Rightarrow> string option \<Rightarrow> (string, json) dict \<Rightarrow> fs \<Rightarrow> theme_state \<Rightarrow> ((string, json) dict \<times> fs) \<times> theme_state" where
  "on_theme e desktop active prefs s ts =
     (set_choice e ''theme'' ''system'' active prefs s,
      apply_theme e desktop (case active of Some v \<Rightarrow> if v = [] then ''system'' else v | None \<Rightarrow> ''system'') ts)"

text \<open>\<open>on_composer_key\<close>: whether a key sends the message; other keys are left to the text view.\<close>

definition on_composer_key :: "(string, json) dict \<Rightarrow> bool \<Rightarrow> bool \<Rightarrow> bool \<Rightarrow> bool" where
  "on_composer_key prefs is_enter shift ctrl =
     (if \<not> is_enter then False
      else let enter_sends = json_truthy (pref prefs ''enter_to_send'')
           in enter_sends \<and> \<not> shift \<or> \<not> enter_sends \<and> ctrl)"

section \<open>Asking for secrets\<close>

datatype response = RespOk | RespCancel | RespApply

definition ask_secret :: "response \<Rightarrow> string \<Rightarrow> string option \<Rightarrow> string option \<times> string option" where
  "ask_secret resp pw confirm =
     (let conf = (case confirm of Some c \<Rightarrow> c | None \<Rightarrow> pw)
      in if resp \<noteq> RespOk then (None, None)
         else if pw = [] then (None, Some ''Passphrase must not be empty.'')
         else if pw \<noteq> conf then (None, Some ''Passphrases do not match.'')
         else (Some pw, None))"

definition ask_passphrase :: "response \<Rightarrow> string \<Rightarrow> string option" where
  "ask_passphrase resp entry = (if resp = RespOk \<and> entry \<noteq> [] then Some entry else None)"

datatype create_answer = CreateCancelled | CreateMismatch | CreateImport | CreateWith string string

definition ask_create_identity :: "response \<Rightarrow> string \<Rightarrow> string \<Rightarrow> string \<Rightarrow> create_answer" where
  "ask_create_identity resp p1 p2 sn =
     (if resp = RespApply then CreateImport
      else if resp \<noteq> RespOk \<or> p1 = [] then CreateCancelled
      else if p1 \<noteq> p2 then CreateMismatch
      else CreateWith p1 sn)"

definition ask_text :: "response \<Rightarrow> string \<Rightarrow> string option" where
  "ask_text resp entry = (if resp = RespOk then Some entry else None)"

section \<open>Keys and identity\<close>

text \<open>
  The state the dialog works on: the supervisor and the machine, the session, the labels of the dialog and
  the message dialogs shown, with how often the list of conversations was synchronised. What the daemon answers
  after a restart is \<open>kv_req\<close>; \<open>kv_writable\<close> is whether the node key can be
  written.
\<close>

record keys_env =
  kv_nacl :: nacl
  kv_env :: pyenv
  kv_iv :: invocation
  kv_daemons :: daemons
  kv_sup_env :: sup_env
  kv_pids :: "int list"
  kv_req :: "unit request_fn"
  kv_writable :: bool

record keys_state =
  kx_sup :: supervisor
  kx_host :: host
  kx_session :: session
  kx_node_entry :: string
  kx_node_preview :: string
  kx_node_status :: string
  kx_id_warn :: string
  kx_bk_status :: string
  kx_dialogs :: "(string \<times> string) list"
  kx_synced :: nat

definition keys_dialog :: "string \<Rightarrow> string \<Rightarrow> keys_state \<Rightarrow> keys_state" where
  "keys_dialog title body k = k\<lparr>kx_dialogs := kx_dialogs k @ [(title, body)]\<rparr>"

definition keys_restart :: "keys_env \<Rightarrow> keys_state \<Rightarrow> keys_state" where
  "keys_restart v k =
     (case restart_daemon (kv_env v) (kv_iv v) (kv_daemons v) (kv_sup_env v) (kv_pids v) (kx_sup k) (kx_host k) of
        (s, h) \<Rightarrow> k\<lparr>kx_sup := s, kx_host := h\<rparr>)"

text \<open>The node key is read again after the restart; a failure is ignored.\<close>

definition keys_reload :: "keys_env \<Rightarrow> keys_state \<Rightarrow> keys_state" where
  "keys_reload v k =
     (let k1 = keys_restart v k;
          k2 = (case fst (refresh_node (kv_req v) (kx_session k1) ()) of Ok s \<Rightarrow> k1\<lparr>kx_session := s\<rparr> | Err _ \<Rightarrow> k1)
      in k2\<lparr>kx_synced := kx_synced k2 + 1\<rparr>)"

definition set_keys_fs :: "fs \<Rightarrow> keys_state \<Rightarrow> keys_state" where
  "set_keys_fs f k = k\<lparr>kx_host := (kx_host k)\<lparr>hfs := f\<rparr>\<rparr>"

definition apply_node_seed :: "keys_env \<Rightarrow> bytes \<Rightarrow> keys_state \<Rightarrow> keys_state res" where
  "apply_node_seed v seed k =
     (if \<not> kv_writable v then Err (OSError ''node.key'')
      else Ok (keys_reload v (set_keys_fs (snd (write_node_key (daemon_dir (kv_env v)) seed (hfs (kx_host k)))) k)))"

definition node_key_address :: "keys_env \<Rightarrow> string \<Rightarrow> (bytes \<times> bytes \<times> string) res" where
  "node_key_address v entry =
     bind_res (parse_node_key (kv_nacl v) entry) (\<lambda>(seed, pub).
     bind_res (yggdrasil_address pub) (\<lambda>addr. Ok (seed, pub, addr)))"

definition preview_node :: "keys_env \<Rightarrow> keys_state \<Rightarrow> keys_state" where
  "preview_node v k =
     (case node_key_address v (kx_node_entry k) of
        Err ex \<Rightarrow> k\<lparr>kx_node_preview := ''error: '' @ exn_str ex\<rparr>
      | Ok (_, pub, addr) \<Rightarrow> k\<lparr>kx_node_preview := ''address: '' @ addr @ [CHR 0x0A] @ ''pubkey: '' @ bytes_hex pub\<rparr>)"

definition apply_node :: "keys_env \<Rightarrow> bool \<Rightarrow> keys_state \<Rightarrow> keys_state" where
  "apply_node v confirmed k =
     (case node_key_address v (kx_node_entry k) of
        Err ex \<Rightarrow> k\<lparr>kx_node_preview := ''error: '' @ exn_str ex\<rparr>
      | Ok (seed, _, addr) \<Rightarrow>
          if \<not> confirmed then k
          else case apply_node_seed v seed k of
                 Err ex \<Rightarrow> keys_dialog ''Could not write node key'' (exn_str ex) k
               | Ok k1 \<Rightarrow> keys_dialog ''Node key applied'' (''Your address is now '' @ addr @ ''.'') (k1\<lparr>kx_node_status := ''current: '' @ addr\<rparr>))"

definition gen_node :: "keys_env \<Rightarrow> bytes \<Rightarrow> keys_state \<Rightarrow> keys_state res" where
  "gen_node v fresh k =
     bind_res (random_node_key (kv_nacl v) fresh) (\<lambda>(seed_hex, addr).
       Ok (k\<lparr>kx_node_entry := seed_hex, kx_node_preview := ''address: '' @ addr\<rparr>))"

text \<open>The address the daemon reports, as the label shows it.\<close>

definition current_address :: "keys_env \<Rightarrow> keys_state \<Rightarrow> string" where
  "current_address v k =
     (case sup_status (kv_daemons v) (kx_sup k) (kx_host k) of
        None \<Rightarrow> ''current: ?''
      | Some st \<Rightarrow> ''current: '' @ (case dict_get st ''address'' of Some a \<Rightarrow> py_str a | None \<Rightarrow> ''?''))"

definition reset_node :: "keys_env \<Rightarrow> bool \<Rightarrow> keys_state \<Rightarrow> keys_state" where
  "reset_node v confirmed k =
     (if \<not> confirmed then k
      else let k1 = keys_reload v (set_keys_fs (remove_node_key (daemon_dir (kv_env v)) (hfs (kx_host k))) k)
           in k1\<lparr>kx_node_status := current_address v k1\<rparr>)"

text \<open>The passphrase of the running application, \<open>None\<close> without one.\<close>

definition import_identity ::
  "keys_env \<Rightarrow> string \<Rightarrow> bool \<Rightarrow> string option \<Rightarrow> bytes \<Rightarrow> nat \<Rightarrow> keys_state \<Rightarrow> keys_state" where
  "import_identity v entry confirmed app_pw slt d k =
     (case bind_res (fromhex (py_strip entry)) (\<lambda>seed. if length seed \<noteq> 32 then Err (ValueError []) else Ok seed) of
        Err ex \<Rightarrow> k\<lparr>kx_id_warn := ''error: expected a 64-hex identity seed''\<rparr>
      | Ok seed \<Rightarrow>
          if \<not> confirmed then k
          else case app_pw of
                 Some (c # cs) \<Rightarrow>
                   keys_dialog ''Identity written'' ''Quit and reopen aimless to use the new identity.''
                     (set_keys_fs (save_identity (kv_nacl v) (identity_path (kv_env v)) seed (c # cs) slt d (hfs (kx_host k))) k)
               | _ \<Rightarrow> keys_dialog ''Passphrase unavailable'' ''Reopen aimless to import an identity.'' k)"

definition export_backup ::
  "keys_env \<Rightarrow> string option \<Rightarrow> response \<Rightarrow> string option \<Rightarrow> bytes \<Rightarrow> nat \<Rightarrow> keys_state \<Rightarrow> keys_state res" where
  "export_backup v pw resp path slt d k =
     (case (pw, path) of
        (Some p, Some (c # cs)) \<Rightarrow>
          if resp \<noteq> RespOk then Ok k
          else (case export_backup_to (kv_nacl v) (kv_env v) (c # cs) p slt d (kx_session k) (hfs (kx_host k)) of
                  (Ok _, f) \<Rightarrow> Ok (keys_dialog ''Backup written'' (c # cs)
                      ((set_keys_fs f k)\<lparr>kx_bk_status := ''backup written to '' @ c # cs\<rparr>))
                | (Err ex, f) \<Rightarrow>
                    if is_OSError ex \<or> is_ValueError ex
                    then Ok (keys_dialog ''Backup failed'' (exn_str ex) ((set_keys_fs f k)\<lparr>kx_bk_status := ''backup failed: '' @ exn_str ex\<rparr>))
                    else Err ex)
      | _ \<Rightarrow> Ok k)"

text \<open>
  \<open>import_backup\<close>: the bundle is opened and checked for the question, then restored.
\<close>

definition bundle_seed :: "nacl \<Rightarrow> string \<Rightarrow> string \<Rightarrow> fs \<Rightarrow> json res" where
  "bundle_seed N path pw f =
     bind_res (load_bundle N path pw f) (\<lambda>data.
     bind_res (bind_res (get_default data ''identitySeed'' (JStr [])) fromhex_json) (\<lambda>seed.
       if length seed \<noteq> 32 then Err (ValueError ''missing identity seed'') else Ok data))"

definition import_backup ::
  "keys_env \<Rightarrow> response \<Rightarrow> string option \<Rightarrow> string option \<Rightarrow> bool \<Rightarrow> string option \<Rightarrow> bytes \<Rightarrow> nat \<Rightarrow> keys_state \<Rightarrow> keys_state res" where
  "import_backup v resp path pw confirmed app_pw slt d k =
     (case (path, pw) of
        (Some (c # cs), Some p) \<Rightarrow>
          if resp \<noteq> RespOk then Ok k
          else (case bundle_seed (kv_nacl v) (c # cs) p (hfs (kx_host k)) of
                  Err ex \<Rightarrow>
                    if is_ValueError ex \<or> is_OSError ex \<or> is_KeyError ex
                    then Ok (keys_dialog ''Import failed'' (exn_str ex) (k\<lparr>kx_bk_status := ''import failed: '' @ exn_str ex\<rparr>))
                    else Err ex
                | Ok data \<Rightarrow>
                    if \<not> confirmed then Ok k
                    else (case app_pw of
                            Some (a # as) \<Rightarrow>
                              (case restore_bundle (kv_nacl v) (kv_env v) (c # cs) p (a # as) slt d (hfs (kx_host k)) of
                                 (Err ex, f) \<Rightarrow>
                                   if is_ValueError ex \<or> is_OSError ex
                                   then Ok (keys_dialog ''Restore failed'' (exn_str ex) ((set_keys_fs f k)\<lparr>kx_bk_status := ''restore failed: '' @ exn_str ex\<rparr>))
                                   else Err ex
                               | (Ok _, f) \<Rightarrow>
                                   Ok (keys_dialog ''Backup restored'' ''Quit and reopen aimless to use the restored identity.''
                                     (keys_restart v (set_keys_fs f k))))
                          | _ \<Rightarrow> Ok (keys_dialog ''Passphrase unavailable'' ''Reopen aimless to import a backup.'' k)))
      | _ \<Rightarrow> Ok k)"

text \<open>\<open>_import_backup_on_init\<close>: the new passphrase on success, and the error shown otherwise.\<close>

definition import_backup_on_init ::
  "keys_env \<Rightarrow> response \<Rightarrow> string option \<Rightarrow> string option \<Rightarrow> string option \<Rightarrow> bytes \<Rightarrow> nat \<Rightarrow> supervisor \<times> host \<Rightarrow>
   (string option \<times> string option) res \<times> supervisor \<times> host" where
  "import_backup_on_init v resp path bundle_pw app_pw slt d = (\<lambda>(s, h).
     case (path, bundle_pw, app_pw) of
        (Some (c # cs), Some bp, Some ap) \<Rightarrow>
          if resp \<noteq> RespOk \<or> bp = [] \<or> ap = [] then (Ok (None, None), s, h)
          else (case restore_bundle (kv_nacl v) (kv_env v) (c # cs) bp ap slt d (hfs h) of
                  (Err ex, f) \<Rightarrow>
                    if is_ValueError ex \<or> is_OSError ex \<or> is_KeyError ex
                    then (Ok (None, Some (''Import failed: '' @ exn_str ex)), s, h\<lparr>hfs := f\<rparr>)
                    else (Err ex, s, h\<lparr>hfs := f\<rparr>)
                | (Ok _, f) \<Rightarrow>
                    (case restart_daemon (kv_env v) (kv_iv v) (kv_daemons v) (kv_sup_env v) (kv_pids v) s (h\<lparr>hfs := f\<rparr>) of
                       (s1, h1) \<Rightarrow>
                         if \<not> sup_is_running (kv_daemons v) s1 h1
                         then (Ok (None, Some ''Imported, but the daemon did not restart. Quit aimless and reopen.''), s1, h1)
                         else (Ok (Some ap, None), s1, h1)))
      | _ \<Rightarrow> (Ok (None, None), s, h))"

section \<open>Attachments\<close>

record attachment_view =
  av_name :: json
  av_picture :: bool
  av_size :: string
  av_open :: bool

text \<open>\<open>loadable\<close> is whether the picture can be loaded. A size that is no integer raises.\<close>

definition render_attachment_box :: "fs \<Rightarrow> bool \<Rightarrow> (string, json) dict \<Rightarrow> attachment_view res" where
  "render_attachment_box f loadable att =
     (let field = (\<lambda>k d. case dict_get att k of Some x \<Rightarrow> x | None \<Rightarrow> d)
      in bind_res (dict_key (field ''path'' (JStr []))) (\<lambda>path.
         bind_res (case field ''size'' (JInt 0) of JInt n \<Rightarrow> Ok (if n < 0 then int_str n @ '' B'' else human_size (nat n))
                   | _ \<Rightarrow> Err (TypeError ''size'')) (\<lambda>sz.
           Ok \<lparr>av_name = field ''filename'' (JStr ''file''),
               av_picture = (field ''mime_hint'' (JStr []) = JStr ''image'' \<and> os_exists path f \<and> loadable),
               av_size = sz, av_open = os_exists path f\<rparr>)))"

text \<open>\<open>shutil.copyfile\<close> raises when the source is missing and when it is the destination. The line is logged.\<close>

definition on_save_attachment :: "string \<Rightarrow> string \<Rightarrow> response \<Rightarrow> string option \<Rightarrow> fs \<Rightarrow> string option \<times> fs" where
  "on_save_attachment path filename resp dest f =
     (case dest of
        Some (c # cs) \<Rightarrow>
          if resp \<noteq> RespOk then (None, f)
          else (case os_read path f of
                  Err ex \<Rightarrow> (Some (''save failed: '' @ exn_str ex), f)
                | Ok bs \<Rightarrow>
                    if c # cs = path then (Some ''save failed: same file'', f)
                    else (Some (''saved '' @ filename), write_file (c # cs) bs f))
      | _ \<Rightarrow> (None, f))"

section \<open>A new room\<close>

text \<open>
  \<open>on_new_room\<close>: the check boxes are kept by node, so the later of two contacts with the same node
  takes the place of the earlier one. \<open>ticked\<close> is which petnames are ticked.
\<close>

datatype room_answer = RoomLog string | RoomNote string | RoomCancelled | RoomWith "json list"

definition room_checks :: "(string, json) dict \<Rightarrow> (string, string \<times> json) dict res" where
  "room_checks contacts =
     bind_res (traverse_res (\<lambda>(petname, info). bind_res (bind_res (json_item info ''node'') dict_key) (\<lambda>n. Ok (n, petname, info)))
       (sort_key fst contacts)) (\<lambda>rows. Ok (fold (\<lambda>(n, x) d. dict_set n x d) rows []))"

definition on_new_room :: "response \<Rightarrow> (string \<Rightarrow> bool) \<Rightarrow> (string, json) dict \<Rightarrow> room_answer res" where
  "on_new_room resp ticked contacts =
     (if length contacts < 2 then Ok (RoomLog ''a room needs at least two buddies - add more people first'')
      else
        bind_res (room_checks contacts) (\<lambda>checks.
          let chosen = map (\<lambda>(_, _, info). info) (filter (\<lambda>(_, p, _). ticked p) checks)
          in Ok (if resp \<noteq> RespOk then RoomCancelled
                 else if length chosen < 2 then RoomNote ''a room needs at least two buddies''
                 else RoomWith chosen)))"

section \<open>Correctness\<close>

lemma load_saved_prefs: "valid_json (JObj p) \<Longrightarrow> load_prefs e (save_prefs e p s) = JObj p"
  by (simp add: load_prefs_def save_prefs_def write_file_read json_loads_bytes_dumps_indent del: valid_json.simps)

lemmas valid_prefs = valid_json_set valid_json_del valid_str_lit

lemma theme_names: "theme_names = tl THEME_ENTRIES"
  by (simp add: THEMES_def THEME_ENTRIES_def)

lemma theme_choice_known: "theme_choice e name \<in> set THEME_ENTRIES"
  unfolding theme_choice_def theme_names by (auto simp: THEME_ENTRIES_def Let_def split: option.split)

lemma get_theme_known: "\<exists>name. (name, get_theme desktop n) \<in> set THEMES"
proof -
  have member: "(name, the (dict_get THEMES name)) \<in> set THEMES" if "name \<in> set theme_names" for name
    using that by (metis map_of_SomeD map_of_eq_None_iff not_None_eq option.sel set_map)
  have "detect_system_palette desktop \<in> set theme_names"
    unfolding theme_names by (auto simp: detect_system_palette_def THEME_ENTRIES_def split: option.split)
  define n' where "n' = (if n = ''system'' \<or> n \<notin> set theme_names then detect_system_palette desktop else n)"
  with \<open>detect_system_palette desktop \<in> set theme_names\<close> have "n' \<in> set theme_names" by simp
  from member [OF this] have "(n', get_theme desktop n) \<in> set THEMES" by (simp only: get_theme_def n'_def)
  then show ?thesis ..
qed

text \<open>The colour of a key in markup: the palettes give it as a text.\<close>

definition palette_colour :: "(string, json) dict \<Rightarrow> string \<Rightarrow> string" where
  "palette_colour p k = (case dict_get p k of Some v \<Rightarrow> py_str v | None \<Rightarrow> [])"

lemma themes_no_markup: "list_all (\<lambda>(_, p). list_all (\<lambda>(_, v). CHR ''<'' \<notin> set (py_str v)) p) THEMES"
  by code_simp

text \<open>
  Every palette the window can use defines every colour the markup asks for, and none of its
  values can put a tag into markup.
\<close>

theorem palettes_fit:
  "markup_free (palette_colour (get_theme desktop n)) \<and>
   list_all (\<lambda>k. dict_get (get_theme desktop n) k \<noteq> None) [''online'', ''away'', ''offline'', ''muted'', ''muted2'', ''subtitle'', ''danger'', ''link'']"
proof -
  obtain name where mem: "(name, get_theme desktop n) \<in> set THEMES" using get_theme_known by blast
  have "list_all (\<lambda>(_, p). list_all (\<lambda>k. dict_get p k \<noteq> None)
      [''online'', ''away'', ''offline'', ''muted'', ''muted2'', ''subtitle'', ''danger'', ''link'']) THEMES" by code_simp
  with mem have "list_all (\<lambda>k. dict_get (get_theme desktop n) k \<noteq> None)
      [''online'', ''away'', ''offline'', ''muted'', ''muted2'', ''subtitle'', ''danger'', ''link'']"
    unfolding list_all_iff [of _ THEMES] by blast
  moreover have "CHR ''<'' \<notin> set (palette_colour (get_theme desktop n) k)" for k
  proof (cases "dict_get (get_theme desktop n) k")
    case (Some v)
    then have "(k, v) \<in> set (get_theme desktop n)" by (rule map_of_SomeD)
    with themes_no_markup mem Some show ?thesis unfolding palette_colour_def list_all_iff by fastforce
  qed (simp add: palette_colour_def)
  ultimately show ?thesis by (simp add: markup_free_def)
qed

lemma save_geometry_valid: "valid_json (JObj prefs) \<Longrightarrow> valid_json (JObj (fst (save_geometry e g prefs s)))"
  by (auto simp: save_geometry_def Let_def valid_prefs simp del: valid_json.simps(3) split: option.split)

lemma save_geometry_get:
  assumes "json_truthy (pref prefs ''remember_position'')"
  shows "dict_get (fst (save_geometry e g prefs s)) k =
    (if k = ''window_maximized'' \<and> g_maximized g \<noteq> None then Some (JBool (the (g_maximized g)))
     else if k = ''window_x'' \<and> g_position g \<noteq> (0, 0) then Some (JInt (fst (g_position g)))
     else if k = ''window_y'' \<and> g_position g \<noteq> (0, 0) then Some (JInt (snd (g_position g)))
     else if k = ''window_width'' then Some (JInt (fst (g_size g)))
     else if k = ''window_height'' then Some (JInt (snd (g_size g)))
     else dict_get prefs k)"
  using assms by (auto simp: save_geometry_def Let_def pref_def dict_get_set split: option.splits)

text \<open>
  C39: what is saved of the window comes back: the preferences read from disk are the ones that were saved,
  the size is the default size of the next window, and the next window is moved to the
  saved position, exactly if that is visible on some monitor and clamped otherwise, and is maximised
  if it was. Turning the memory off forgets the position, but not the size.
\<close>

theorem geometry_roundtrip:
  assumes "valid_json (JObj prefs)" "json_truthy (pref prefs ''remember_position'')"
    and "g = \<lparr>g_size = (w, h), g_position = (x, y), g_maximized = Some b\<rparr>" "(x, y) \<noteq> (0, 0)"
    and "save_geometry e g prefs s = (p1, s1)" "on_toggle e ''remember_position'' False p1 s1 = (p2, s2)"
  shows "load_prefs e s1 = JObj p1 \<and> default_size p1 = (JInt w, JInt h) \<and>
    restore_geometry (w, h) areas p1 = (Some (clamp_to_workarea x y w h areas 40), b) \<and>
    (if list_ex (on_area 40 x y w h) areas then clamp_to_workarea x y w h areas 40 = (x, y) else True) \<and>
    load_prefs e s2 = JObj p2 \<and> restore_geometry (w, h) areas p2 = (None, False) \<and> default_size p2 = (JInt w, JInt h)"
proof -
  have p1: "p1 = fst (save_geometry e g prefs s)" and s1: "s1 = save_prefs e p1 s"
    using assms(5) by (auto simp: save_geometry_def Let_def)
  have v1: "valid_json (JObj p1)" unfolding p1 by (rule save_geometry_valid [OF assms(1)])
  note get1 = save_geometry_get [OF assms(2), of e g s, folded p1]
  have rem: "json_truthy (pref p1 ''remember_position'')" using assms(2) by (simp add: pref_def get1)
  let ?off = "dict_set ''remember_position'' (JBool False) p1"
  have p2: "p2 = dict_del ''window_maximized'' (dict_del ''window_y'' (dict_del ''window_x'' ?off))"
    and s2: "s2 = save_prefs e p2 (save_prefs e p2 s1)"
    using assms(6) by (auto simp: on_toggle_def reset_geometry_def Let_def)
  have v2: "valid_json (JObj p2)" unfolding p2 using v1 by (intro valid_prefs) (simp_all add: valid_str_lit)
  have "restore_geometry (w, h) areas p1 = (Some (clamp_to_workarea x y w h areas 40), b)"
    using assms(3,4) rem by (simp add: restore_geometry_def apply_saved_position_def get1 truthy_field_def)
  moreover have "default_size p1 = (JInt w, JInt h)" using assms(3) by (simp add: default_size_def get1)
  moreover have "restore_geometry (w, h) areas p2 = (None, False)"
    by (simp add: restore_geometry_def pref_def p2 dict_get_set dict_get_del)
  moreover have "default_size p2 = (JInt w, JInt h)"
    using assms(3) by (simp add: default_size_def p2 dict_get_set dict_get_del get1)
  moreover have "load_prefs e s1 = JObj p1" "load_prefs e s2 = JObj p2"
    unfolding s1 s2 by (rule load_saved_prefs [OF v1], rule load_saved_prefs [OF v2])
  moreover have "clamp_to_workarea x y w h areas 40 = (x, y)" if "list_ex (on_area 40 x y w h) areas"
    using that by (cases areas) (auto simp: clamp_to_workarea_def)
  ultimately show ?thesis by simp
qed


theorem geometry_roundtrip_witness:
  "\<exists>p1 s1. save_geometry (home_env ''/h'') \<lparr>g_size = (800, 600), g_position = (5000, 10), g_maximized = Some False\<rparr> []
       \<lparr>files = (\<lambda>_. None), dirs = (\<lambda>_. None)\<rparr> = (p1, s1) \<and>
     load_prefs (home_env ''/h'') s1 = JObj p1 \<and> restore_geometry (800, 600) [(0, 0, 1920, 1080)] p1 = (Some (1120, 10), False)"
proof -
  let ?g = "\<lparr>g_size = (800, 600), g_position = (5000, 10), g_maximized = Some False\<rparr>" and ?e = "home_env ''/h''"
  let ?s = "\<lparr>files = (\<lambda>_. None), dirs = (\<lambda>_. None)\<rparr>"
  obtain p1 s1 where save: "save_geometry ?e ?g [] ?s = (p1, s1)" by fastforce
  obtain p2 s2 where off: "on_toggle ?e ''remember_position'' False p1 s1 = (p2, s2)" by fastforce
  have "json_truthy (pref [] ''remember_position'')" by (simp add: pref_def DEFAULT_PREFS_def)
  then have "load_prefs ?e s1 = JObj p1 \<and> restore_geometry (800, 600) [(0, 0, 1920, 1080)] p1 =
      (Some (clamp_to_workarea 5000 10 800 600 [(0, 0, 1920, 1080)] 40), False)"
    using geometry_roundtrip [OF _ _ refl _ save off, of "[(0, 0, 1920, 1080)]"] by simp
  moreover have "clamp_to_workarea 5000 10 800 600 [(0, 0, 1920, 1080)] 40 = (1120, 10)" by code_simp
  ultimately show ?thesis using save by auto
qed

lemma import_identity_roundtrip:
  assumes "nacl_ok (kv_nacl v)" "length seed = 32" "py_strip entry = bytes_hex seed"
    and "k' = import_identity v entry True (Some (c # cs)) slt d k"
  shows "load_identity (kv_nacl v) (identity_path (kv_env v)) (c # cs) (hfs (kx_host k')) = Ok seed"
  using assms by (simp add: import_identity_def fromhex_hex set_keys_fs_def keys_dialog_def load_save_identity)

text \<open>
  A node key that is applied is reported as the user's address whatever the restart did, also
  when the daemon is a remote one, which the key does not reach.
\<close>

lemma node_key_always_reported:
  assumes "node_key_address v (kx_node_entry k) = Ok (seed, pub, addr)" "kv_writable v"
  shows "last (kx_dialogs (apply_node v True k)) = (''Node key applied'', ''Your address is now '' @ addr @ ''.'')"
  using assms by (simp add: apply_node_def apply_node_seed_def keys_dialog_def)

text \<open>
  C38: a restore that fails is not undone: when the node key in a backup is not hexadecimal, the dialog says that the restore failed,
  but the identity on disk has already been replaced by the one of the backup, while every
  other file, the node key and the contacts among them, is as before.
\<close>

theorem failed_restore_replaces_identity:
  assumes "nacl_ok (kv_nacl v)" "length seed = 32" "path \<noteq> []" "pw \<noteq> []"
    and "load_bundle (kv_nacl v) path bpw (hfs (kx_host k)) = Ok (JObj data)"
    and "dict_get data ''identitySeed'' = Some (JStr (bytes_hex seed))"
    and "dict_get data ''nodeSeed'' = Some (JStr t)" "t \<noteq> []" "fromhex t = Err (ValueError m)"
  shows "\<exists>k'. import_backup v RespOk (Some path) (Some bpw) True (Some pw) slt d k = Ok k' \<and>
    last (kx_dialogs k') = (''Restore failed'', m) \<and>
    load_identity (kv_nacl v) (identity_path (kv_env v)) pw (hfs (kx_host k')) = Ok seed \<and>
    (\<forall>q. q \<noteq> identity_path (kv_env v) \<and> q \<noteq> tmp_path (identity_path (kv_env v)) \<longrightarrow>
       files (hfs (kx_host k')) q = files (hfs (kx_host k)) q)"
proof -
  let ?f = "save_identity (kv_nacl v) (identity_path (kv_env v)) seed pw slt d (hfs (kx_host k))"
  obtain c cs a as where ne: "path = c # cs" "pw = a # as" using assms(3,4) by (cases path; cases pw) auto
  have seed: "bundle_seed (kv_nacl v) path bpw (hfs (kx_host k)) = Ok (JObj data)"
    using assms(2,5,6) by (simp add: bundle_seed_def get_default_def fromhex_hex)
  have restore: "restore_bundle (kv_nacl v) (kv_env v) path bpw pw slt d (hfs (kx_host k)) = (Err (ValueError m), ?f)"
    using assms(2,5-9) by (simp add: restore_bundle_def get_default_def fromhex_hex Let_def)
  have "import_backup v RespOk (Some path) (Some bpw) True (Some pw) slt d k =
      Ok (keys_dialog ''Restore failed'' m ((set_keys_fs ?f k)\<lparr>kx_bk_status := ''restore failed: '' @ m\<rparr>))"
    using seed restore unfolding ne by (simp add: import_backup_def)
  then show ?thesis
    by (intro exI conjI, assumption)
      (simp_all add: keys_dialog_def set_keys_fs_def load_save_identity [OF assms(1,2)] save_identity_other)
qed


theorem failed_restore_replaces_identity_witness:
  "\<exists>v k k'. import_backup v RespOk (Some ''b'') (Some ''bp'') True (Some ''pw'') [1] 0 k = Ok k' \<and>
     fst (last (kx_dialogs k')) = ''Restore failed'' \<and>
     load_identity plain_nacl (identity_path (home_env ''/h'')) ''pw'' (hfs (kx_host k')) = Ok (replicate 32 7)"
proof -
  define seed :: bytes where "seed = replicate 32 7"
  let ?data = "[(''identitySeed'', JStr (bytes_hex seed)), (''nodeSeed'', JStr ''zz'')]"
  let ?f = "save_bundle plain_nacl ''b'' ''bp'' (JObj ?data) [1] 0 \<lparr>files = (\<lambda>_. None), dirs = (\<lambda>_. None)\<rparr>"
  define v :: keys_env where "v = undefined\<lparr>kv_nacl := plain_nacl, kv_env := home_env ''/h''\<rparr>"
  define k :: keys_state where "k = undefined\<lparr>kx_host := \<lparr>procs = (\<lambda>_. None), signals = [], hfs = ?f\<rparr>\<rparr>"
  have v: "kv_nacl v = plain_nacl" "kv_env v = home_env ''/h''" and k: "hfs (kx_host k) = ?f" by (simp_all add: v_def k_def)
  have "ascii (bytes_hex seed)" by (rule ascii_subset [OF bytes_hex_chars]) (simp add: hex_digits_def ascii_def)
  then have "load_bundle (kv_nacl v) ''b'' ''bp'' (hfs (kx_host k)) = Ok (JObj ?data)"
    unfolding v k by (intro load_save_bundle [OF plain_nacl_ok]) (simp add: valid_str_lit)
  moreover have "fromhex ''zz'' = Err (ValueError ''non-hexadecimal number found in fromhex() arg'')" by code_simp
  then obtain m where "fromhex ''zz'' = Err (ValueError m)" by blast
  ultimately obtain k' where "import_backup v RespOk (Some ''b'') (Some ''bp'') True (Some ''pw'') [1] 0 k = Ok k'"
      "last (kx_dialogs k') = (''Restore failed'', m)"
      "load_identity (kv_nacl v) (identity_path (kv_env v)) ''pw'' (hfs (kx_host k')) = Ok seed"
    using failed_restore_replaces_identity [of v seed "''b''" "''pw''" "''bp''" k ?data "''zz''" m "[1]" 0]
    by (auto simp: v plain_nacl_ok seed_def)
  then show ?thesis unfolding v seed_def by (intro exI [of _ v] exI [of _ k] exI [of _ k']) simp
qed

end
