(* ===== verification/TetherMock.thy ===== *)
theory TetherMock
  imports Supervisor UiText
begin

text \<open>
  \<open>tether_mock/tether_mock.py\<close>: the single-file mock of the messages window with its tray daemon.
  The first part is the daemon: a pid file whose advisory lock makes the daemon unique, the tray
  process it starts, and the commands that look for it and stop it. The second part is the
  messages view. \<open>GLib.markup_escape_text\<close> is the argument \<open>esc\<close>.
\<close>

section \<open>Files\<close>

definition tm_config_dir :: "pyenv \<Rightarrow> string" where
  "tm_config_dir e = expanduser e ''/.config/tether-mock''"

definition tm_pid_file :: "pyenv \<Rightarrow> string" where
  "tm_pid_file e = path_join (tm_config_dir e) ''daemon.pid''"

definition tm_prefs_file :: "pyenv \<Rightarrow> string" where
  "tm_prefs_file e = path_join (tm_config_dir e) ''gtk.json''"

definition tm_load_prefs :: "pyenv \<Rightarrow> fs \<Rightarrow> json" where
  "tm_load_prefs e s = (case bind_res (os_read (tm_prefs_file e) s) json_loads_bytes of Ok v \<Rightarrow> v | Err _ \<Rightarrow> JObj [])"

definition tm_save_prefs :: "pyenv \<Rightarrow> (string, json) dict \<Rightarrow> fs \<Rightarrow> fs" where
  "tm_save_prefs e prefs s =
     write_file (tm_prefs_file e) (encode_utf8 (json_dumps_indent (JObj prefs)))
       (s\<lparr>dirs := makedirs 511 (tm_config_dir e) (dirs s)\<rparr>)"

definition tm_autostart_path :: "pyenv \<Rightarrow> string" where
  "tm_autostart_path e = path_join (expanduser e ''/.config/autostart'') ''tether-mock.desktop''"

text \<open>\<open>install_autostart\<close>; \<open>writable\<close> is whether the directory and the file can be written.\<close>

definition tm_desktop_entry :: "string \<Rightarrow> string \<Rightarrow> string list" where
  "tm_desktop_entry python script =
     [''[Desktop Entry]'', ''Type=Application'', ''Name=Tether Daemon'', ''Comment=Tether tray daemon'',
      ''Exec='' @ python @ '' '' @ script @ '' --daemon'', ''Icon=phone'', ''Categories=Utility;'',
      ''X-GNOME-Autostart-enabled=true'', ''X-XFCE-Autostart-Override=true'', ''Hidden=false'', ''NoDisplay=false'']"

definition tm_install_autostart :: "pyenv \<Rightarrow> bool \<Rightarrow> string \<Rightarrow> string \<Rightarrow> fs \<Rightarrow> string option \<times> fs" where
  "tm_install_autostart e writable python script s =
     (if \<not> writable then (None, s)
      else (Some (tm_autostart_path e),
        write_file (tm_autostart_path e) (encode_utf8 (concat (map (\<lambda>l. l @ [CHR 0x0A]) (tm_desktop_entry python script))))
          (s\<lparr>dirs := makedirs 511 (expanduser e ''/.config/autostart'') (dirs s)\<rparr>)))"

section \<open>The daemon\<close>

text \<open>
  \<open>tw_lock\<close> is the process that holds the lock of the pid file, \<open>tw_daemons\<close> the daemons in their
  main loop, each with the tray process it started. The kernel gives the lock up when its holder
  closes the file or ends; the tray does not inherit the file. \<open>tw_out\<close> is what was printed.
\<close>

record tether_world =
  tw_host :: host
  tw_lock :: "int option"
  tw_daemons :: "int \<rightharpoonup> int option"
  tw_out :: "string list"

definition tm_say :: "string \<Rightarrow> tether_world \<Rightarrow> tether_world" where
  "tm_say line w = w\<lparr>tw_out := tw_out w @ [line]\<rparr>"

definition on_host :: "(host \<Rightarrow> host) \<Rightarrow> tether_world \<Rightarrow> tether_world" where
  "on_host f w = w\<lparr>tw_host := f (tw_host w)\<rparr>"

definition tm_read_pid :: "pyenv \<Rightarrow> tether_world \<Rightarrow> int option" where
  "tm_read_pid e w = read_pid_file (tm_pid_file e) (tw_host w)"

text \<open>Opening with mode \<open>a+\<close> makes the directory and the file.\<close>

definition tm_open_pid_file :: "pyenv \<Rightarrow> host \<Rightarrow> host" where
  "tm_open_pid_file e h =
     h\<lparr>hfs := append_file (tm_pid_file e) [] ((hfs h)\<lparr>dirs := makedirs 511 (tm_config_dir e) (dirs (hfs h))\<rparr>)\<rparr>"

text \<open>\<open>check_daemon_running\<close>: the file is opened, and the lock taken and given up again if it is free.\<close>

definition check_daemon_running :: "pyenv \<Rightarrow> tether_world \<Rightarrow> int option \<times> tether_world" where
  "check_daemon_running e w =
     (let w1 = on_host (tm_open_pid_file e) w
      in (case tw_lock w of
            None \<Rightarrow> None
          | Some _ \<Rightarrow> Some (case tm_read_pid e w1 of Some p \<Rightarrow> p | None \<Rightarrow> - 1), w1))"

definition tm_stop_daemon :: "pyenv \<Rightarrow> tether_world \<Rightarrow> tether_world" where
  "tm_stop_daemon e w =
     (case tm_read_pid e w of
        None \<Rightarrow> tm_say ''Daemon is not running'' w
      | Some pid \<Rightarrow>
          if pid_exists (tw_host w) pid
          then tm_say (''Sent SIGTERM to '' @ int_str pid) (on_host (os_kill pid SIGTERM) w)
          else tm_say ''Could not stop daemon: [Errno 3] No such process'' w)"

definition tm_end_process :: "int \<Rightarrow> host \<Rightarrow> host" where
  "tm_end_process pid h = h\<lparr>procs := (procs h)(pid := None)\<rparr>"

text \<open>\<open>spawn_tray\<close>: the pid of the new process, \<open>None\<close> when it could not be started.\<close>

definition spawn_tray :: "int option \<Rightarrow> tether_world \<Rightarrow> tether_world" where
  "spawn_tray tray w =
     (case tray of
        None \<Rightarrow> tm_say ''[Tether daemon] Tray unavailable'' w
      | Some t \<Rightarrow> on_host (\<lambda>h. h\<lparr>procs := (procs h)(t \<mapsto> \<lparr>argv = [''python3'', ''-c''], zombie = False, dies_on_term = True\<rparr>)\<rparr>) w)"

text \<open>
  \<open>run_daemon\<close> of the process \<open>pid\<close> up to its main loop. A daemon that finds the lock taken returns,
  and its process ends. It handles \<open>SIGTERM\<close> itself.
\<close>

definition run_daemon :: "pyenv \<Rightarrow> int \<Rightarrow> int option \<Rightarrow> tether_world \<Rightarrow> tether_world" where
  "run_daemon e pid tray w =
     (let w1 = on_host (tm_open_pid_file e) w
      in if tw_lock w1 \<noteq> None
         then on_host (tm_end_process pid) (tm_say ''[Tether daemon] Another daemon already holds the lock, exiting'' w1)
         else
           let w2 = w1\<lparr>tw_lock := Some pid\<rparr>;
               w3 = on_host (\<lambda>h. h\<lparr>hfs := write_file (tm_pid_file e) (encode_utf8 (int_str pid)) (hfs h)\<rparr>) w2;
               w4 = spawn_tray tray (tm_say (''[Tether daemon] PID '' @ int_str pid @ '' - tray supervision active'') w3)
           in w4\<lparr>tw_daemons := (tw_daemons w4)(pid \<mapsto> tray)\<rparr>)"

text \<open>The handler of \<open>SIGTERM\<close> and \<open>SIGINT\<close>: the pid file is closed and stays as it is.\<close>

definition cleanup :: "int \<Rightarrow> tether_world \<Rightarrow> tether_world" where
  "cleanup pid w =
     (let w1 = tm_say ''[Tether daemon] Shutting down'' w;
          w2 = (case tw_daemons w pid of Some (Some t) \<Rightarrow> on_host (os_kill t SIGTERM) w1 | _ \<Rightarrow> w1)
      in on_host (tm_end_process pid) (w2\<lparr>tw_lock := None, tw_daemons := (tw_daemons w2)(pid := None)\<rparr>))"

text \<open>The tray: its menu item for stopping the daemon and its heartbeat, which is whether it goes on.\<close>

definition tray_stop_daemon :: "pyenv \<Rightarrow> tether_world \<Rightarrow> tether_world" where
  "tray_stop_daemon e w =
     (case tm_read_pid e w of
        Some pid \<Rightarrow> if pid \<noteq> 0 then on_host (os_kill pid SIGTERM) w else w
      | None \<Rightarrow> w)"

definition tray_heartbeat :: "pyenv \<Rightarrow> tether_world \<Rightarrow> bool" where
  "tray_heartbeat e w = (case tm_read_pid e w of Some pid \<Rightarrow> pid_exists (tw_host w) pid | None \<Rightarrow> False)"

text \<open>\<open>refresh_daemon_menu\<close>: what it shows and whether it starts a daemon.\<close>

record daemon_menu =
  dm_status :: string
  dm_stop :: bool
  dm_launch :: bool
  dm_autostart :: string
  dm_enable :: bool

definition refresh_daemon_menu :: "pyenv \<Rightarrow> tether_world \<Rightarrow> daemon_menu \<times> tether_world" where
  "refresh_daemon_menu e w =
     (case check_daemon_running e w of
        (running, w1) \<Rightarrow>
          let active = (case running of Some p \<Rightarrow> p \<noteq> 0 | None \<Rightarrow> False);
              enabled = os_exists (tm_autostart_path e) (hfs (tw_host w1))
          in (\<lparr>dm_status = (if active then ''Daemon active  (PID '' @ int_str (the running) @ '')'' else ''No daemon - launching one now''),
               dm_stop = active, dm_launch = \<not> active,
               dm_autostart = (if enabled then ''Autostart on login enabled'' else ''Not in XFCE autostart''),
               dm_enable = \<not> enabled\<rparr>, w1))"

text \<open>
  The steps of the machine: daemons start, get a signal or are killed; the commands look for them
  and stop them; the check is two steps, because it holds the lock in between; other
  processes come and go. A tray that has ended keeps its pid while the daemon that started it runs.
\<close>

inductive tm_step :: "pyenv \<Rightarrow> tether_world \<Rightarrow> tether_world \<Rightarrow> bool" for e where
  start: "procs (tw_host w) pid = None \<Longrightarrow> 0 < pid \<Longrightarrow> tray \<noteq> Some pid \<Longrightarrow>
    (\<And>t. tray = Some t \<Longrightarrow> procs (tw_host w) t = None) \<Longrightarrow>
    tm_step e w (run_daemon e pid tray
      (on_host (\<lambda>h. h\<lparr>procs := (procs h)(pid \<mapsto> \<lparr>argv = [''python3'', ''--daemon''], zombie = False, dies_on_term = False\<rparr>)\<rparr>) w))"
| signalled: "tw_daemons w pid \<noteq> None \<Longrightarrow> tm_step e w (cleanup pid w)"
| killed: "tw_daemons w pid \<noteq> None \<Longrightarrow>
    tm_step e w (on_host (tm_end_process pid) (w\<lparr>tw_lock := None, tw_daemons := (tw_daemons w)(pid := None)\<rparr>))"
| stop: "tm_step e w (tm_stop_daemon e w)"
| tray_stop: "tm_step e w (tray_stop_daemon e w)"
| menu: "tm_step e w (snd (refresh_daemon_menu e w))"
| check_locks: "tw_lock w = None \<Longrightarrow> procs (tw_host w) pid \<noteq> None \<Longrightarrow> tw_daemons w pid = None \<Longrightarrow>
    tm_step e w ((on_host (tm_open_pid_file e) w)\<lparr>tw_lock := Some pid\<rparr>)"
| check_unlocks: "tw_lock w = Some pid \<Longrightarrow> tw_daemons w pid = None \<Longrightarrow> tm_step e w (w\<lparr>tw_lock := None\<rparr>)"
| other_starts: "procs (tw_host w) pid = None \<Longrightarrow> 0 < pid \<Longrightarrow> \<not> zombie p \<Longrightarrow>
    tm_step e w (on_host (\<lambda>h. h\<lparr>procs := (procs h)(pid \<mapsto> p)\<rparr>) w)"
| tray_exits: "tw_daemons w d = Some (Some t) \<Longrightarrow> procs (tw_host w) t = Some p \<Longrightarrow>
    tm_step e w (on_host (\<lambda>h. h\<lparr>procs := (procs h)(t \<mapsto> p\<lparr>zombie := True\<rparr>)\<rparr>) w)"
| other_ends: "tw_daemons w pid = None \<Longrightarrow> tw_lock w \<noteq> Some pid \<Longrightarrow> (\<And>d. tw_daemons w d \<noteq> Some (Some pid)) \<Longrightarrow>
    tm_step e w (on_host (tm_end_process pid) w)"

definition tm_init :: "host \<Rightarrow> tether_world" where
  "tm_init h = \<lparr>tw_host = h, tw_lock = None, tw_daemons = (\<lambda>_. None), tw_out = []\<rparr>"

inductive_cases tm_stepE: "tm_step e w w'"

section \<open>Correctness of the daemon\<close>

text \<open>Every daemon holds the lock, is alive, and is the one the pid file names; its tray is another process.\<close>

definition handles :: "host \<Rightarrow> int \<Rightarrow> bool" where
  "handles h pid \<longleftrightarrow> (case procs h pid of Some p \<Rightarrow> \<not> zombie p \<and> \<not> dies_on_term p | None \<Rightarrow> False)"

definition daemon_sound :: "pyenv \<Rightarrow> tether_world \<Rightarrow> int \<Rightarrow> bool" where
  "daemon_sound e w pid \<longleftrightarrow> tw_lock w = Some pid \<and> tm_read_pid e w = Some pid \<and> tw_daemons w pid \<noteq> Some (Some pid) \<and>
     handles (tw_host w) pid \<and> 0 < pid"

definition tm_inv :: "pyenv \<Rightarrow> tether_world \<Rightarrow> bool" where
  "tm_inv e w \<longleftrightarrow> (\<forall>pid. tw_daemons w pid \<noteq> None \<longrightarrow> daemon_sound e w pid) \<and>
     (\<forall>pid. tw_lock w = Some pid \<longrightarrow> procs (tw_host w) pid \<noteq> None)"

lemma on_host_sel [simp]:
  "tw_host (on_host f w) = f (tw_host w)" "tw_lock (on_host f w) = tw_lock w"
  "tw_daemons (on_host f w) = tw_daemons w" "tw_out (on_host f w) = tw_out w"
  by (simp_all add: on_host_def)

lemma tm_say_sel [simp]:
  "tw_host (tm_say l w) = tw_host w" "tw_lock (tm_say l w) = tw_lock w" "tw_daemons (tm_say l w) = tw_daemons w"
  by (simp_all add: tm_say_def)

lemma open_keeps_pid: "read_pid_file (tm_pid_file e) h = Some p \<Longrightarrow> read_pid_file (tm_pid_file e) (tm_open_pid_file e h) = Some p"
  by (auto simp: read_pid_file_def tm_open_pid_file_def append_file_def os_read_def split: option.splits res.splits)

lemma tm_open_procs [simp]: "procs (tm_open_pid_file e h) = procs h" "signals (tm_open_pid_file e h) = signals h"
  by (simp_all add: tm_open_pid_file_def)

lemma read_pid_cong: "hfs h = hfs h' \<Longrightarrow> read_pid_file p h = read_pid_file p h'"
  by (simp add: read_pid_file_def)

lemma write_pid_read:
  assumes "0 < pid" and h: "hfs h = write_file p (encode_utf8 (int_str pid)) s"
  shows "read_pid_file p h = Some pid"
proof -
  have "ascii (nat_digits (nat pid))" using ascii_int_str [of pid] assms(1) by (simp add: int_str_def)
  with assms(1) show ?thesis
    by (simp add: read_pid_file_def h write_file_read decode_encode_utf8 valid_str_lit int_str_def py_int_digits)
qed

lemma os_kill_procs:
  "procs (os_kill pid SIGTERM h) q = (case procs h q of None \<Rightarrow> None
     | Some p \<Rightarrow> Some (if q = pid \<and> dies_on_term p then p\<lparr>zombie := True\<rparr> else p))"
  by (auto simp: os_kill_def split: option.splits)

text \<open>What leaves the lock, the daemons, the pid they read and their processes alone keeps the invariant.\<close>

lemma tm_inv_frame:
  assumes "tm_inv e w" "tw_lock w' = tw_lock w" "tw_daemons w' = tw_daemons w"
    and "\<And>pid. tw_daemons w pid \<noteq> None \<Longrightarrow> daemon_sound e w pid \<Longrightarrow> tm_read_pid e w' = Some pid \<and> handles (tw_host w') pid"
    and "\<And>pid. tw_lock w = Some pid \<Longrightarrow> procs (tw_host w) pid \<noteq> None \<Longrightarrow> procs (tw_host w') pid \<noteq> None"
  shows "tm_inv e w'"
  unfolding tm_inv_def
proof (intro conjI allI impI)
  fix pid
  show "daemon_sound e w' pid" if "tw_daemons w' pid \<noteq> None"
    using that assms(1-3) assms(4) [of pid] by (simp add: tm_inv_def daemon_sound_def)
  show "procs (tw_host w') pid \<noteq> None" if "tw_lock w' = Some pid"
    using that assms(1,2) assms(5) [of pid] unfolding tm_inv_def by metis
qed

lemma tm_inv_unlock:
  assumes "tm_inv e w" "tw_daemons w pid \<noteq> None" "tw_lock w' = None" "tw_daemons w' = (tw_daemons w)(pid := None)"
  shows "tm_inv e w'"
proof -
  have "tw_daemons w q = None" if "q \<noteq> pid" for q
    using assms(1,2) that unfolding tm_inv_def daemon_sound_def by (metis option.inject)
  with assms(3,4) show ?thesis by (simp add: tm_inv_def)
qed

lemma handles_kill [simp]: "handles (os_kill pid SIGTERM h) q = handles h q" if "handles h q" for q
  using that by (auto simp: handles_def os_kill_procs split: option.splits)

lemma tm_inv_kill: "tm_inv e w \<Longrightarrow> tm_inv e (on_host (os_kill pid SIGTERM) w)"
  by (erule tm_inv_frame)
    (auto simp: daemon_sound_def tm_read_pid_def os_kill_procs read_pid_cong [OF os_kill_fs])

lemma tm_inv_open: "tm_inv e w \<Longrightarrow> tm_inv e (on_host (tm_open_pid_file e) w)"
  by (erule tm_inv_frame) (auto simp: daemon_sound_def tm_read_pid_def open_keeps_pid handles_def)

lemma tm_inv_say: "tm_inv e (tm_say l w) = tm_inv e w"
  by (simp add: tm_inv_def daemon_sound_def tm_read_pid_def)

lemma tm_inv_procs:
  assumes "tm_inv e w" "\<And>q. tw_lock w = Some q \<Longrightarrow> P q = procs (tw_host w) q"
  shows "tm_inv e (on_host (\<lambda>h. h\<lparr>procs := P\<rparr>) w)"
  by (rule tm_inv_frame [OF assms(1)])
    (use assms(2) in \<open>auto simp: daemon_sound_def tm_read_pid_def read_pid_file_def handles_def\<close>)

lemma end_process_alt: "on_host (tm_end_process pid) w = on_host (\<lambda>h. h\<lparr>procs := (procs (tw_host w))(pid := None)\<rparr>) w"
  by (simp add: on_host_def tm_end_process_def)

lemma tm_inv_end: "tm_inv e w \<Longrightarrow> tw_lock w \<noteq> Some pid \<Longrightarrow> tm_inv e (on_host (tm_end_process pid) w)"
  unfolding end_process_alt by (rule tm_inv_procs) auto

lemma tm_inv_start:
  assumes "tm_inv e w" "procs (tw_host w) pid = None" "0 < pid" "tray \<noteq> Some pid" "\<And>t. tray = Some t \<Longrightarrow> procs (tw_host w) t = None"
    and "\<not> zombie p" "\<not> dies_on_term p"
  shows "tm_inv e (run_daemon e pid tray (on_host (\<lambda>h. h\<lparr>procs := (procs (tw_host w))(pid \<mapsto> p)\<rparr>) w))"
    (is "tm_inv e (run_daemon e pid tray ?w)")
proof (cases "tw_lock w")
  case None
  with assms(1) have none: "tw_daemons w q = None" for q by (auto simp: tm_inv_def daemon_sound_def)
  show ?thesis
    using assms(3-7) None none
    by (cases tray) (auto simp: run_daemon_def Let_def tm_inv_def daemon_sound_def tm_read_pid_def spawn_tray_def handles_def write_pid_read)
next
  case (Some q)
  with assms(1,2) have q: "q \<noteq> pid" by (auto simp: tm_inv_def)
  have "tm_inv e ?w" by (rule tm_inv_procs [OF assms(1)]) (use q Some in auto)
  then have "tm_inv e (on_host (tm_open_pid_file e) ?w)" by (rule tm_inv_open)
  with q Some show ?thesis
    by (simp add: run_daemon_def Let_def tm_inv_end tm_inv_say)
qed

lemma tm_inv_step:
  assumes "tm_step e w w'" "tm_inv e w"
  shows "tm_inv e w'"
  using assms
proof cases
  case (start pid tray)
  from tm_inv_start [OF assms(2) start(2,3,4,5)] show ?thesis by (simp add: start(1) on_host_def)
next
  case (signalled pid)
  then show ?thesis
    by (intro tm_inv_unlock [OF assms(2)]) (auto simp: cleanup_def Let_def split: option.split)
next
  case (killed pid)
  then show ?thesis by (intro tm_inv_unlock [OF assms(2)]) auto
next
  case stop
  then show ?thesis using assms(2) by (auto simp: tm_stop_daemon_def tm_inv_say tm_inv_kill split: option.split)
next
  case tray_stop
  then show ?thesis using assms(2) by (auto simp: tray_stop_daemon_def tm_inv_kill split: option.split)
next
  case menu
  then show ?thesis using assms(2) by (simp add: refresh_daemon_menu_def check_daemon_running_def Let_def tm_inv_open)
next
  case (check_locks pid)
  with assms(2) show ?thesis by (auto simp: tm_inv_def daemon_sound_def)
next
  case (check_unlocks pid)
  with assms(2) show ?thesis unfolding tm_inv_def daemon_sound_def by auto
next
  case (other_starts pid p)
  have "tm_inv e (on_host (\<lambda>h. h\<lparr>procs := (procs (tw_host w))(pid \<mapsto> p)\<rparr>) w)"
    by (rule tm_inv_procs [OF assms(2)]) (use assms(2) other_starts(2) in \<open>auto simp: tm_inv_def\<close>)
  then show ?thesis by (simp add: other_starts(1) on_host_def)
next
  case (tray_exits d t p)
  with assms(2) have "tw_lock w = Some d" "t \<noteq> d" by (auto simp: tm_inv_def daemon_sound_def)
  with tray_exits tm_inv_procs [OF assms(2), of "(procs (tw_host w))(t \<mapsto> p\<lparr>zombie := True\<rparr>)"] show ?thesis
    by (simp add: on_host_def)
next
  case (other_ends pid)
  then show ?thesis using tm_inv_end [OF assms(2)] by simp
qed

interpretation mock_daemon: step_machine "tm_step e" "tm_inv e" for e
  by unfold_locales (rule tm_inv_step)

lemma tm_reachable_inv: "(tm_step e)\<^sup>*\<^sup>* (tm_init h) w \<Longrightarrow> tm_inv e w"
  by (erule mock_daemon.reach_ok) (simp add: tm_init_def tm_inv_def)

text \<open>
  C40: the lock of the pid file makes the daemon of the mock unique: however daemons are started,
  signalled, killed and looked for, and whatever other processes do, at most one daemon is
  running; the check finds it under its pid, the menu offers to stop it and does not start
  another, and the stop command signals that process and no other.
\<close>

theorem mock_daemon_unique:
  assumes "(tm_step e)\<^sup>*\<^sup>* (tm_init h) w" and "tw_daemons w p \<noteq> None"
  shows "(\<forall>q. tw_daemons w q \<noteq> None \<longleftrightarrow> q = p) \<and> fst (check_daemon_running e w) = Some p \<and>
    dm_stop (fst (refresh_daemon_menu e w)) \<and> \<not> dm_launch (fst (refresh_daemon_menu e w)) \<and> tray_heartbeat e w \<and>
    signals (tw_host (tm_stop_daemon e w)) = signals (tw_host w) @ [(p, SIGTERM)] \<and>
    tw_daemons (run_daemon e pid tray w) = tw_daemons w"
proof -
  note inv = tm_reachable_inv [OF assms(1)]
  with assms(2) have p: "tw_lock w = Some p" "tm_read_pid e w = Some p" "handles (tw_host w) p" "0 < p"
    by (auto simp: tm_inv_def daemon_sound_def)
  have only: "tw_daemons w q \<noteq> None \<longleftrightarrow> q = p" for q
    using inv assms(2) p(1) unfolding tm_inv_def daemon_sound_def by (metis option.inject)
  have alive: "pid_exists (tw_host w) p" using p(3) by (auto simp: handles_def pid_exists_def split: option.splits)
  have check: "fst (check_daemon_running e w) = Some p"
    using p by (simp add: check_daemon_running_def Let_def tm_read_pid_def open_keeps_pid)
  then have "dm_stop (fst (refresh_daemon_menu e w))" "\<not> dm_launch (fst (refresh_daemon_menu e w))"
    using p(4) by (simp_all add: refresh_daemon_menu_def case_prod_beta Let_def)
  moreover have "tray_heartbeat e w" "signals (tw_host (tm_stop_daemon e w)) = signals (tw_host w) @ [(p, SIGTERM)]"
    using p(2) alive by (simp_all add: tray_heartbeat_def tm_stop_daemon_def os_kill_signals)
  moreover have "tw_daemons (run_daemon e pid tray w) = tw_daemons w" using p(1) by (simp add: run_daemon_def Let_def)
  ultimately show ?thesis using only check by blast
qed

definition one_daemon :: "pyenv \<Rightarrow> host \<Rightarrow> tether_world" where
  "one_daemon e h = run_daemon e 7 (Some 8)
     (on_host (\<lambda>h. h\<lparr>procs := (procs h)(7 \<mapsto> \<lparr>argv = [''python3'', ''--daemon''], zombie = False, dies_on_term = False\<rparr>)\<rparr>) (tm_init h))"

lemma one_daemon_reachable: "procs h 7 = None \<Longrightarrow> procs h 8 = None \<Longrightarrow> (tm_step e)\<^sup>*\<^sup>* (tm_init h) (one_daemon e h)"
  unfolding one_daemon_def by (intro r_into_rtranclp tm_step.start) (simp_all add: tm_init_def)

lemma one_daemon_runs: "tw_daemons (one_daemon e h) 7 \<noteq> None"
  by (simp add: one_daemon_def run_daemon_def tm_init_def Let_def spawn_tray_def)

theorem mock_daemon_unique_witness:
  "\<exists>e h w. (tm_step e)\<^sup>*\<^sup>* (tm_init h) w \<and> fst (check_daemon_running e w) = Some 7 \<and>
     signals (tw_host (tm_stop_daemon e w)) = signals (tw_host w) @ [(7, SIGTERM)]"
proof -
  let ?e = "\<lparr>environ = (\<lambda>_. None), home_dir = ''/h''\<rparr>"
  let ?h = "\<lparr>procs = (\<lambda>_. None), signals = [], hfs = \<lparr>files = (\<lambda>_. None), dirs = (\<lambda>_. None)\<rparr>\<rparr>"
  have run: "(tm_step ?e)\<^sup>*\<^sup>* (tm_init ?h) (one_daemon ?e ?h)" by (rule one_daemon_reachable) simp_all
  from mock_daemon_unique [OF run one_daemon_runs, of 9 None] run show ?thesis by blast
qed

text \<open>
  a daemon that has shut down leaves its pid in the file, and the stop command does not look at the lock:
  when another process has come to have that pid, the stop command sends it \<open>SIGTERM\<close>, although
  the check, which looks at the lock, finds no daemon.
\<close>

theorem mock_stale_pid_signalled:
  assumes "(tm_step e)\<^sup>*\<^sup>* (tm_init h) w" and "tw_daemons w pid \<noteq> None"
    and "w' = on_host (\<lambda>h. h\<lparr>procs := (procs h)(pid \<mapsto> p)\<rparr>) (cleanup pid w)"
  shows "fst (check_daemon_running e w') = None \<and> tw_daemons w' = (\<lambda>_. None) \<and>
    signals (tw_host (tm_stop_daemon e w')) = signals (tw_host w') @ [(pid, SIGTERM)]"
proof -
  have inv: "tm_inv e w" using assms(1) by (rule tm_reachable_inv)
  then have read: "tm_read_pid e w = Some pid" and lock: "tw_lock w = Some pid"
    using assms(2) by (auto simp: tm_inv_def daemon_sound_def)
  have none: "tw_daemons w q = None" if "q \<noteq> pid" for q
    using inv that lock unfolding tm_inv_def daemon_sound_def by (metis option.inject)
  have "hfs (tw_host w') = hfs (tw_host w)"
    by (simp add: assms(3) cleanup_def Let_def tm_end_process_def split: option.split)
  then have "tm_read_pid e w' = Some pid" using read by (simp add: tm_read_pid_def read_pid_file_def)
  moreover have "pid_exists (tw_host w') pid" by (simp add: assms(3) pid_exists_def)
  moreover have "tw_daemons w' = (\<lambda>_. None)" "tw_lock w' = None"
    using none by (auto simp: assms(3) cleanup_def Let_def split: option.split)
  ultimately show ?thesis
    by (simp add: tm_stop_daemon_def os_kill_signals check_daemon_running_def Let_def)
qed

theorem mock_stale_pid_signalled_witness:
  "\<exists>e h w. (tm_step e)\<^sup>*\<^sup>* (tm_init h) w \<and>
     (let w' = on_host (\<lambda>h. h\<lparr>procs := (procs h)(7 \<mapsto> \<lparr>argv = [''bash''], zombie = False, dies_on_term = True\<rparr>)\<rparr>) (cleanup 7 w)
      in fst (check_daemon_running e w') = None \<and> signals (tw_host (tm_stop_daemon e w')) = signals (tw_host w') @ [(7, SIGTERM)])"
proof -
  let ?e = "\<lparr>environ = (\<lambda>_. None), home_dir = ''/h''\<rparr>"
  let ?h = "\<lparr>procs = (\<lambda>_. None), signals = [], hfs = \<lparr>files = (\<lambda>_. None), dirs = (\<lambda>_. None)\<rparr>\<rparr>"
  have run: "(tm_step ?e)\<^sup>*\<^sup>* (tm_init ?h) (one_daemon ?e ?h)" by (rule one_daemon_reachable) simp_all
  from mock_stale_pid_signalled [OF run one_daemon_runs refl, of "\<lparr>argv = [''bash''], zombie = False, dies_on_term = True\<rparr>"] run
  show ?thesis unfolding Let_def by blast
qed

section \<open>The messages view\<close>

text \<open>
  A thread of the mock; \<open>tv_shown\<close> are the rows of the conversation on display, \<open>tv_page\<close> which page of the
  stack is visible and \<open>tv_compose\<close> whether the bar for a new message is. Threads are never removed,
  so a row stands for its position. The time of a message is an argument.
\<close>

type_synonym mock_msg = "bool \<times> string \<times> string"

record mock_thread =
  mt_name :: string
  mt_preview :: string
  mt_unread :: nat
  mt_messages :: "mock_msg list"

datatype mock_page = Placeholder | Conversation

record mock_view =
  tv_threads :: "mock_thread list"
  tv_selected :: "nat option"
  tv_row :: "nat option"
  tv_badges :: "bool list"
  tv_header :: string
  tv_shown :: "mock_msg list"
  tv_page :: mock_page
  tv_compose :: bool

definition mock_ellipsis :: string where "mock_ellipsis = [CHR 0xE2, CHR 0x80, CHR 0xA6]"

definition demo_threads :: "mock_thread list" where
  "demo_threads =
     [\<lparr>mt_name = ''Johnny Appleseed'', mt_preview = ''Send me the link, I want it '' @ mock_ellipsis, mt_unread = 2,
       mt_messages =
         [(False, ''Did the orchard photos come through?'', ''17:49''),
          (True, ''Yeah, all 40 of them. My phone tried to email them to me one at a time.'', ''17:52''),
          (False, ''That is the Apple way'', ''17:55''),
          (True, ''Dropped them on the Linux box straight from the phone instead. Took four seconds.'', ''17:58''),
          (False, ''Wait, you can do that now?'', ''21:17''),
          (False, ''Send me the link, I want it on mine tonight '' @ [CHR 0xF0, CHR 0x9F, CHR 0x8D, CHR 0x8E], ''21:19'')]\<rparr>,
      \<lparr>mt_name = ''274624'', mt_preview = ''Your verification code is 41'' @ mock_ellipsis, mt_unread = 1, mt_messages = []\<rparr>,
      \<lparr>mt_name = ''Mom'', mt_preview = ''Bring the pie '' @ [CHR 0xF0, CHR 0x9F, CHR 0xA5, CHR 0xA7], mt_unread = 1, mt_messages = []\<rparr>,
      \<lparr>mt_name = ''Dana Chen'', mt_preview = ''Sure. I'' @ [CHR 0x27] @ ''ll draft them tonight and '' @ mock_ellipsis, mt_unread = 0, mt_messages = []\<rparr>,
      \<lparr>mt_name = ''Sam Rivera'', mt_preview = ''Nice. Ping me when you'' @ [CHR 0x27] @ ''re clos'' @ mock_ellipsis, mt_unread = 0, mt_messages = []\<rparr>]"

text \<open>\<open>append_thread_row\<close>: a new row, with a badge if there is something unread.\<close>

definition append_thread_row :: "mock_thread \<Rightarrow> mock_view \<Rightarrow> mock_view" where
  "append_thread_row t v = v\<lparr>tv_badges := tv_badges v @ [mt_unread t > 0]\<rparr>"

definition mock_view_init :: "bool \<Rightarrow> mock_view" where
  "mock_view_init demo =
     (let ts = (if demo then demo_threads else [])
      in fold append_thread_row ts
           \<lparr>tv_threads = ts, tv_selected = None, tv_row = None, tv_badges = [], tv_header = [], tv_shown = [],
            tv_page = Placeholder, tv_compose = False\<rparr>)"

definition mock_thread_selected :: "(string \<Rightarrow> string) \<Rightarrow> nat option \<Rightarrow> mock_view \<Rightarrow> mock_view" where
  "mock_thread_selected esc row v =
     (case row of
        None \<Rightarrow> v\<lparr>tv_page := Placeholder, tv_selected := None\<rparr>
      | Some i \<Rightarrow>
          if i \<ge> length (tv_threads v) then v
          else
            let t = tv_threads v ! i;
                v1 = v\<lparr>tv_selected := Some i\<rparr>;
                v2 = (if mt_unread t > 0 then v1\<lparr>tv_threads := (tv_threads v)[i := t\<lparr>mt_unread := 0\<rparr>], tv_badges := (tv_badges v)[i := False]\<rparr> else v1)
            in v2\<lparr>tv_header := ''<big><b>'' @ esc (mt_name t) @ ''</b></big>'', tv_shown := mt_messages t, tv_page := Conversation\<rparr>)"

text \<open>The list emits \<open>row-selected\<close> when another row, or no row, becomes the selected one.\<close>

definition select_row :: "(string \<Rightarrow> string) \<Rightarrow> nat option \<Rightarrow> mock_view \<Rightarrow> mock_view" where
  "select_row esc row v = (if tv_row v = row then v else mock_thread_selected esc row (v\<lparr>tv_row := row\<rparr>))"

definition open_compose :: "mock_view \<Rightarrow> mock_view" where
  "open_compose v = v\<lparr>tv_compose := True\<rparr>"

definition create_thread :: "(string \<Rightarrow> string) \<Rightarrow> string \<Rightarrow> mock_view \<Rightarrow> mock_view" where
  "create_thread esc entry v =
     (let name = py_strip entry
      in if name = [] then v
         else
           let t = \<lparr>mt_name = name, mt_preview = [], mt_unread = 0, mt_messages = []\<rparr>;
               v1 = append_thread_row t (v\<lparr>tv_threads := tv_threads v @ [t]\<rparr>)
           in select_row esc (Some (length (tv_threads v))) (v1\<lparr>tv_compose := False\<rparr>))"

definition mock_send_message :: "string \<Rightarrow> string \<Rightarrow> mock_view \<Rightarrow> mock_view" where
  "mock_send_message stamp composer v =
     (case tv_selected v of
        None \<Rightarrow> v
      | Some i \<Rightarrow>
          let body = py_strip composer
          in if body = [] then v
             else
               let t = tv_threads v ! i; m = (True, body, stamp)
               in v\<lparr>tv_threads := (tv_threads v)[i := t\<lparr>mt_messages := mt_messages t @ [m], mt_preview := body\<rparr>],
                    tv_shown := tv_shown v @ [m]\<rparr>)"

datatype mock_event = SelectRow "nat option" | Compose | CancelCompose | NewThread string | SendText string string

fun mock_event_step :: "(string \<Rightarrow> string) \<Rightarrow> mock_event \<Rightarrow> mock_view \<Rightarrow> mock_view" where
  "mock_event_step esc (SelectRow row) v = (if (case row of Some i \<Rightarrow> i < length (tv_threads v) | None \<Rightarrow> True) then select_row esc row v else v)"
| "mock_event_step esc Compose v = open_compose v"
| "mock_event_step esc CancelCompose v = v\<lparr>tv_compose := False\<rparr>"
| "mock_event_step esc (NewThread entry) v = create_thread esc entry v"
| "mock_event_step esc (SendText stamp composer) v = mock_send_message stamp composer v"

text \<open>The conversation on display is that of the selected row, and badges mark exactly the threads with something unread.\<close>

definition mock_view_ok :: "(string \<Rightarrow> string) \<Rightarrow> mock_view \<Rightarrow> bool" where
  "mock_view_ok esc v \<longleftrightarrow> tv_badges v = map (\<lambda>t. mt_unread t > 0) (tv_threads v) \<and> tv_row v = tv_selected v \<and>
     (case tv_selected v of
        None \<Rightarrow> tv_page v = Placeholder
      | Some i \<Rightarrow> i < length (tv_threads v) \<and> tv_page v = Conversation \<and> tv_shown v = mt_messages (tv_threads v ! i) \<and>
          mt_unread (tv_threads v ! i) = 0 \<and> tv_header v = ''<big><b>'' @ esc (mt_name (tv_threads v ! i)) @ ''</b></big>'')"

lemma mock_selected_ok:
  assumes "tv_badges v = map (\<lambda>t. mt_unread t > 0) (tv_threads v)" "\<And>i. row = Some i \<Longrightarrow> i < length (tv_threads v)"
  shows "mock_view_ok esc (mock_thread_selected esc row (v\<lparr>tv_row := row\<rparr>))"
  using assms by (cases row) (auto simp: mock_view_ok_def mock_thread_selected_def Let_def map_update nth_list_update)

lemma select_row_ok:
  assumes "mock_view_ok esc v" "\<And>i. row = Some i \<Longrightarrow> i < length (tv_threads v)"
  shows "mock_view_ok esc (select_row esc row v)"
  using assms mock_selected_ok [of v row esc] by (simp add: select_row_def) (simp add: mock_view_ok_def)

lemma mock_init_ok: "mock_view_ok esc (mock_view_init demo)"
proof -
  have "tv_badges (fold append_thread_row ts v) = tv_badges v @ map (\<lambda>t. mt_unread t > 0) ts \<and>
      tv_threads (fold append_thread_row ts v) = tv_threads v \<and> tv_row (fold append_thread_row ts v) = tv_row v \<and>
      tv_selected (fold append_thread_row ts v) = tv_selected v \<and> tv_page (fold append_thread_row ts v) = tv_page v" for ts v
    by (induction ts arbitrary: v) (simp_all add: append_thread_row_def)
  then show ?thesis by (simp add: mock_view_ok_def mock_view_init_def Let_def)
qed

lemma mock_step_ok: "mock_view_ok esc v \<Longrightarrow> mock_view_ok esc (mock_event_step esc ev v)"
proof (cases ev)
  case (SelectRow row)
  then show "mock_view_ok esc v \<Longrightarrow> ?thesis" by (auto intro: select_row_ok)
next
  case (NewThread entry)
  assume ok: "mock_view_ok esc v"
  show ?thesis
  proof (cases "py_strip entry = []")
    case False
    let ?t = "\<lparr>mt_name = py_strip entry, mt_preview = [], mt_unread = 0, mt_messages = []\<rparr>"
    let ?v = "(append_thread_row ?t (v\<lparr>tv_threads := tv_threads v @ [?t]\<rparr>))\<lparr>tv_compose := False\<rparr>"
    have "mock_view_ok esc ?v"
      using ok by (auto simp: mock_view_ok_def append_thread_row_def nth_append split: option.splits)
    then have "mock_view_ok esc (select_row esc (Some (length (tv_threads v))) ?v)"
      by (rule select_row_ok) (simp add: append_thread_row_def)
    with NewThread False show ?thesis by (simp add: create_thread_def Let_def)
  qed (use NewThread ok in \<open>simp add: create_thread_def\<close>)
next
  case (SendText stamp composer)
  have same: "xs = xs[i := False]" if "i < length xs" "\<not> xs ! i" for xs i
    using that by (metis (full_types) list_update_id)
  assume "mock_view_ok esc v"
  then show ?thesis unfolding SendText
    by (auto simp: mock_send_message_def mock_view_ok_def Let_def map_update nth_list_update split: option.splits intro!: same)
qed (auto simp: open_compose_def mock_view_ok_def split: option.splits)

interpretation mock_window: event_machine "mock_event_step esc" "mock_view_ok esc" for esc
  by unfold_locales (rule mock_step_ok)

text \<open>
  whatever the user selects, creates and sends, the mock shows what it holds: the
  conversation on display is the selected thread's, message by message and under its escaped name, the page is the
  placeholder exactly when no thread is selected, the selected thread has nothing unread, and the badges mark
  exactly the threads that have.
\<close>

theorem mock_view_consistent:
  "mock_view_ok esc (fold (mock_event_step esc) evs (mock_view_init demo))"
  by (rule mock_window.fold_ok [OF mock_init_ok])

section \<open>The window and the command line\<close>

text \<open>The window's size is read from the preferences and saved on closing.\<close>

definition mock_geometry :: "json \<Rightarrow> (json \<times> json) res" where
  "mock_geometry prefs =
     (case prefs of
        JObj kvs \<Rightarrow> Ok (case dict_get kvs ''window_width'' of Some x \<Rightarrow> x | None \<Rightarrow> JInt 1008,
                       case dict_get kvs ''window_height'' of Some x \<Rightarrow> x | None \<Rightarrow> JInt 723)
      | _ \<Rightarrow> Err (AttributeError ''get''))"

definition mock_save_geometry :: "pyenv \<Rightarrow> int \<Rightarrow> int \<Rightarrow> (string, json) dict \<Rightarrow> fs \<Rightarrow> (string, json) dict \<times> fs" where
  "mock_save_geometry e width height prefs s =
     (let prefs1 = dict_set ''window_height'' (JInt height) (dict_set ''window_width'' (JInt width) prefs)
      in (prefs1, tm_save_prefs e prefs1 s))"

definition mock_install_clicked :: "string option \<Rightarrow> daemon_menu \<Rightarrow> daemon_menu" where
  "mock_install_clicked path m =
     (case path of Some p \<Rightarrow> if p = [] then m else m\<lparr>dm_autostart := ''Autostart installed: '' @ p, dm_enable := False\<rparr> | None \<Rightarrow> m)"

datatype mock_command = InstallAutostart | StopDaemon | RunDaemon | RunUi bool

definition mock_main :: "string list \<Rightarrow> mock_command" where
  "mock_main args =
     (if ''--install-autostart'' \<in> set args then InstallAutostart
      else if ''--stop'' \<in> set args then StopDaemon
      else if ''--daemon'' \<in> set args then RunDaemon
      else RunUi (''--demo'' \<in> set args))"

lemma mock_geometry_roundtrip:
  assumes "valid_json (JObj prefs)"
  shows "mock_geometry (tm_load_prefs e (snd (mock_save_geometry e width height prefs s))) = Ok (JInt width, JInt height)"
proof -
  have "valid_json (JObj (fst (mock_save_geometry e width height prefs s)))"
    using assms by (simp add: mock_save_geometry_def Let_def valid_json_set valid_str_lit del: valid_json.simps(3))
  then show ?thesis
    by (simp add: mock_geometry_def tm_load_prefs_def mock_save_geometry_def tm_save_prefs_def Let_def write_file_read
        json_loads_bytes_dumps_indent dict_get_set del: valid_json.simps(3))
qed

end
