(* ===== verification/Spec2Isabelle.thy ===== *)
theory Spec2Isabelle
  imports Base58 Keys Paths Logging Protocol Store Service DaemonClient Client Tunnel Supervisor App UiText Session Requests Window Cli Display Settings TetherMock
begin

text \<open>
  A verification development of the Aimless client, the Python program under \<open>src/client/aimless\<close> and
  the mock under \<open>src/tether_mock\<close>.

  \<^bold>\<open>The program.\<close> Aimless is a serverless messenger. A daemon, a separate program in Go, runs a node of the
  Yggdrasil network and keeps a journal of what its peers sent. The client seals messages and files
  with PyNaCl, talks to the daemon over a socket, possibly through an SSH tunnel it supervises, keeps an
  encrypted SQLite store, and has a command line and a GTK window. The window and the command line
  share \<open>protocol.py\<close>, \<open>store.py\<close>, \<open>service.py\<close> and \<open>daemon.py\<close>; the window also starts, watches and stops the
  daemon and the tunnel.

  \<^bold>\<open>Theories and what they model.\<close>
  \<^item> \<open>Prelude\<close>: results with exceptions as values, the state and exception monad \<open>act\<close>, association lists as dicts, and the
    interfaces shared by components. \<open>PyText\<close>, \<open>Base64\<close>, \<open>Json\<close>: the parts of Python's library the sources use
    (hexadecimal, UTF-8, \<open>str\<close> methods, base64, \<open>json\<close>). Strings are their UTF-8 bytes. \<open>Files\<close>: files,
    directories, the steps of a write. \<open>Processes\<close>: processes, signals, pid files.
  \<^item> \<open>Base58\<close> (\<open>base58.py\<close>), \<open>Crypto\<close> (\<open>crypto.py\<close>), \<open>Keys\<close> (\<open>keys.py\<close>), \<open>Paths\<close> (\<open>paths.py\<close>), \<open>Logging\<close>
    (\<open>logging.py\<close>), \<open>Protocol\<close> (\<open>protocol.py\<close>: invites, envelopes, chunks of files, contacts).
  \<^item> \<open>Store\<close> (\<open>store.py\<close>): a record with a table per SQL table and a function per method; \<open>Service\<close> (\<open>service.py\<close>):
    the synchronisation with the journal.
  \<^item> \<open>DaemonClient\<close> (\<open>daemon.py\<close>): the connection with its reader thread; the passes of the threads are steps.
    \<open>Client\<close>: the class \<open>Client\<close> of that file. \<open>Tunnel\<close> (\<open>tunnel.py\<close>).
  \<^item> \<open>gtkui.py\<close>: \<open>Supervisor\<close> (the daemon, the lock, autostart, stop), \<open>App\<close> (\<open>AimlessApp\<close>: timers, signals and threads as
    steps), \<open>UiText\<close> (links, sizes, preferences, sounds, placement), \<open>Session\<close> (session, identity, backup,
    contacts), \<open>Chat\<close> and \<open>Requests\<close> (\<open>MessagesView\<close> and the handlers of the window), \<open>FileTransfer\<close> (files, delivery marks,
    dispatch of events), \<open>Window\<close> (all handlers as one machine), \<open>Display\<close> (what rows, headers, transcript and buddy list
    show), \<open>Settings\<close> (themes, preferences, geometry, keys dialog, import of backups).
  \<^item> \<open>Cli\<close> (\<open>cli.py\<close>): every command and the dispatch. \<open>TetherMock\<close> (\<open>tether_mock.py\<close>).

  Records and functions carry the names of the classes and functions they model, without leading underscores. A function that raises
  returns \<open>Err\<close> with the exception; a handler that goes on after an exception keeps the state it had
  changed by then. Work on other threads is a task in the window's list of running tasks, and its end is an event of its own, so
  that tasks end in any order.

  \<^bold>\<open>Interfaces.\<close> \<open>codec\<close> (an encoder with its decoder) is interpreted for base58, base64, hexadecimal, UTF-8 and JSON;
  \<open>keyed_table\<close> for dicts; \<open>atomic_writer\<close> for the write through a temporary file; \<open>forward_cursor\<close>, \<open>once_log\<close> and
  \<open>keyed_queue\<close> for the store's cursors, its inbox and its pending requests; \<open>step_machine\<close> and \<open>event_machine\<close> for the
  daemon and the window of the mock.

  \<^bold>\<open>Arguments of the model.\<close> PyNaCl and scrypt are the record \<open>nacl\<close>; \<open>nacl_ok\<close> says that decryption undoes encryption,
  that signatures verify and that lengths are the documented ones, and \<open>plain_nacl\<close> satisfies it. The daemon's answers, the clock, random
  bytes, the answers of dialogs, GLib's escape function, the local date of a time and other processes' behaviour are arguments.

  \<^bold>\<open>What is shown.\<close>
  \<^item> Round trips: messages, invites, base58, files in chunks in any order, backups, the saved geometry.
  \<^item> The store: it can always be read after any operations, a replay adds nothing, a message counts as delivered when all
    parts are acknowledged; the queue of requests refines an abstract queue.
  \<^item> Synchronisation: it applies every entry once, agrees with live events, and is blocked for good by
    an entry that cannot be decrypted.
  \<^item> The window: strangers are withheld, the outcomes of a request, silence after a block, what a contact's message
    changes, the invariant of the window over all handlers and tasks, what a conversation and the buddy list show, names without markup.
  \<^item> The connection: a reply goes to the request with its id and is delivered; the serialised path loses error replies.
  \<^item> Processes: what stop and the tunnel may signal, delays between restarts, at most one restart and one attempt to
    connect, how a failed restart wedges, one daemon of the mock.
  \<^item> Below, across components: a message sent from the command line is drawn in the recipient's window.

  \<^bold>\<open>Termination and bounds.\<close> All functions are total. Loops of the sources are structural recursion or have a measure; the JSON
  parser's fuel is the length of its input, which is shown to be enough for every printed value. The waits of
  \<open>App\<close>, \<open>Tunnel\<close> and \<open>DaemonClient\<close> consume a list of observations given as an argument, one for each pass. Python's
  integers are \<open>int\<close> or \<open>nat\<close>; bytes are \<open>8 word\<close>.

  \<^bold>\<open>Not modelled.\<close> The daemon in Go (another program; its answers are arguments); the construction of GTK widgets, the style
  sheet, drawing and the tray icon (calls without logic of their own); the text of confirmation dialogs; SQLite's locking and
  PRAGMAs (each method is one atomic step, as it is under the store's lock); digits and letters outside ASCII in \<open>int()\<close>
  and \<open>lower()\<close>; \<open>deploy/smoke.py\<close>, \<open>deploy/check_dist.py\<close>, the container and release scripts, and the tests.
\<close>

section \<open>From one user's command line to the other user's window\<close>



end
